theory Spec2Isabelle
  imports
    Main
    "HOL-Library.Word"
    "HOL-Library.Monad_Syntax"
    "HOL-Library.Char_ord"
    "HOL-Library.List_Lexorder"
begin

unbundle bit_operations_syntax

section \<open>Go library functions used by the provider\<close>

text \<open>
  A Go \<open>string\<close> is a sequence of bytes and so is a HOL \<^typ>\<open>string\<close>: \<^typ>\<open>char\<close> has
  256 values. \<open>len\<close> is \<^const>\<open>length\<close>, \<open>s[:n]\<close> is \<^term>\<open>take n s\<close>, \<open>+\<close> is \<open>@\<close> and
  the \<open>%s\<close> verb of \<open>fmt.Sprintf\<close> splices its argument in unchanged.  The order on strings
  (Go's \<open><\<close>, used by \<open>sort.Strings\<close>) is the lexicographic order on bytes.
\<close>

abbreviation squote :: char where "squote \<equiv> CHR 0x27"
abbreviation backslash :: char where "backslash \<equiv> CHR 0x5C"
abbreviation newline :: char where "newline \<equiv> CHR 0x0A"
abbreviation slash :: char where "slash \<equiv> CHR ''/''"

text \<open>The \<open>%d\<close> verb: decimal digits, with a minus sign for a negative number.\<close>

definition digit_char :: "nat \<Rightarrow> char" where
  "digit_char d = char_of (48 + d)"

function nat_decimal :: "nat \<Rightarrow> string" where
  "nat_decimal n = (if n < 10 then [digit_char n] else nat_decimal (n div 10) @ [digit_char (n mod 10)])"
  by pat_completeness auto
termination
  by (relation "measure id") auto

definition itoa :: "int \<Rightarrow> string" where
  "itoa i = (if i < 0 then CHR ''-'' # nat_decimal (nat (- i)) else nat_decimal (nat i))"

text \<open>\<open>strings.Join(elems, sep)\<close>.\<close>

fun strings_Join :: "string list \<Rightarrow> string \<Rightarrow> string" where
  "strings_Join [] sep = []"
| "strings_Join [e] sep = e"
| "strings_Join (e # es) sep = e @ sep @ strings_Join es sep"

text \<open>
  \<open>path/filepath\<close> on a Unix host (separator \<open>/\<close>, no volume names).  \<open>Clean\<close> follows the
  four rules of its documentation: runs of separators collapse, \<open>.\<close> elements disappear, an
  inner \<open>..\<close> removes the element before it, and a \<open>..\<close> at the start of a rooted path
  disappears; the empty result is \<open>.\<close>.
\<close>

fun split_sep :: "string \<Rightarrow> string list" where
  "split_sep [] = [[]]"
| "split_sep (c # cs) =
     (if c = slash then [] # split_sep cs
      else (case split_sep cs of [] \<Rightarrow> [[c]] | x # xs \<Rightarrow> (c # x) # xs))"

definition clean_step :: "bool \<Rightarrow> string list \<Rightarrow> string \<Rightarrow> string list" where
  "clean_step rooted out e =
     (if e = [] \<or> e = ''.'' then out
      else if e = ''..'' then
        (if out \<noteq> [] \<and> last out \<noteq> ''..'' then butlast out
         else if rooted then out
         else out @ [e])
      else out @ [e])"

definition Clean :: "string \<Rightarrow> string" where
  "Clean path =
     (let rooted = (path \<noteq> [] \<and> hd path = slash);
          body = strings_Join (foldl (clean_step rooted) [] (split_sep path)) ''/''
      in if rooted then slash # body
         else if body = [] then ''.''
         else body)"

definition filepath_Join :: "string list \<Rightarrow> string" where
  "filepath_Join elems =
     (case dropWhile (\<lambda>e. e = []) elems of
        [] \<Rightarrow> []
      | es \<Rightarrow> Clean (strings_Join es ''/''))"

text \<open>
  What \<open>Clean\<close> makes of the directory part of a path whose last element is an ordinary
  name: the cleaned parent with its closing separator.
\<close>

definition clean_parent :: "string \<Rightarrow> string" where
  "clean_parent d =
     (let rooted = (hd (d @ [slash]) = slash);
          out = foldl (clean_step rooted) [] (split_sep d)
      in (if rooted then [slash] else []) @ (if out = [] then [] else strings_Join out ''/'' @ ''/''))"

text \<open>\<open>filepath.Dir\<close>: everything up to and including the last separator, cleaned.\<close>

definition filepath_Dir :: "string \<Rightarrow> string" where
  "filepath_Dir path = Clean (rev (dropWhile (\<lambda>c. c \<noteq> slash) (rev path)))"

text \<open>\<open>strings.ReplaceAll(s, "'", "'\\''")\<close>: every single quote is replaced on its own.\<close>

definition shellEscape :: "string \<Rightarrow> string" where
  "shellEscape s = concat (map (\<lambda>c. if c = squote then [squote, backslash, squote, squote] else [c]) s)"

text \<open>
  \<open>strings.TrimSpace\<close> removes white space, as Unicode defines it, from both ends.  In
  UTF-8 the white-space characters are the six ASCII ones, U+0085 and U+00A0 (two bytes),
  and U+1680, U+2000 to U+200A, U+2028, U+2029, U+202F, U+205F and U+3000 (three bytes).
\<close>

definition ascii_space :: "char \<Rightarrow> bool" where
  "ascii_space c = (c \<in> {CHR 0x09, CHR 0x0A, CHR 0x0B, CHR 0x0C, CHR 0x0D, CHR 0x20})"

definition space2 :: "char \<Rightarrow> char \<Rightarrow> bool" where
  "space2 a b = (a = CHR 0xC2 \<and> (b = CHR 0x85 \<or> b = CHR 0xA0))"

definition space3 :: "char \<Rightarrow> char \<Rightarrow> char \<Rightarrow> bool" where
  "space3 a b c =
     ((a = CHR 0xE1 \<and> b = CHR 0x9A \<and> c = CHR 0x80)
      \<or> (a = CHR 0xE2 \<and> b = CHR 0x80 \<and>
           ((of_char c :: nat) \<in> {0x80..0x8A} \<or> c = CHR 0xA8 \<or> c = CHR 0xA9 \<or> c = CHR 0xAF))
      \<or> (a = CHR 0xE2 \<and> b = CHR 0x81 \<and> c = CHR 0x9F)
      \<or> (a = CHR 0xE3 \<and> b = CHR 0x80 \<and> c = CHR 0x80))"

fun TrimLeftSpace :: "string \<Rightarrow> string" where
  "TrimLeftSpace (a # b # c # s) =
     (if ascii_space a then TrimLeftSpace (b # c # s)
      else if space2 a b then TrimLeftSpace (c # s)
      else if space3 a b c then TrimLeftSpace s
      else a # b # c # s)"
| "TrimLeftSpace [a, b] =
     (if ascii_space a then TrimLeftSpace [b]
      else if space2 a b then []
      else [a, b])"
| "TrimLeftSpace [a] = (if ascii_space a then [] else [a])"
| "TrimLeftSpace [] = []"

fun TrimRightSpaceRev :: "string \<Rightarrow> string" where
  "TrimRightSpaceRev (c # b # a # s) =
     (if ascii_space c then TrimRightSpaceRev (b # a # s)
      else if space2 b c then TrimRightSpaceRev (a # s)
      else if space3 a b c then TrimRightSpaceRev s
      else c # b # a # s)"
| "TrimRightSpaceRev [c, b] =
     (if ascii_space c then TrimRightSpaceRev [b]
      else if space2 b c then []
      else [c, b])"
| "TrimRightSpaceRev [c] = (if ascii_space c then [] else [c])"
| "TrimRightSpaceRev [] = []"

definition TrimSpace :: "string \<Rightarrow> string" where
  "TrimSpace s = rev (TrimRightSpaceRev (rev (TrimLeftSpace s)))"


text \<open>
  \<open>base64.StdEncoding.EncodeToString\<close>: three bytes become four characters of the
  standard alphabet, and a last group of one or two bytes is padded with \<open>=\<close>.
\<close>

definition b64char :: "nat \<Rightarrow> char" where
  "b64char n =
     (if n < 26 then char_of (65 + n)
      else if n < 52 then char_of (71 + n)
      else if n < 62 then char_of (n - 4)
      else if n = 62 then CHR ''+''
      else CHR ''/'')"

fun EncodeToString :: "string \<Rightarrow> string" where
  "EncodeToString [] = []"
| "EncodeToString [a] =
     (let x = (of_char a :: nat)
      in [b64char (x div 4), b64char ((x mod 4) * 16), CHR ''='', CHR ''=''])"
| "EncodeToString [a, b] =
     (let x = (of_char a :: nat); y = (of_char b :: nat)
      in [b64char (x div 4), b64char ((x mod 4) * 16 + y div 16), b64char ((y mod 16) * 4),
          CHR ''=''])"
| "EncodeToString (a # b # c # rest) =
     (let x = (of_char a :: nat); y = (of_char b :: nat); z = (of_char c :: nat)
      in [b64char (x div 4), b64char ((x mod 4) * 16 + y div 16),
          b64char ((y mod 16) * 4 + z div 64), b64char (z mod 64)] @ EncodeToString rest)"

text \<open>\<open>hex.EncodeToString\<close>: two lower-case hexadecimal digits for every byte.\<close>

definition hexdigit :: "nat \<Rightarrow> char" where
  "hexdigit n = (if n < 10 then char_of (48 + n) else char_of (87 + n))"

definition hex_EncodeToString :: "string \<Rightarrow> string" where
  "hex_EncodeToString bs =
     concat (map (\<lambda>b. [hexdigit ((of_char b :: nat) div 16), hexdigit ((of_char b :: nat) mod 16)]) bs)"

text \<open>
  \<open>crypto/sha256\<close> (FIPS 180-4) on 32-bit words: the eight working variables, the
  message schedule of 64 words for every block of 64 bytes, and the big-endian digest of
  32 bytes.  Writing to the hash piece by piece hashes the concatenation of the pieces.
\<close>

definition is_prime :: "nat \<Rightarrow> bool" where
  "is_prime n = (1 < n \<and> list_all (\<lambda>d. n mod d \<noteq> 0) [2..<n])"

definition first_primes :: "nat list" where
  "first_primes = filter is_prime [2..<312]"

text \<open>
  The largest \<open>r\<close> below \<open>2 ^ 36\<close> with \<open>r ^ k \<le> n\<close>, found bit by bit from the top:
  the integer part of a square or cube root.
\<close>

definition int_root :: "nat \<Rightarrow> nat \<Rightarrow> nat" where
  "int_root k n = foldl (\<lambda>r b. if (r + 2 ^ b) ^ k \<le> n then r + 2 ^ b else r) 0 (rev [0..<36])"

text \<open>
  The round constants are the first 32 bits of the fractional parts of the cube roots of
  the first 64 primes, and the initial hash value those of the square roots of the first
  eight.
\<close>

definition K256 :: "32 word list" where
  "K256 = map (\<lambda>p. word_of_nat (int_root 3 (p * 2 ^ 96))) first_primes"

definition H256 :: "32 word list" where
  "H256 = map (\<lambda>p. word_of_nat (int_root 2 (p * 2 ^ 64))) (take 8 first_primes)"

definition rotr :: "nat \<Rightarrow> 32 word \<Rightarrow> 32 word" where
  "rotr n x = drop_bit n x OR push_bit (32 - n) x"

definition Ch :: "32 word \<Rightarrow> 32 word \<Rightarrow> 32 word \<Rightarrow> 32 word" where
  "Ch x y z = (x AND y) XOR (NOT x AND z)"

definition Maj :: "32 word \<Rightarrow> 32 word \<Rightarrow> 32 word \<Rightarrow> 32 word" where
  "Maj x y z = (x AND y) XOR (x AND z) XOR (y AND z)"

definition Sigma0 :: "32 word \<Rightarrow> 32 word" where
  "Sigma0 x = rotr 2 x XOR rotr 13 x XOR rotr 22 x"

definition Sigma1 :: "32 word \<Rightarrow> 32 word" where
  "Sigma1 x = rotr 6 x XOR rotr 11 x XOR rotr 25 x"

definition sigma0 :: "32 word \<Rightarrow> 32 word" where
  "sigma0 x = rotr 7 x XOR rotr 18 x XOR drop_bit 3 x"

definition sigma1 :: "32 word \<Rightarrow> 32 word" where
  "sigma1 x = rotr 17 x XOR rotr 19 x XOR drop_bit 10 x"

text \<open>Padding: a byte 0x80, zero bytes up to 56 modulo 64, the bit length on eight bytes.\<close>

definition be_bytes :: "nat \<Rightarrow> nat \<Rightarrow> nat list" where
  "be_bytes k n = map (\<lambda>i. (n div 256 ^ (k - 1 - i)) mod 256) [0..<k]"

definition sha_pad :: "nat list \<Rightarrow> nat list" where
  "sha_pad m = m @ [128] @ replicate ((119 - length m mod 64) mod 64) 0 @ be_bytes 8 (8 * length m)"

fun be_words :: "nat list \<Rightarrow> 32 word list" where
  "be_words (a # b # c # d # rest) = word_of_nat (((a * 256 + b) * 256 + c) * 256 + d) # be_words rest"
| "be_words _ = []"

fun schedule :: "nat \<Rightarrow> 32 word list \<Rightarrow> 32 word list" where
  "schedule 0 w = w"
| "schedule (Suc n) w =
     (let t = length w
      in schedule n (w @ [sigma1 (w ! (t - 2)) + w ! (t - 7) + sigma0 (w ! (t - 15)) + w ! (t - 16)]))"

fun sha_round :: "32 word list \<Rightarrow> 32 word \<times> 32 word \<Rightarrow> 32 word list" where
  "sha_round [a, b, c, d, e, f, g, h] (k, w) =
     (let t1 = h + Sigma1 e + Ch e f g + k + w;
          t2 = Sigma0 a + Maj a b c
      in [t1 + t2, a, b, c, d + t1, e, f, g])"
| "sha_round v _ = v"

definition sha_block :: "32 word list \<Rightarrow> 32 word list \<Rightarrow> 32 word list" where
  "sha_block hs w16 = map2 (+) hs (foldl sha_round hs (zip K256 (schedule 48 w16)))"

function sha_blocks :: "32 word list \<Rightarrow> 32 word list \<Rightarrow> 32 word list" where
  "sha_blocks hs ws = (if length ws < 16 then hs else sha_blocks (sha_block hs (take 16 ws)) (drop 16 ws))"
  by pat_completeness auto
termination
  by (relation "measure (\<lambda>(hs, ws). length ws)") auto

definition sha256_Sum :: "string \<Rightarrow> string" where
  "sha256_Sum m =
     concat (map (\<lambda>w. map char_of (be_bytes 4 (unat w)))
       (sha_blocks H256 (be_words (sha_pad (map of_char m)))))"

section \<open>The world outside the provider\<close>

text \<open>
  Time is counted in nanoseconds, as \<open>time.Duration\<close> does; an instant is an \<^typ>\<open>int\<close>.
\<close>

type_synonym duration = int

definition Second :: duration where "Second = 1000000000"
definition Minute :: duration where "Minute = 60 * Second"

text \<open>
  \<open>Duration.String\<close>, the \<open>%s\<close> rendering of a duration: hours, minutes and seconds as in
  \<open>1h2m3.5s\<close>, with a smaller unit below one second; a fraction loses its trailing zeros.
\<close>

definition fmtFrac :: "nat \<Rightarrow> nat \<Rightarrow> string" where
  "fmtFrac v prec =
     (let f = v mod 10 ^ prec;
          ds = replicate (prec - length (nat_decimal f)) CHR ''0'' @ nat_decimal f
      in if f = 0 then [] else CHR ''.'' # rev (dropWhile (\<lambda>c. c = CHR ''0'') (rev ds)))"

definition Duration_String :: "duration \<Rightarrow> string" where
  "Duration_String d =
     (let u = nat \<bar>d\<bar>;
          neg = (if d < 0 then ''-'' else [])
      in if u = 0 then ''0s''
         else if u < 1000 then neg @ nat_decimal u @ ''ns''
         else if u < 1000000 then neg @ nat_decimal (u div 1000) @ fmtFrac u 3 @ [CHR 0xC2, CHR 0xB5] @ ''s''
         else if u < 1000000000 then neg @ nat_decimal (u div 1000000) @ fmtFrac u 6 @ ''ms''
         else
           (let secs = u div 1000000000;
                mins = secs div 60;
                hours = mins div 60
            in neg
               @ (if hours > 0 then nat_decimal hours @ ''h'' else [])
               @ (if mins > 0 then nat_decimal (mins mod 60) @ ''m'' else [])
               @ nat_decimal (secs mod 60) @ fmtFrac u 9 @ ''s''))"

text \<open>
  What a child process started with \<open>exec.Command\<close> does: whether it starts at all, when
  it exits (never, for \<open>None\<close>), the error \<open>cmd.Wait\<close> reports (a non-zero exit status), what
  it has written to the two buffers after a given time, and the world it leaves behind when
  it exits or when it is killed.  When the exit and a timer fall on the same instant Go's
  \<open>select\<close> takes either; \<open>exit_wins_tie\<close> says which.
\<close>

record 'w proc =
  start_error :: "string option"
  exit_after :: "nat option"
  wait_error :: "string option"
  exit_code :: int
  stdout_by :: "nat \<Rightarrow> string"
  stderr_by :: "nat \<Rightarrow> string"
  exit_wins_tie :: bool
  world_exited :: "'w"
  world_killed :: "nat \<Rightarrow> 'w"

text \<open>
  The collaborators: the methods of the Vers API client the resources call, and the
  local operating system.  An error is the text of \<open>err.Error()\<close>.
\<close>

record 'w env =
  api_GetSSHKey :: "string \<Rightarrow> 'w \<Rightarrow> (string + string) \<times> 'w"
  api_CommitVM :: "string \<Rightarrow> bool \<Rightarrow> 'w \<Rightarrow> (string + string) \<times> 'w"
  os_TempDir :: string
  os_MkdirAll :: "string \<Rightarrow> 'w \<Rightarrow> string option \<times> 'w"
  os_WriteFile :: "string \<Rightarrow> string \<Rightarrow> 'w \<Rightarrow> string option \<times> 'w"
  os_ReadFile :: "string \<Rightarrow> 'w \<Rightarrow> string + string"
  os_Remove :: "string \<Rightarrow> 'w \<Rightarrow> 'w"
  exec_Command :: "string \<Rightarrow> string list \<Rightarrow> 'w \<Rightarrow> 'w proc"

text \<open>
  The history of an operation: every call that leaves the provider, in the order made.
\<close>

datatype level = Debug | Info | Warn

datatype event =
    GetSSHKeyCall string
  | CommitVMCall string bool
  | MkdirAllCall string
  | WriteFileCall string
  | ReadFileCall string
  | RemoveCall string
  | ProcStart string "string list"
  | ProcKill
  | Sleep duration
  | Log level string

record 'w state =
  world :: 'w
  clock :: int
  trace :: "event list"

definition emit :: "event \<Rightarrow> 'w state \<Rightarrow> 'w state" where
  "emit ev st = st\<lparr>trace := trace st @ [ev]\<rparr>"

definition tflog :: "level \<Rightarrow> string \<Rightarrow> 'w state \<Rightarrow> 'w state" where
  "tflog l msg st = emit (Log l msg) st"

text \<open>
  A call that reaches the VM or the Vers API: an API request or a started \<open>ssh\<close> process.
\<close>

fun remote_call :: "event \<Rightarrow> bool" where
  "remote_call (GetSSHKeyCall _) = True"
| "remote_call (CommitVMCall _ _) = True"
| "remote_call (ProcStart _ _) = True"
| "remote_call _ = False"

section \<open>The SSH transport (package client)\<close>

record SSHClient =
  KeyPath :: string
  ssh_VMID :: string
  Host :: string

definition NewSSHClient ::
  "'w env \<Rightarrow> string \<Rightarrow> string \<Rightarrow> 'w state \<Rightarrow> (string + SSHClient) \<times> 'w state" where
  "NewSSHClient env vmID privateKey st =
     (let keyDir = filepath_Join [os_TempDir env, ''vers-tf-ssh-keys''];
          (err1, w1) = os_MkdirAll env keyDir (world st);
          st1 = emit (MkdirAllCall keyDir) (st\<lparr>world := w1\<rparr>)
      in case err1 of
           Some e \<Rightarrow> (Inl (''create key directory: '' @ e), st1)
         | None \<Rightarrow>
             (let keyPath = filepath_Join [keyDir, ''vers-'' @ take (min 12 (length vmID)) vmID @ ''.pem''];
                  (err2, w2) = os_WriteFile env keyPath privateKey (world st1);
                  st2 = emit (WriteFileCall keyPath) (st1\<lparr>world := w2\<rparr>)
              in case err2 of
                   Some e \<Rightarrow> (Inl (''write SSH key: '' @ e), st2)
                 | None \<Rightarrow>
                     (Inr \<lparr>KeyPath = keyPath, ssh_VMID = vmID, Host = vmID @ ''.vm.vers.sh''\<rparr>, st2)))"

definition sshBaseArgs :: "SSHClient \<Rightarrow> string list" where
  "sshBaseArgs s =
     [''-i'', KeyPath s,
      ''-o'', ''StrictHostKeyChecking=no'',
      ''-o'', ''UserKnownHostsFile=/dev/null'',
      ''-o'', ''LogLevel=ERROR'',
      ''-o'', ''ConnectTimeout=30'',
      ''-o'', ''ServerAliveInterval=15'',
      ''-o'', ''ServerAliveCountMax=4'',
      ''-o'', ''ProxyCommand=openssl s_client -connect '' @ Host s @ '':443 -servername '' @ Host s
              @ '' -quiet 2>/dev/null'',
      ''root@'' @ Host s]"

text \<open>
  \<open>Exec\<close> waits with \<open>cmd.Run()\<close> until the child exits, however long that takes: when the
  child never exits, \<open>Exec\<close> never returns, which is the value \<open>None\<close>.  On an error the
  output is dropped.  A child that could not be started has no \<open>ProcessState\<close>, and its exit
  code reads \<open>-1\<close>.
\<close>

definition Exec ::
  "'w env \<Rightarrow> SSHClient \<Rightarrow> string \<Rightarrow> 'w state \<Rightarrow> ((string \<times> string option) \<times> 'w state) option" where
  "Exec env s command st =
     (let args = sshBaseArgs s @ [command];
          p = exec_Command env ''ssh'' args (world st);
          st0 = emit (ProcStart ''ssh'' args) st
      in case start_error p of
           Some e \<Rightarrow>
             Some (([], Some (''SSH exec failed (exit '' @ itoa (- 1) @ ''): '' @ e @ [newline] @ ''stderr: '')), st0)
         | None \<Rightarrow>
             (case exit_after p of
                None \<Rightarrow> None
              | Some d \<Rightarrow>
                  (let st1 = st0\<lparr>world := world_exited p, clock := clock st0 + int d\<rparr>
                   in case wait_error p of
                        Some e \<Rightarrow>
                          Some (([], Some (''SSH exec failed (exit '' @ itoa (exit_code p) @ ''): '' @ e
                                           @ [newline] @ ''stderr: '' @ stderr_by p d)), st1)
                      | None \<Rightarrow> Some ((stdout_by p d, None), st1))))"

text \<open>
  \<open>ExecWithTimeout\<close> starts the child and waits for the first of two things: its exit, or
  the timer \<open>time.After(timeout)\<close>, which fires at once when the timeout is not positive.
  On the timer the child is killed and what it had written so far is returned.
\<close>

definition exits_first :: "'w proc \<Rightarrow> nat \<Rightarrow> bool" where
  "exits_first p t =
     (case exit_after p of
        None \<Rightarrow> False
      | Some d \<Rightarrow> d < t \<or> (d = t \<and> exit_wins_tie p))"

definition ExecWithTimeout ::
  "'w env \<Rightarrow> SSHClient \<Rightarrow> string \<Rightarrow> duration \<Rightarrow> 'w state \<Rightarrow> (string \<times> string option) \<times> 'w state" where
  "ExecWithTimeout env s command timeout st =
     (let args = sshBaseArgs s @ [command];
          p = exec_Command env ''ssh'' args (world st);
          st0 = emit (ProcStart ''ssh'' args) st
      in case start_error p of
           Some e \<Rightarrow> (([], Some (''SSH start failed: '' @ e)), st0)
         | None \<Rightarrow>
             (let t = nat timeout
              in if exits_first p t then
                   (let d = the (exit_after p);
                        st1 = st0\<lparr>world := world_exited p, clock := clock st0 + int d\<rparr>
                    in case wait_error p of
                         Some e \<Rightarrow>
                           ((stdout_by p d,
                             Some (''SSH exec failed: '' @ e @ [newline] @ ''stderr: '' @ stderr_by p d)), st1)
                       | None \<Rightarrow> ((stdout_by p d, None), st1))
                 else
                   (let st1 = emit ProcKill (st0\<lparr>world := world_killed p t, clock := clock st0 + int t\<rparr>)
                    in ((stdout_by p t,
                         Some (''SSH command timed out after '' @ Duration_String timeout)), st1))))"

definition WriteFile_write ::
  "'w env \<Rightarrow> SSHClient \<Rightarrow> string \<Rightarrow> string \<Rightarrow> 'w state \<Rightarrow> (string option \<times> 'w state) option" where
  "WriteFile_write env s remotePath content st =
     (let encoded = EncodeToString content;
          cmd = ''echo '' @ [squote] @ encoded @ [squote] @ '' | base64 -d > '' @ [squote]
                @ shellEscape remotePath @ [squote]
      in case Exec env s cmd st of
           None \<Rightarrow> None
         | Some ((_, Some e), st1) \<Rightarrow> Some (Some (''write file '' @ remotePath @ '' on VM: '' @ e), st1)
         | Some ((_, None), st1) \<Rightarrow> Some (None, st1))"

definition WriteFile ::
  "'w env \<Rightarrow> SSHClient \<Rightarrow> string \<Rightarrow> string \<Rightarrow> 'w state \<Rightarrow> (string option \<times> 'w state) option" where
  "WriteFile env s remotePath content st =
     (let dir = filepath_Dir remotePath
      in if dir \<noteq> ''.'' \<and> dir \<noteq> ''/'' then
           (case Exec env s (''mkdir -p '' @ [squote] @ shellEscape dir @ [squote]) st of
              None \<Rightarrow> None
            | Some ((_, Some e), st1) \<Rightarrow> Some (Some (''mkdir on VM: '' @ e), st1)
            | Some ((_, None), st1) \<Rightarrow> WriteFile_write env s remotePath content st1)
         else WriteFile_write env s remotePath content st)"

definition UploadFile ::
  "'w env \<Rightarrow> SSHClient \<Rightarrow> string \<Rightarrow> string \<Rightarrow> 'w state \<Rightarrow> (string option \<times> 'w state) option" where
  "UploadFile env s localPath remotePath st =
     (let st0 = emit (ReadFileCall localPath) st
      in case os_ReadFile env localPath (world st) of
           Inl e \<Rightarrow> Some (Some (''read local file '' @ localPath @ '': '' @ e), st0)
         | Inr content \<Rightarrow> WriteFile env s remotePath content st0)"

definition ReadFile ::
  "'w env \<Rightarrow> SSHClient \<Rightarrow> string \<Rightarrow> 'w state \<Rightarrow> ((string \<times> string option) \<times> 'w state) option" where
  "ReadFile env s remotePath st = Exec env s (''cat '' @ [squote] @ shellEscape remotePath @ [squote]) st"

definition time_Sleep :: "duration \<Rightarrow> 'w state \<Rightarrow> 'w state" where
  "time_Sleep d st = emit (Sleep d) (st\<lparr>clock := clock st + max 0 d\<rparr>)"

definition probe_ok :: "string \<times> string option \<Rightarrow> bool" where
  "probe_ok r = (snd r = None \<and> TrimSpace (fst r) = ''ready'')"

text \<open>
  The loop of \<open>WaitReachable\<close>, from one test of \<open>time.Now().Before(deadline)\<close> on.  Each
  round ends with a sleep of three seconds, so the clock reaches the deadline.
\<close>

function WaitReachable_loop ::
  "'w env \<Rightarrow> SSHClient \<Rightarrow> int \<Rightarrow> string option \<Rightarrow> 'w state \<Rightarrow> (bool \<times> string option) \<times> 'w state" where
  "WaitReachable_loop env s deadline lastErr st =
     (if clock st < deadline then
        (let (r, st1) = ExecWithTimeout env s ''echo ready'' (15 * Second) st
         in if probe_ok r then ((True, None), st1)
            else WaitReachable_loop env s deadline (snd r) (time_Sleep (3 * Second) st1))
      else ((False, lastErr), st))"
  by pat_completeness auto

termination
proof (relation "measure (\<lambda>(env, s, deadline, lastErr, st). nat (deadline - clock st))", goal_cases)
  case 1
  show ?case by simp
next
  case (2 env s deadline lastErr st x xa y)
  have "clock st \<le> clock (snd (ExecWithTimeout env s ''echo ready'' (15 * Second) st))"
    by (simp add: ExecWithTimeout_def Let_def emit_def split: option.splits)
  moreover from 2 have "y = snd (ExecWithTimeout env s ''echo ready'' (15 * Second) st)"
    by (metis snd_conv)
  ultimately show ?case using 2(1)
    by (simp add: time_Sleep_def emit_def Second_def)
qed

declare WaitReachable_loop.simps [simp del]

definition WaitReachable ::
  "'w env \<Rightarrow> SSHClient \<Rightarrow> duration \<Rightarrow> 'w state \<Rightarrow> string option \<times> 'w state" where
  "WaitReachable env s timeout st =
     (let deadline = clock st + timeout;
          ((ok, lastErr), st1) = WaitReachable_loop env s deadline None st
      in if ok then (None, st1)
         else (case lastErr of
                 Some e \<Rightarrow>
                   (Some (''VM '' @ ssh_VMID s @ '' not reachable via SSH after ''
                          @ Duration_String timeout @ '': '' @ e), st1)
               | None \<Rightarrow>
                   (Some (''VM '' @ ssh_VMID s @ '' not reachable via SSH after ''
                          @ Duration_String timeout), st1)))"

definition Cleanup :: "'w env \<Rightarrow> SSHClient \<Rightarrow> 'w state \<Rightarrow> 'w state" where
  "Cleanup env s st = emit (RemoveCall (KeyPath s)) (st\<lparr>world := os_Remove env (KeyPath s) (world st)\<rparr>)"

section \<open>Values of the plugin framework\<close>

text \<open>
  A framework value is null, unknown or known; \<open>ValueString\<close> and \<open>ValueBool\<close> read null and
  unknown as the zero value.  A map value is kept as the list of its entries in the order
  in which \<open>range\<close> happens to visit them; its keys are distinct.
\<close>

datatype tf_string = StringNull | StringUnknown | StringValue string

fun String_IsNull :: "tf_string \<Rightarrow> bool" where
  "String_IsNull StringNull = True"
| "String_IsNull _ = False"

fun ValueString :: "tf_string \<Rightarrow> string" where
  "ValueString (StringValue s) = s"
| "ValueString _ = []"

datatype tf_bool = BoolNull | BoolUnknown | BoolValue bool

fun ValueBool :: "tf_bool \<Rightarrow> bool" where
  "ValueBool (BoolValue b) = b"
| "ValueBool _ = False"

datatype 'a tf_list = ListNull | ListUnknown | ListValue "'a list"

datatype tf_map = MapNull | MapUnknown | MapValue "(string \<times> tf_string) list"

datatype diagnostic = ErrorDiag string string | WarningDiag string string

fun is_error :: "diagnostic \<Rightarrow> bool" where
  "is_error (ErrorDiag _ _) = True"
| "is_error (WarningDiag _ _) = False"

definition HasError :: "diagnostic list \<Rightarrow> bool" where
  "HasError ds = list_ex is_error ds"

text \<open>
  A request carries the plan as the framework decoded it, with the diagnostics of the
  decoding; a response carries the diagnostics and the state to record, if any.
\<close>

record 'm request =
  Plan_diags :: "diagnostic list"
  Plan :: 'm

record 'm response =
  Diagnostics :: "diagnostic list"
  State :: "'m option"

section \<open>The provisioning resource\<close>

record FileBlock =
  Source :: tf_string
  Content :: tf_string
  Destination :: tf_string

record ProvisionResourceModel =
  ID :: tf_string
  VMID :: tf_string
  Files :: "FileBlock tf_list"
  Commands :: "string tf_list"
  Triggers :: tf_map

definition truncate_string :: "string \<Rightarrow> nat \<Rightarrow> string" where
  "truncate_string s n = (if length s \<le> n then s else take n s @ ''...'')"

text \<open>
  \<open>computeID\<close>: the bytes written to the hash, in order, and the first 16 hexadecimal
  digits of their SHA-256 digest.
\<close>

definition file_hash_input :: "'w env \<Rightarrow> 'w \<Rightarrow> FileBlock \<Rightarrow> string" where
  "file_hash_input env w f =
     ValueString (Destination f)
     @ (if \<not> String_IsNull (Source f) then
          (case os_ReadFile env (ValueString (Source f)) w of
             Inr content \<Rightarrow> content
           | Inl _ \<Rightarrow> ValueString (Source f))
        else [])
     @ (if \<not> String_IsNull (Content f) then ValueString (Content f) else [])"

definition trigger_hash_input :: "(string \<times> tf_string) list \<Rightarrow> string" where
  "trigger_hash_input triggers =
     concat (map (\<lambda>k. k @ (case map_of triggers k of Some v \<Rightarrow> ValueString v | None \<Rightarrow> []))
                 (sort (map fst triggers)))"

definition hash_input :: "'w env \<Rightarrow> 'w \<Rightarrow> ProvisionResourceModel \<Rightarrow> string" where
  "hash_input env w plan =
     ValueString (VMID plan)
     @ (case Files plan of ListValue files \<Rightarrow> concat (map (file_hash_input env w) files) | _ \<Rightarrow> [])
     @ (case Commands plan of ListValue commands \<Rightarrow> concat commands | _ \<Rightarrow> [])
     @ (case Triggers plan of MapValue triggers \<Rightarrow> trigger_hash_input triggers | _ \<Rightarrow> [])"

definition computeID :: "'w env \<Rightarrow> 'w \<Rightarrow> ProvisionResourceModel \<Rightarrow> string" where
  "computeID env w plan = take 16 (hex_EncodeToString (sha256_Sum (hash_input env w plan)))"

text \<open>
  The two diagnostics the properties below speak of, for the block or command of index \<open>i\<close> (the
  messages count from one).
\<close>

definition file_block_error :: "nat \<Rightarrow> diagnostic" where
  "file_block_error i =
     ErrorDiag
       (''File block '' @ itoa (int i + 1) @ '': either '' @ [squote] @ ''source'' @ [squote]
        @ '' or '' @ [squote] @ ''content'' @ [squote] @ '' must be specified'')
       (''Each file block requires either a '' @ [squote] @ ''source'' @ [squote]
        @ '' (local file path) or '' @ [squote] @ ''content'' @ [squote]
        @ '' (inline string).'')"

definition command_failed :: "nat \<Rightarrow> string \<Rightarrow> string \<Rightarrow> string \<Rightarrow> diagnostic" where
  "command_failed i cmd e output =
     ErrorDiag (''Command '' @ itoa (int i + 1) @ '' failed: '' @ truncate_string cmd 80)
               (''Error: '' @ e @ [newline] @ ''Output: '' @ truncate_string output 2000)"

text \<open>A file block with neither a source nor a content: each is null or empty.\<close>

definition neither_set :: "FileBlock \<Rightarrow> bool" where
  "neither_set f =
     ((String_IsNull (Source f) \<or> ValueString (Source f) = [])
      \<and> (String_IsNull (Content f) \<or> ValueString (Content f) = []))"

text \<open>The upload loop of \<open>Create\<close>; \<open>i\<close> is the index of the first block of the list.\<close>

fun Create_files ::
  "'w env \<Rightarrow> SSHClient \<Rightarrow> nat \<Rightarrow> FileBlock list \<Rightarrow> 'w state \<Rightarrow> (diagnostic option \<times> 'w state) option" where
  "Create_files env ssh i [] st = Some (None, st)"
| "Create_files env ssh i (f # fs) st =
     (let dest = ValueString (Destination f)
      in if \<not> String_IsNull (Source f) \<and> ValueString (Source f) \<noteq> [] then
           (let src = ValueString (Source f);
                st0 = tflog Debug (''Uploading file '' @ itoa (int i + 1) @ '': '' @ src @ '' -> '' @ dest) st
            in case UploadFile env ssh src dest st0 of
                 None \<Rightarrow> None
               | Some (Some e, st1) \<Rightarrow>
                   Some (Some (ErrorDiag (''Failed to upload file '' @ src @ '' -> '' @ dest) e), st1)
               | Some (None, st1) \<Rightarrow> Create_files env ssh (i + 1) fs st1)
         else if \<not> String_IsNull (Content f) \<and> ValueString (Content f) \<noteq> [] then
           (let st0 = tflog Debug (''Writing inline content to '' @ dest @ '' (''
                                   @ itoa (int (length (ValueString (Content f)))) @ '' bytes)'') st
            in case WriteFile env ssh dest (ValueString (Content f)) st0 of
                 None \<Rightarrow> None
               | Some (Some e, st1) \<Rightarrow>
                   Some (Some (ErrorDiag (''Failed to write content to '' @ dest) e), st1)
               | Some (None, st1) \<Rightarrow> Create_files env ssh (i + 1) fs st1)
         else
           Some (Some (file_block_error i), st))"

text \<open>The command loop of \<open>Create\<close>; \<open>n\<close> is \<open>len(commands)\<close>.\<close>

fun Create_commands ::
  "'w env \<Rightarrow> SSHClient \<Rightarrow> nat \<Rightarrow> nat \<Rightarrow> string list \<Rightarrow> 'w state \<Rightarrow> diagnostic option \<times> 'w state" where
  "Create_commands env ssh n i [] st = (None, st)"
| "Create_commands env ssh n i (cmd # cmds) st =
     (let st0 = tflog Info (''Running command '' @ itoa (int i + 1) @ ''/'' @ itoa (int n) @ '': ''
                            @ truncate_string cmd 100) st;
          ((output, err), st1) = ExecWithTimeout env ssh cmd (10 * Minute) st0
      in case err of
           Some e \<Rightarrow>
             (Some (command_failed i cmd e output), st1)
         | None \<Rightarrow>
             Create_commands env ssh n (i + 1) cmds
               (tflog Debug (''Command '' @ itoa (int i + 1) @ '' output: '' @ truncate_string output 500) st1))"

text \<open>
  The steps of \<open>Create\<close>: the two loops, when the plan has a known list for them, after
  the wait for the VM, and the identifier at the end.
\<close>

definition Create_upload ::
  "'w env \<Rightarrow> SSHClient \<Rightarrow> ProvisionResourceModel \<Rightarrow> 'w state \<Rightarrow> (diagnostic option \<times> 'w state) option" where
  "Create_upload env ssh plan st =
     (case Files plan of
        ListValue files \<Rightarrow> Create_files env ssh 0 files st
      | _ \<Rightarrow> Some (None, st))"

definition Create_run ::
  "'w env \<Rightarrow> SSHClient \<Rightarrow> ProvisionResourceModel \<Rightarrow> 'w state \<Rightarrow> diagnostic option \<times> 'w state" where
  "Create_run env ssh plan st =
     (case Commands plan of
        ListValue commands \<Rightarrow> Create_commands env ssh (length commands) 0 commands st
      | _ \<Rightarrow> (None, st))"

definition Create_provision ::
  "'w env \<Rightarrow> SSHClient \<Rightarrow> diagnostic list \<Rightarrow> ProvisionResourceModel \<Rightarrow> 'w state
   \<Rightarrow> (ProvisionResourceModel response \<times> 'w state) option" where
  "Create_provision env ssh ds plan st =
     (let st0 = tflog Debug ''Waiting for VM to be reachable via SSH'' st
      in case WaitReachable env ssh (3 * Minute) st0 of
           (Some e, st1) \<Rightarrow>
             Some (\<lparr>Diagnostics = ds @ [ErrorDiag ''VM not reachable via SSH'' e], State = None\<rparr>, st1)
         | (None, st1) \<Rightarrow>
             (case Create_upload env ssh plan st1 of
                None \<Rightarrow> None
              | Some (Some d, st2) \<Rightarrow> Some (\<lparr>Diagnostics = ds @ [d], State = None\<rparr>, st2)
              | Some (None, st2) \<Rightarrow>
                  (case Create_run env ssh plan st2 of
                     (Some d, st3) \<Rightarrow> Some (\<lparr>Diagnostics = ds @ [d], State = None\<rparr>, st3)
                   | (None, st3) \<Rightarrow>
                       Some (\<lparr>Diagnostics = ds,
                              State = Some (plan\<lparr>ID := StringValue (computeID env (world st3) plan)\<rparr>)\<rparr>,
                             tflog Info ''VM provisioning complete'' st3))))"

text \<open>
  \<open>Create\<close>.  The deferred \<open>ssh.Cleanup()\<close> runs on every return after the client exists.
\<close>

definition ProvisionResource_Create ::
  "'w env \<Rightarrow> ProvisionResourceModel request \<Rightarrow> 'w state
   \<Rightarrow> (ProvisionResourceModel response \<times> 'w state) option" where
  "ProvisionResource_Create env req st =
     (if HasError (Plan_diags req) then Some (\<lparr>Diagnostics = Plan_diags req, State = None\<rparr>, st)
      else
        (let plan = Plan req;
             ds = Plan_diags req;
             vmID = ValueString (VMID plan);
             st0 = tflog Info ''Provisioning Vers VM'' st;
             (key, w1) = api_GetSSHKey env vmID (world st0);
             st1 = emit (GetSSHKeyCall vmID) (st0\<lparr>world := w1\<rparr>)
         in case key of
              Inl e \<Rightarrow>
                Some (\<lparr>Diagnostics = ds @ [ErrorDiag ''Failed to get SSH key for VM'' e], State = None\<rparr>, st1)
            | Inr privateKey \<Rightarrow>
                (case NewSSHClient env vmID privateKey st1 of
                   (Inl e, st2) \<Rightarrow>
                     Some (\<lparr>Diagnostics = ds @ [ErrorDiag ''Failed to create SSH client'' e], State = None\<rparr>, st2)
                 | (Inr ssh, st2) \<Rightarrow>
                     map_option (\<lambda>(resp, st3). (resp, Cleanup env ssh st3))
                       (Create_provision env ssh ds plan st2))))"

text \<open>
  The way of \<open>Create\<close> to its upload loop when nothing fails before: the plan decoded, the
  key was fetched, the client made and the VM answered.  The result is the client and the
  state in which the loop starts.
\<close>

definition Create_connect ::
  "'w env \<Rightarrow> ProvisionResourceModel request \<Rightarrow> 'w state \<Rightarrow> (SSHClient \<times> 'w state) option" where
  "Create_connect env req st =
     (if HasError (Plan_diags req) then None
      else
        (let vmID = ValueString (VMID (Plan req));
             st0 = tflog Info ''Provisioning Vers VM'' st;
             (key, w1) = api_GetSSHKey env vmID (world st0);
             st1 = emit (GetSSHKeyCall vmID) (st0\<lparr>world := w1\<rparr>)
         in case key of
              Inl e \<Rightarrow> None
            | Inr privateKey \<Rightarrow>
                (case NewSSHClient env vmID privateKey st1 of
                   (Inl e, st2) \<Rightarrow> None
                 | (Inr ssh, st2) \<Rightarrow>
                     (case WaitReachable env ssh (3 * Minute)
                             (tflog Debug ''Waiting for VM to be reachable via SSH'' st2) of
                        (Some e, st3) \<Rightarrow> None
                      | (None, st3) \<Rightarrow> Some (ssh, st3)))))"

text \<open>
  \<open>Update\<close> runs the same steps again.  Its upload loop has no third branch: a block with
  neither a source nor a content is passed over.
\<close>

fun Update_files ::
  "'w env \<Rightarrow> SSHClient \<Rightarrow> FileBlock list \<Rightarrow> 'w state \<Rightarrow> (diagnostic option \<times> 'w state) option" where
  "Update_files env ssh [] st = Some (None, st)"
| "Update_files env ssh (f # fs) st =
     (let dest = ValueString (Destination f)
      in if \<not> String_IsNull (Source f) \<and> ValueString (Source f) \<noteq> [] then
           (case UploadFile env ssh (ValueString (Source f)) dest st of
              None \<Rightarrow> None
            | Some (Some e, st1) \<Rightarrow> Some (Some (ErrorDiag (''Failed to upload file to '' @ dest) e), st1)
            | Some (None, st1) \<Rightarrow> Update_files env ssh fs st1)
         else if \<not> String_IsNull (Content f) \<and> ValueString (Content f) \<noteq> [] then
           (case WriteFile env ssh dest (ValueString (Content f)) st of
              None \<Rightarrow> None
            | Some (Some e, st1) \<Rightarrow> Some (Some (ErrorDiag (''Failed to write content to '' @ dest) e), st1)
            | Some (None, st1) \<Rightarrow> Update_files env ssh fs st1)
         else Update_files env ssh fs st)"

fun Update_commands ::
  "'w env \<Rightarrow> SSHClient \<Rightarrow> nat \<Rightarrow> nat \<Rightarrow> string list \<Rightarrow> 'w state \<Rightarrow> diagnostic option \<times> 'w state" where
  "Update_commands env ssh n idx [] st = (None, st)"
| "Update_commands env ssh n idx (cmd # cmds) st =
     (let st0 = tflog Info (''Re-provisioning command '' @ itoa (int idx + 1) @ ''/'' @ itoa (int n) @ '': ''
                            @ truncate_string cmd 100) st;
          ((output, err), st1) = ExecWithTimeout env ssh cmd (10 * Minute) st0
      in case err of
           Some e \<Rightarrow>
             (Some (command_failed idx cmd e output), st1)
         | None \<Rightarrow> Update_commands env ssh n (idx + 1) cmds st1)"

definition Update_upload ::
  "'w env \<Rightarrow> SSHClient \<Rightarrow> ProvisionResourceModel \<Rightarrow> 'w state \<Rightarrow> (diagnostic option \<times> 'w state) option" where
  "Update_upload env ssh plan st =
     (case Files plan of
        ListValue files \<Rightarrow> Update_files env ssh files st
      | _ \<Rightarrow> Some (None, st))"

definition Update_run ::
  "'w env \<Rightarrow> SSHClient \<Rightarrow> ProvisionResourceModel \<Rightarrow> 'w state \<Rightarrow> diagnostic option \<times> 'w state" where
  "Update_run env ssh plan st =
     (case Commands plan of
        ListValue commands \<Rightarrow> Update_commands env ssh (length commands) 0 commands st
      | _ \<Rightarrow> (None, st))"

definition Update_provision ::
  "'w env \<Rightarrow> SSHClient \<Rightarrow> diagnostic list \<Rightarrow> ProvisionResourceModel \<Rightarrow> 'w state
   \<Rightarrow> (ProvisionResourceModel response \<times> 'w state) option" where
  "Update_provision env ssh ds plan st =
     (case WaitReachable env ssh (3 * Minute) st of
        (Some e, st1) \<Rightarrow>
          Some (\<lparr>Diagnostics = ds @ [ErrorDiag ''VM not reachable via SSH'' e], State = None\<rparr>, st1)
      | (None, st1) \<Rightarrow>
          (case Update_upload env ssh plan st1 of
             None \<Rightarrow> None
           | Some (Some d, st2) \<Rightarrow> Some (\<lparr>Diagnostics = ds @ [d], State = None\<rparr>, st2)
           | Some (None, st2) \<Rightarrow>
               (case Update_run env ssh plan st2 of
                  (Some d, st3) \<Rightarrow> Some (\<lparr>Diagnostics = ds @ [d], State = None\<rparr>, st3)
                | (None, st3) \<Rightarrow>
                    Some (\<lparr>Diagnostics = ds,
                           State = Some (plan\<lparr>ID := StringValue (computeID env (world st3) plan)\<rparr>)\<rparr>,
                          st3))))"

definition ProvisionResource_Update ::
  "'w env \<Rightarrow> ProvisionResourceModel request \<Rightarrow> 'w state
   \<Rightarrow> (ProvisionResourceModel response \<times> 'w state) option" where
  "ProvisionResource_Update env req st =
     (if HasError (Plan_diags req) then Some (\<lparr>Diagnostics = Plan_diags req, State = None\<rparr>, st)
      else
        (let plan = Plan req;
             ds = Plan_diags req;
             vmID = ValueString (VMID plan);
             st0 = tflog Info ''Re-provisioning Vers VM (triggers changed)'' st;
             (key, w1) = api_GetSSHKey env vmID (world st0);
             st1 = emit (GetSSHKeyCall vmID) (st0\<lparr>world := w1\<rparr>)
         in case key of
              Inl e \<Rightarrow>
                Some (\<lparr>Diagnostics = ds @ [ErrorDiag ''Failed to get SSH key for VM'' e], State = None\<rparr>, st1)
            | Inr privateKey \<Rightarrow>
                (case NewSSHClient env vmID privateKey st1 of
                   (Inl e, st2) \<Rightarrow>
                     Some (\<lparr>Diagnostics = ds @ [ErrorDiag ''Failed to create SSH client'' e], State = None\<rparr>, st2)
                 | (Inr ssh, st2) \<Rightarrow>
                     map_option (\<lambda>(resp, st3). (resp, Cleanup env ssh st3))
                       (Update_provision env ssh ds plan st2))))"

section \<open>The commit resource\<close>

record VMCommitResourceModel =
  commit_ID :: tf_string
  commit_VMID :: tf_string
  CommitID :: tf_string
  KeepPaused :: tf_bool
  commit_Triggers :: tf_map

text \<open>
  \<open>syncBeforeCommit\<close> has no result: each of its three failures ends in a warning in the
  log and a plain return.
\<close>

definition syncBeforeCommit :: "'w env \<Rightarrow> string \<Rightarrow> 'w state \<Rightarrow> 'w state" where
  "syncBeforeCommit env vmID st =
     (let (key, w1) = api_GetSSHKey env vmID (world st);
          st1 = emit (GetSSHKeyCall vmID) (st\<lparr>world := w1\<rparr>)
      in case key of
           Inl e \<Rightarrow> tflog Warn ''Could not get SSH key for pre-commit sync (skipping)'' st1
         | Inr privateKey \<Rightarrow>
             (case NewSSHClient env vmID privateKey st1 of
                (Inl e, st2) \<Rightarrow> tflog Warn ''Could not create SSH client for pre-commit sync (skipping)'' st2
              | (Inr ssh, st2) \<Rightarrow>
                  (let st3 = tflog Debug (''Running '' @ [squote] @ ''sync'' @ [squote]
                                          @ '' on VM before commit to flush dirty pages'') st2;
                       ((output, err), st4) = ExecWithTimeout env ssh ''sync'' (2 * Minute) st3
                   in Cleanup env ssh
                        (case err of
                           Some e \<Rightarrow> tflog Warn ''Pre-commit sync failed (VM may not be SSH-reachable)'' st4
                         | None \<Rightarrow> tflog Debug ''Pre-commit sync complete'' st4))))"

definition commit_and_record ::
  "'w env \<Rightarrow> string \<Rightarrow> diagnostic list \<Rightarrow> VMCommitResourceModel \<Rightarrow> 'w state
   \<Rightarrow> VMCommitResourceModel response \<times> 'w state" where
  "commit_and_record env failure ds plan st =
     (let vmID = ValueString (commit_VMID plan);
          keepPaused = ValueBool (KeepPaused plan);
          (result, w1) = api_CommitVM env vmID keepPaused (world st);
          st1 = emit (CommitVMCall vmID keepPaused) (st\<lparr>world := w1\<rparr>)
      in case result of
           Inl e \<Rightarrow> (\<lparr>Diagnostics = ds @ [ErrorDiag failure e], State = None\<rparr>, st1)
         | Inr commitID \<Rightarrow>
             (\<lparr>Diagnostics = ds,
               State = Some (plan\<lparr>CommitID := StringValue commitID, commit_ID := StringValue commitID\<rparr>)\<rparr>,
              st1))"

definition VMCommitResource_Create ::
  "'w env \<Rightarrow> VMCommitResourceModel request \<Rightarrow> 'w state \<Rightarrow> VMCommitResourceModel response \<times> 'w state" where
  "VMCommitResource_Create env req st =
     (if HasError (Plan_diags req) then (\<lparr>Diagnostics = Plan_diags req, State = None\<rparr>, st)
      else
        (let plan = Plan req;
             vmID = ValueString (commit_VMID plan);
             st0 = tflog Debug ''Committing Vers VM'' st;
             st1 = syncBeforeCommit env vmID st0
         in commit_and_record env ''Failed to commit VM'' (Plan_diags req) plan st1))"

definition VMCommitResource_Update ::
  "'w env \<Rightarrow> VMCommitResourceModel request \<Rightarrow> 'w state \<Rightarrow> VMCommitResourceModel response \<times> 'w state" where
  "VMCommitResource_Update env req st =
     (if HasError (Plan_diags req) then (\<lparr>Diagnostics = Plan_diags req, State = None\<rparr>, st)
      else
        (let plan = Plan req;
             vmID = ValueString (commit_VMID plan);
             st0 = tflog Debug ''Re-committing Vers VM (triggers changed)'' st;
             st1 = syncBeforeCommit env vmID st0
         in commit_and_record env ''Failed to re-commit VM'' (Plan_diags req) plan st1))"

text \<open>
  \<open>Delete\<close> writes one line to the log and reports nothing; the framework then drops the
  record of the resource, which is the state \<open>None\<close>.
\<close>

definition VMCommitResource_Delete ::
  "'w env \<Rightarrow> VMCommitResourceModel \<Rightarrow> 'w state \<Rightarrow> VMCommitResourceModel response \<times> 'w state" where
  "VMCommitResource_Delete env prior st =
     (\<lparr>Diagnostics = [], State = None\<rparr>,
      tflog Debug ''Removing commit from Terraform state (commits are retained in Vers)'' st)"

section \<open>A small world to run the provider in\<close>

text \<open>
  One concrete world, for running the definitions above: a local file system, a Vers API
  that knows some VMs, and one VM with a file store and a shell.  The shell splits a
  command line into words the way POSIX \<open>sh\<close> does for the constructs the transport uses
  (single quotes, a backslash before one character, blanks, \<open>|\<close> and \<open>></\<close>) and refuses
  a line with any other special character.
\<close>

datatype token = Word string | Pipe | Redirect

datatype lex_mode = Plain | Quoted | Escaped

fun finish_word :: "string option \<Rightarrow> token list" where
  "finish_word None = []"
| "finish_word (Some w) = [Word w]"

fun add_char :: "char \<Rightarrow> string option \<Rightarrow> string option" where
  "add_char c None = Some [c]"
| "add_char c (Some w) = Some (w @ [c])"

fun open_word :: "string option \<Rightarrow> string option" where
  "open_word None = Some []"
| "open_word (Some w) = Some w"

definition sh_special :: "char \<Rightarrow> bool" where
  "sh_special c = (c \<in> set ''\"$`;&<()*?[]#~{}!'' \<or> c = newline)"

fun sh_lex :: "lex_mode \<Rightarrow> string option \<Rightarrow> string \<Rightarrow> token list option" where
  "sh_lex Plain cur [] = Some (finish_word cur)"
| "sh_lex Quoted cur [] = None"
| "sh_lex Escaped cur [] = None"
| "sh_lex Quoted cur (c # cs) =
     (if c = squote then sh_lex Plain cur cs else sh_lex Quoted (add_char c cur) cs)"
| "sh_lex Escaped cur (c # cs) = sh_lex Plain (add_char c cur) cs"
| "sh_lex Plain cur (c # cs) =
     (if c = squote then sh_lex Quoted (open_word cur) cs
      else if c = backslash then sh_lex Escaped cur cs
      else if c = CHR '' '' \<or> c = CHR 0x09 then map_option (\<lambda>ts. finish_word cur @ ts) (sh_lex Plain None cs)
      else if c = CHR ''|'' then map_option (\<lambda>ts. finish_word cur @ Pipe # ts) (sh_lex Plain None cs)
      else if c = CHR ''>'' then map_option (\<lambda>ts. finish_word cur @ Redirect # ts) (sh_lex Plain None cs)
      else if sh_special c then None
      else sh_lex Plain (add_char c cur) cs)"

text \<open>
  \<open>base64 -d\<close>: line breaks are skipped, every group of four characters gives three
  bytes, and a last group may end in one or two \<open>=\<close>.
\<close>

definition b64val :: "char \<Rightarrow> nat option" where
  "b64val c =
     (let n = (of_char c :: nat)
      in if 65 \<le> n \<and> n \<le> 90 then Some (n - 65)
         else if 97 \<le> n \<and> n \<le> 122 then Some (n - 71)
         else if 48 \<le> n \<and> n \<le> 57 then Some (n + 4)
         else if c = CHR ''+'' then Some 62
         else if c = CHR ''/'' then Some 63
         else None)"

fun b64_decode :: "string \<Rightarrow> string option" where
  "b64_decode [] = Some []"
| "b64_decode (c1 # c2 # c3 # c4 # rest) =
     (case (b64val c1, b64val c2) of
        (Some p, Some q) \<Rightarrow>
          (if rest = [] \<and> c3 = CHR ''='' \<and> c4 = CHR ''='' then Some [char_of (p * 4 + q div 16)]
           else (case b64val c3 of
                   None \<Rightarrow> None
                 | Some r \<Rightarrow>
                     (if rest = [] \<and> c4 = CHR ''='' then
                        Some [char_of (p * 4 + q div 16), char_of ((q mod 16) * 16 + r div 4)]
                      else (case b64val c4 of
                              None \<Rightarrow> None
                            | Some t \<Rightarrow>
                                map_option
                                  (\<lambda>bs. char_of (p * 4 + q div 16) # char_of ((q mod 16) * 16 + r div 4)
                                         # char_of ((r mod 4) * 64 + t) # bs)
                                  (b64_decode rest)))))
      | _ \<Rightarrow> None)"
| "b64_decode _ = None"

definition base64_d :: "string \<Rightarrow> string option" where
  "base64_d input = b64_decode (filter (\<lambda>c. c \<noteq> newline) input)"

text \<open>
  The commands the VM's shell knows.  A result is the exit status, the two output streams
  and the file store afterwards.  An operand that starts with \<open>-\<close> is an option to \<open>cat\<close>
  and \<open>mkdir\<close>, not a file; a redirection to the empty name or to a name that ends in \<open>/\<close>
  fails.  One name is not a regular file: the null device takes what is written to it
  and keeps nothing, and reads as empty.  Anything else is a command the shell does not
  find.
\<close>

type_synonym files = "string \<Rightarrow> string option"

type_synonym sh_result = "int \<times> string \<times> string \<times> files"

definition is_option :: "string \<Rightarrow> bool" where
  "is_option a = (a \<noteq> [] \<and> hd a = CHR ''-'')"

definition null_device :: "string \<Rightarrow> bool" where
  "null_device p = (Clean p = ''/dev/null'')"

definition sh_not_found :: "files \<Rightarrow> sh_result" where
  "sh_not_found fs = (127, [], ''sh: command not found'', fs)"

definition sh_simple1 :: "string \<Rightarrow> files \<Rightarrow> sh_result" where
  "sh_simple1 c fs =
     (if c = ''sync'' \<or> c = ''true'' then (0, [], [], fs)
      else if c = ''false'' then (1, [], [], fs)
      else sh_not_found fs)"

definition sh_simple2 :: "string \<Rightarrow> string \<Rightarrow> files \<Rightarrow> sh_result" where
  "sh_simple2 c a fs =
     (if c = ''echo'' \<and> \<not> is_option a then (0, a @ [newline], [], fs)
      else if c = ''cat'' then
        (if is_option a then (1, [], ''cat: invalid option'', fs)
         else if null_device a then (0, [], [], fs)
         else (case fs a of
                 Some content \<Rightarrow> (0, content, [], fs)
               | None \<Rightarrow> (1, [], ''cat: '' @ a @ '': No such file or directory'', fs)))
      else sh_not_found fs)"

definition sh_simple3 :: "string \<Rightarrow> string \<Rightarrow> string \<Rightarrow> files \<Rightarrow> sh_result" where
  "sh_simple3 c a b fs =
     (if c = ''mkdir'' \<and> a = ''-p'' then
        (if is_option b \<or> b = [] then (1, [], ''mkdir: invalid operand'', fs) else (0, [], [], fs))
      else sh_not_found fs)"

definition sh_decode_to :: "string \<Rightarrow> string \<Rightarrow> string \<Rightarrow> string \<Rightarrow> string \<Rightarrow> files \<Rightarrow> sh_result" where
  "sh_decode_to c a c2 a2 p fs =
     (if c = ''echo'' \<and> \<not> is_option a \<and> c2 = ''base64'' \<and> a2 = ''-d'' then
        (if p = [] \<or> last p = slash then (2, [], ''sh: cannot create '' @ p, fs)
         else (case base64_d (a @ [newline]) of
                 Some bytes \<Rightarrow> (0, [], [], if null_device p then fs else fs(p \<mapsto> bytes))
               | None \<Rightarrow> (1, [], ''base64: invalid input'', if null_device p then fs else fs(p \<mapsto> []))))
      else sh_not_found fs)"

fun sh_run :: "token list \<Rightarrow> files \<Rightarrow> sh_result" where
  "sh_run [Word c] fs = sh_simple1 c fs"
| "sh_run [Word c, Word a] fs = sh_simple2 c a fs"
| "sh_run [Word c, Word a, Word b] fs = sh_simple3 c a b fs"
| "sh_run [Word c, Word a, Pipe, Word c2, Word a2, Redirect, Word p] fs = sh_decode_to c a c2 a2 p fs"
| "sh_run _ fs = sh_not_found fs"

definition sh :: "string \<Rightarrow> files \<Rightarrow> sh_result" where
  "sh line fs = (case sh_lex Plain None line of None \<Rightarrow> (2, [], ''sh: syntax error'', fs) | Some ts \<Rightarrow> sh_run ts fs)"

text \<open>
  The world: the local files, the VMs the API knows, the number of images made, and the
  VM: its files, the number of connections it still refuses before it is up, and whether
  it is stalled, in which case a command on it never ends.
\<close>

record sim =
  local_files :: files
  known_vms :: "string list"
  images :: nat
  vm_files :: files
  vm_refusals :: nat
  vm_stalled :: bool

definition sim_ssh :: "string list \<Rightarrow> sim \<Rightarrow> sim proc" where
  "sim_ssh args w =
     (if vm_refusals w > 0 then
        \<lparr>start_error = None, exit_after = Some (nat Second), wait_error = Some ''exit status 255'',
         exit_code = 255, stdout_by = (\<lambda>t. []), stderr_by = (\<lambda>t. ''ssh: connection refused''),
         exit_wins_tie = True,
         world_exited = w\<lparr>vm_refusals := vm_refusals w - 1\<rparr>,
         world_killed = (\<lambda>t. w\<lparr>vm_refusals := vm_refusals w - 1\<rparr>)\<rparr>
      else if vm_stalled w then
        \<lparr>start_error = None, exit_after = None, wait_error = None,
         exit_code = 0, stdout_by = (\<lambda>t. []), stderr_by = (\<lambda>t. []),
         exit_wins_tie = True, world_exited = w, world_killed = (\<lambda>t. w)\<rparr>
      else
        (case sh (last args) (vm_files w) of
           (code, out, err, fs) \<Rightarrow>
             \<lparr>start_error = None, exit_after = Some (nat Second),
              wait_error = (if code = 0 then None else Some (''exit status '' @ itoa code)),
              exit_code = code,
              stdout_by = (\<lambda>t. if nat Second \<le> t then out else []),
              stderr_by = (\<lambda>t. if nat Second \<le> t then err else []),
              exit_wins_tie = True,
              world_exited = w\<lparr>vm_files := fs\<rparr>,
              world_killed = (\<lambda>t. w)\<rparr>))"

definition sim_env :: "sim env" where
  "sim_env =
     \<lparr>api_GetSSHKey = (\<lambda>vmID w.
        (if vmID \<in> set (known_vms w) then Inr ''PRIVATE KEY'' else Inl ''Vers API returned 404'', w)),
      api_CommitVM = (\<lambda>vmID keepPaused w.
        (if vmID \<in> set (known_vms w) then (Inr (''commit-'' @ itoa (int (images w))), w\<lparr>images := images w + 1\<rparr>)
         else (Inl ''Vers API returned 404'', w))),
      os_TempDir = ''/tmp'',
      os_MkdirAll = (\<lambda>path w. (None, w)),
      os_WriteFile = (\<lambda>path content w. (None, w\<lparr>local_files := (local_files w)(path \<mapsto> content)\<rparr>)),
      os_ReadFile = (\<lambda>path w.
        (case local_files w path of
           Some content \<Rightarrow> Inr content
         | None \<Rightarrow> Inl (''open '' @ path @ '': no such file or directory''))),
      os_Remove = (\<lambda>path w. w\<lparr>local_files := (local_files w)(path := None)\<rparr>),
      exec_Command = (\<lambda>name args w. sim_ssh args w)\<rparr>"

definition sim0 :: sim where
  "sim0 =
     \<lparr>local_files = Map.empty, known_vms = [''vm-1''], images = 0,
      vm_files = Map.empty, vm_refusals = 0, vm_stalled = False\<rparr>"

definition start :: "'w \<Rightarrow> 'w state" where
  "start w = \<lparr>world = w, clock = 0, trace = []\<rparr>"

definition vm1 :: SSHClient where
  "vm1 = \<lparr>KeyPath = ''/tmp/vers-tf-ssh-keys/vers-vm-1.pem'', ssh_VMID = ''vm-1'', Host = ''vm-1.vm.vers.sh''\<rparr>"

text \<open>A commit declaration for the VM of that world, and a request that decoded cleanly.\<close>

definition commit_plan1 :: VMCommitResourceModel where
  "commit_plan1 =
     \<lparr>commit_ID = StringUnknown, commit_VMID = StringValue ''vm-1'', CommitID = StringUnknown,
      KeepPaused = BoolValue True, commit_Triggers = MapNull\<rparr>"

definition request :: "'m \<Rightarrow> 'm request" where
  "request plan = \<lparr>Plan_diags = [], Plan = plan\<rparr>"



text \<open>
  Provisioning declarations for the VM of that world: file blocks with an inline content,
  with nothing, and with both a source and a content, and a local script to upload.
\<close>

definition inline_block :: FileBlock where
  "inline_block =
     \<lparr>Source = StringNull, Content = StringValue ''echo hi'', Destination = StringValue ''/tmp/a.sh''\<rparr>"

definition empty_block :: FileBlock where
  "empty_block = \<lparr>Source = StringNull, Content = StringNull, Destination = StringValue ''/tmp/b.sh''\<rparr>"

definition both_block :: FileBlock where
  "both_block =
     \<lparr>Source = StringValue ''scripts/app.sh'', Content = StringValue ''echo inline'',
      Destination = StringValue ''/tmp/app.sh''\<rparr>"

definition provision_plan :: "FileBlock tf_list \<Rightarrow> string tf_list \<Rightarrow> ProvisionResourceModel" where
  "provision_plan files commands =
     \<lparr>ID = StringUnknown, VMID = StringValue ''vm-1'', Files = files, Commands = commands,
      Triggers = MapNull\<rparr>"

definition sim_with_script :: sim where
  "sim_with_script = sim0\<lparr>local_files := [''scripts/app.sh'' \<mapsto> ''echo from file'']\<rparr>"

text \<open>The state in which \<open>Create\<close>, started in a fresh history, begins its upload loop.\<close>

definition connected :: "sim \<Rightarrow> sim state" where
  "connected w =
     \<lparr>world = w\<lparr>local_files := (local_files w)(KeyPath vm1 \<mapsto> ''PRIVATE KEY'')\<rparr>,
      clock = Second,
      trace = [Log Info ''Provisioning Vers VM'', GetSSHKeyCall ''vm-1'',
               MkdirAllCall ''/tmp/vers-tf-ssh-keys'', WriteFileCall (KeyPath vm1),
               Log Debug ''Waiting for VM to be reachable via SSH'',
               ProcStart ''ssh'' (sshBaseArgs vm1 @ [''echo ready''])]\<rparr>"

section \<open>Reading a history\<close>

text \<open>
  The events an operation has added to the history, and the kinds of event the
  properties below speak of.
\<close>

definition since :: "'w state \<Rightarrow> 'w state \<Rightarrow> event list" where
  "since st st' = drop (length (trace st)) (trace st')"

text \<open>A later state whose history extends that of an earlier one.\<close>

definition grows :: "'w state \<Rightarrow> 'w state \<Rightarrow> bool" where
  "grows st st' = (\<exists>new. trace st' = trace st @ new)"

fun is_commit :: "event \<Rightarrow> bool" where
  "is_commit (CommitVMCall _ _) = True"
| "is_commit _ = False"

fun is_sync :: "event \<Rightarrow> bool" where
  "is_sync (ProcStart name args) = (name = ''ssh'' \<and> args \<noteq> [] \<and> last args = ''sync'')"
| "is_sync _ = False"

fun is_warning :: "event \<Rightarrow> bool" where
  "is_warning (Log Warn _) = True"
| "is_warning _ = False"

text \<open>The processes started, with their arguments, and the warnings logged, in order.\<close>

fun processes_started :: "event list \<Rightarrow> (string \<times> string list) list" where
  "processes_started [] = []"
| "processes_started (ProcStart name args # evs) = (name, args) # processes_started evs"
| "processes_started (_ # evs) = processes_started evs"

fun warnings :: "event list \<Rightarrow> string list" where
  "warnings [] = []"
| "warnings (Log Warn msg # evs) = msg # warnings evs"
| "warnings (_ # evs) = warnings evs"

text \<open>
  What a commit operation must have added to the history: the remote commit call comes
  last and is the only one; before it the SSH key was asked for, and either a warning was
  logged or \<open>sync\<close> was run and its completion logged.
\<close>

definition flushed_then_committed :: "string \<Rightarrow> bool \<Rightarrow> event list \<Rightarrow> bool" where
  "flushed_then_committed vmID keepPaused evs =
     (evs \<noteq> [] \<and> last evs = CommitVMCall vmID keepPaused
      \<and> GetSSHKeyCall vmID \<in> set (butlast evs)
      \<and> \<not> list_ex is_commit (butlast evs)
      \<and> (list_ex is_warning (butlast evs)
          \<or> (list_ex is_sync (butlast evs) \<and> Log Debug ''Pre-commit sync complete'' \<in> set (butlast evs))))"

text \<open>The command lines handed to \<open>ssh\<close>, in the order in which they were started.\<close>

fun commands_run :: "event list \<Rightarrow> string list" where
  "commands_run [] = []"
| "commands_run (ProcStart name args # evs) = last args # commands_run evs"
| "commands_run (_ # evs) = commands_run evs"

text \<open>A child process that was started and never exits.\<close>

definition never_exits :: "'w proc \<Rightarrow> bool" where
  "never_exits p = (start_error p = None \<and> exit_after p = None)"

text \<open>
  One reachability probe of \<open>WaitReachable\<close>, and the state in which the next one begins
  when it has failed: after the sleep of three seconds.
\<close>

definition probe :: "'w env \<Rightarrow> SSHClient \<Rightarrow> 'w state \<Rightarrow> (string \<times> string option) \<times> 'w state" where
  "probe env s st = ExecWithTimeout env s ''echo ready'' (15 * Second) st"

definition next_round :: "'w env \<Rightarrow> SSHClient \<Rightarrow> 'w state \<Rightarrow> 'w state" where
  "next_round env s st = time_Sleep (3 * Second) (snd (probe env s st))"

text \<open>
  The elements of a list value and the entries of a map value, none when the value is
  null or unknown; and what \<open>computeID\<close> writes to the hash for a file block after its
  destination: the content of the source file when a source is given (its path when the
  file cannot be read), then the inline content.
\<close>

definition list_elements :: "'a tf_list \<Rightarrow> 'a list" where
  "list_elements l = (case l of ListValue xs \<Rightarrow> xs | _ \<Rightarrow> [])"

definition map_entries :: "tf_map \<Rightarrow> (string \<times> tf_string) list" where
  "map_entries m = (case m of MapValue ts \<Rightarrow> ts | _ \<Rightarrow> [])"

definition file_content :: "'w env \<Rightarrow> 'w \<Rightarrow> FileBlock \<Rightarrow> string" where
  "file_content env w f =
     (if \<not> String_IsNull (Source f) then
        (case os_ReadFile env (ValueString (Source f)) w of
           Inr content \<Rightarrow> content
         | Inl _ \<Rightarrow> ValueString (Source f))
      else [])
     @ (if \<not> String_IsNull (Content f) then ValueString (Content f) else [])"

text \<open>
  Declarations to compare fingerprints on: one file block and one command, with the given
  triggers; a block that uploads a local script, and a world in which that script holds
  what \<open>inline_block\<close> has inline.
\<close>

definition source_block :: FileBlock where
  "source_block =
     \<lparr>Source = StringValue ''scripts/a.sh'', Content = StringNull, Destination = StringValue ''/tmp/a.sh''\<rparr>"

definition sim_with_copy :: sim where
  "sim_with_copy = sim0\<lparr>local_files := [''scripts/a.sh'' \<mapsto> ''echo hi'']\<rparr>"

definition declared :: "FileBlock \<Rightarrow> (string \<times> tf_string) list \<Rightarrow> ProvisionResourceModel" where
  "declared f ts = (provision_plan (ListValue [f]) (ListValue [''true'']))\<lparr>Triggers := MapValue ts\<rparr>"

text \<open>The same collaborators with a full disk: no local file can be written.\<close>

definition full_disk_env :: "sim env" where
  "full_disk_env = sim_env\<lparr>os_WriteFile := (\<lambda>path content w. (Some ''no space left on device'', w))\<rparr>"


section \<open>Properties\<close>

subsection \<open>Histories grow\<close>

lemma is_commit_remote: "is_commit ev \<Longrightarrow> remote_call ev"
  by (cases ev) simp_all

lemma trace_NewSSHClient:
  "\<exists>new. trace (snd (NewSSHClient env vmID key st)) = trace st @ new
     \<and> (\<forall>ev \<in> set new. \<not> remote_call ev \<and> \<not> is_warning ev)"
  by (auto simp: NewSSHClient_def Let_def emit_def split: prod.splits option.splits)

lemma trace_ExecWithTimeout:
  "\<exists>new. trace (snd (ExecWithTimeout env s c t st)) = trace st @ ProcStart ''ssh'' (sshBaseArgs s @ [c]) # new
     \<and> (new = [] \<or> new = [ProcKill])"
  by (auto simp: ExecWithTimeout_def Let_def emit_def split: prod.splits option.splits)

subsection \<open>The flush before a commit\<close>

lemma trace_syncBeforeCommit:
  "\<exists>new. trace (syncBeforeCommit env vmID st) = trace st @ GetSSHKeyCall vmID # new
     \<and> \<not> list_ex is_commit new
     \<and> (list_ex is_warning new
         \<or> (list_ex is_sync new \<and> Log Debug ''Pre-commit sync complete'' \<in> set new))"
proof -
  obtain key0 w1 where w1: "api_GetSSHKey env vmID (world st) = (key0, w1)"
    by (cases "api_GetSSHKey env vmID (world st)")
  define st1 where "st1 = emit (GetSSHKeyCall vmID) (st\<lparr>world := w1\<rparr>)"
  have t1: "trace st1 = trace st @ [GetSSHKeyCall vmID]"
    by (simp add: st1_def emit_def)
  show ?thesis
  proof (cases key0)
    case (Inl e)
    then have "syncBeforeCommit env vmID st
                 = tflog Warn ''Could not get SSH key for pre-commit sync (skipping)'' st1"
      using w1 by (simp add: syncBeforeCommit_def st1_def)
    then show ?thesis using t1
      by (simp add: tflog_def emit_def)
  next
    case key: (Inr key)
    obtain r st2 where n: "NewSSHClient env vmID key st1 = (r, st2)"
      by (cases "NewSSHClient env vmID key st1")
    obtain new2 where new2: "trace st2 = trace st1 @ new2"
        "\<forall>ev \<in> set new2. \<not> remote_call ev \<and> \<not> is_warning ev"
      using trace_NewSSHClient[of env vmID key st1] n by auto
    have q2: "\<not> list_ex is_commit new2"
      using new2(2) by (auto simp: list_ex_iff dest: is_commit_remote)
    show ?thesis
    proof (cases r)
      case (Inl e)
      then have "syncBeforeCommit env vmID st
                   = tflog Warn ''Could not create SSH client for pre-commit sync (skipping)'' st2"
        using w1 key n by (simp add: syncBeforeCommit_def st1_def)
      then show ?thesis using t1 new2(1) q2
        by (simp add: tflog_def emit_def)
    next
      case (Inr ssh)
      define st3 where "st3 = tflog Debug (''Running '' @ [squote] @ ''sync'' @ [squote]
                                            @ '' on VM before commit to flush dirty pages'') st2"
      obtain out err st4 where e: "ExecWithTimeout env ssh ''sync'' (2 * Minute) st3 = ((out, err), st4)"
        by (metis surj_pair)
      obtain new4 where new4: "trace st4 = trace st3 @ ProcStart ''ssh'' (sshBaseArgs ssh @ [''sync'']) # new4"
          "new4 = [] \<or> new4 = [ProcKill]"
        using trace_ExecWithTimeout[of env ssh "''sync''" "2 * Minute" st3] e by auto
      have t3: "\<exists>m. trace st3 = trace st2 @ [Log Debug m]"
        by (simp add: st3_def tflog_def emit_def)
      have "syncBeforeCommit env vmID st
              = Cleanup env ssh
                  (case err of
                     Some e \<Rightarrow> tflog Warn ''Pre-commit sync failed (VM may not be SSH-reachable)'' st4
                   | None \<Rightarrow> tflog Debug ''Pre-commit sync complete'' st4)"
        using w1 key n Inr e by (simp add: syncBeforeCommit_def st1_def st3_def)
      then show ?thesis using new2(1) q2 t1 t3 new4
        by (cases err) (auto simp: tflog_def emit_def Cleanup_def)
    qed
  qed
qed

lemma trace_commit_and_record:
  "trace (snd (commit_and_record env msg ds plan st))
     = trace st @ [CommitVMCall (ValueString (commit_VMID plan)) (ValueBool (KeepPaused plan))]"
  by (simp add: commit_and_record_def Let_def emit_def split: prod.splits sum.splits)

lemma processes_started_append:
  "processes_started (xs @ ys) = processes_started xs @ processes_started ys"
  by (induction xs rule: processes_started.induct) simp_all

lemma warnings_append: "warnings (xs @ ys) = warnings xs @ warnings ys"
  by (induction xs rule: warnings.induct) simp_all

lemma processes_started_local:
  "\<forall>ev \<in> set evs. \<not> remote_call ev \<Longrightarrow> processes_started evs = []"
  by (induction evs rule: processes_started.induct) simp_all

lemma warnings_none: "\<forall>ev \<in> set evs. \<not> is_warning ev \<Longrightarrow> warnings evs = []"
  by (induction evs rule: warnings.induct) simp_all

lemma since_NewSSHClient:
  "trace (snd (NewSSHClient env vmID key st)) = trace st @ since st (snd (NewSSHClient env vmID key st))"
  "processes_started (since st (snd (NewSSHClient env vmID key st))) = []"
  "warnings (since st (snd (NewSSHClient env vmID key st))) = []"
  "\<not> list_ex is_commit (since st (snd (NewSSHClient env vmID key st)))"
proof -
  obtain new where new: "trace (snd (NewSSHClient env vmID key st)) = trace st @ new"
      "\<forall>ev \<in> set new. \<not> remote_call ev \<and> \<not> is_warning ev"
    using trace_NewSSHClient[of env vmID key st] by blast
  have s: "since st (snd (NewSSHClient env vmID key st)) = new"
    by (simp add: since_def new(1))
  show "trace (snd (NewSSHClient env vmID key st)) = trace st @ since st (snd (NewSSHClient env vmID key st))"
    by (simp add: s new(1))
  show "processes_started (since st (snd (NewSSHClient env vmID key st))) = []"
    unfolding s using new(2) by (simp add: processes_started_local)
  show "warnings (since st (snd (NewSSHClient env vmID key st))) = []"
    unfolding s using new(2) by (simp add: warnings_none)
  show "\<not> list_ex is_commit (since st (snd (NewSSHClient env vmID key st)))"
    unfolding s using new(2) by (auto simp: list_ex_iff dest: is_commit_remote)
qed

lemma sync_without_key:
  assumes "api_GetSSHKey env vmID (world st) = (Inl e, w1)"
  shows "syncBeforeCommit env vmID st
           = tflog Warn ''Could not get SSH key for pre-commit sync (skipping)''
               (emit (GetSSHKeyCall vmID) (st\<lparr>world := w1\<rparr>))"
  using assms by (simp add: syncBeforeCommit_def)

lemma sync_without_client:
  assumes "api_GetSSHKey env vmID (world st) = (Inr key, w1)"
    and "NewSSHClient env vmID key (emit (GetSSHKeyCall vmID) (st\<lparr>world := w1\<rparr>)) = (Inl e, st2)"
  shows "syncBeforeCommit env vmID st
           = tflog Warn ''Could not create SSH client for pre-commit sync (skipping)'' st2"
  using assms by (simp add: syncBeforeCommit_def)

lemma sync_with_client:
  assumes "api_GetSSHKey env vmID (world st) = (Inr key, w1)"
    and "NewSSHClient env vmID key (emit (GetSSHKeyCall vmID) (st\<lparr>world := w1\<rparr>)) = (Inr ssh, st2)"
    and "ExecWithTimeout env ssh ''sync'' (2 * Minute)
           (tflog Debug (''Running '' @ [squote] @ ''sync'' @ [squote]
                         @ '' on VM before commit to flush dirty pages'') st2) = ((out, err), st4)"
  shows "syncBeforeCommit env vmID st
           = Cleanup env ssh
               (case err of
                  Some e \<Rightarrow> tflog Warn ''Pre-commit sync failed (VM may not be SSH-reachable)'' st4
                | None \<Rightarrow> tflog Debug ''Pre-commit sync complete'' st4)"
  using assms by (simp add: syncBeforeCommit_def)

lemma world_commit_and_record:
  "world (snd (commit_and_record env msg ds plan st))
     = snd (api_CommitVM env (ValueString (commit_VMID plan)) (ValueBool (KeepPaused plan)) (world st))"
  by (simp add: commit_and_record_def Let_def emit_def split: prod.splits sum.splits)

lemma commit_after_sync_shape:
  "flushed_then_committed (ValueString (commit_VMID plan)) (ValueBool (KeepPaused plan))
     (since st (snd (commit_and_record env msg ds plan
                       (syncBeforeCommit env (ValueString (commit_VMID plan)) (tflog Debug m st)))))"
proof -
  let ?vm = "ValueString (commit_VMID plan)"
  let ?keep = "ValueBool (KeepPaused plan)"
  obtain new where new:
      "trace (syncBeforeCommit env ?vm (tflog Debug m st)) = trace (tflog Debug m st) @ GetSSHKeyCall ?vm # new"
      "\<not> list_ex is_commit new"
      "list_ex is_warning new \<or> (list_ex is_sync new \<and> Log Debug ''Pre-commit sync complete'' \<in> set new)"
    using trace_syncBeforeCommit[of env ?vm "tflog Debug m st"] by blast
  have "trace (snd (commit_and_record env msg ds plan (syncBeforeCommit env ?vm (tflog Debug m st))))
          = trace st @ (Log Debug m # GetSSHKeyCall ?vm # new) @ [CommitVMCall ?vm ?keep]"
    unfolding trace_commit_and_record new(1) by (simp add: tflog_def emit_def)
  then have "since st (snd (commit_and_record env msg ds plan (syncBeforeCommit env ?vm (tflog Debug m st))))
          = (Log Debug m # GetSSHKeyCall ?vm # new) @ [CommitVMCall ?vm ?keep]"
    by (simp add: since_def)
  then show ?thesis using new(2,3)
    by (auto simp: flushed_then_committed_def)
qed

lemma commit_operation:
  assumes "\<not> HasError (Plan_diags req)"
    and "(op, m) \<in> {(VMCommitResource_Create, ''Committing Vers VM''),
                     (VMCommitResource_Update, ''Re-committing Vers VM (triggers changed)'')}"
  shows "\<exists>msg. op env req st
           = commit_and_record env msg (Plan_diags req) (Plan req)
               (syncBeforeCommit env (ValueString (commit_VMID (Plan req))) (tflog Debug m st))"
  using assms by (auto simp: VMCommitResource_Create_def VMCommitResource_Update_def Let_def)

lemma since_commit_and_record:
  assumes "trace st1 = trace st @ new"
  shows "since st (snd (commit_and_record env msg ds plan st1))
           = new @ [CommitVMCall (ValueString (commit_VMID plan)) (ValueBool (KeepPaused plan))]"
  unfolding since_def trace_commit_and_record using assms by simp

text \<open>
  C3.  A commit, on creation and on a re-commit after a change of triggers alike, first
  asks for the SSH key and attempts the flush, and then issues the remote commit call,
  which is the last event of the operation and the only commit call in it.  What the
  attempt consists of is fixed by what the collaborators answer:
  \<^item> when the key cannot be fetched, no process is started, the one warning in the log is
    that the key could not be got, and the commit call is made on the world the key
    request left;
  \<^item> when the key file cannot be written, no process is started, the one warning is that
    the SSH client could not be created, and the commit call is made all the same;
  \<^item> when both are there, exactly one process is started before the commit call, namely
    \<open>ssh\<close> with the transport arguments of the client followed by \<open>sync\<close>, under a timeout
    of two minutes; the log holds a warning exactly when that run reports an error, and
    the commit call is made on the world the run left behind, the key file removed.
\<close>

theorem flush_attempted_before_commit:
  assumes "\<not> HasError (Plan_diags req)"
    and "(op, m) \<in> {(VMCommitResource_Create, ''Committing Vers VM''),
                     (VMCommitResource_Update, ''Re-committing Vers VM (triggers changed)'')}"
    and "vm = ValueString (commit_VMID (Plan req))"
    and "keep = ValueBool (KeepPaused (Plan req))"
    and "api_GetSSHKey env vm (world st) = (key, w1)"
    and "st1 = emit (GetSSHKeyCall vm) ((tflog Debug m st)\<lparr>world := w1\<rparr>)"
    and "evs = since st (snd (op env req st))"
    and "w' = world (snd (op env req st))"
  shows "flushed_then_committed vm keep evs
     \<and> (\<forall>e. key = Inl e \<longrightarrow>
            processes_started evs = []
          \<and> warnings evs = [''Could not get SSH key for pre-commit sync (skipping)'']
          \<and> w' = snd (api_CommitVM env vm keep w1))
     \<and> (\<forall>k e st2. key = Inr k \<and> NewSSHClient env vm k st1 = (Inl e, st2) \<longrightarrow>
            processes_started evs = []
          \<and> warnings evs = [''Could not create SSH client for pre-commit sync (skipping)'']
          \<and> w' = snd (api_CommitVM env vm keep (world st2)))
     \<and> (\<forall>k ssh st2 out err st4.
            key = Inr k \<and> NewSSHClient env vm k st1 = (Inr ssh, st2)
          \<and> ExecWithTimeout env ssh ''sync'' (2 * Minute)
               (tflog Debug (''Running '' @ [squote] @ ''sync'' @ [squote]
                             @ '' on VM before commit to flush dirty pages'') st2) = ((out, err), st4) \<longrightarrow>
            processes_started (butlast evs) = [(''ssh'', sshBaseArgs ssh @ [''sync''])]
          \<and> warnings evs = (case err of None \<Rightarrow> []
                             | Some e \<Rightarrow> [''Pre-commit sync failed (VM may not be SSH-reachable)''])
          \<and> w' = snd (api_CommitVM env vm keep (os_Remove env (KeyPath ssh) (world st4))))"
proof -
  let ?st0 = "tflog Debug m st"
  obtain msg where run: "op env req st
      = commit_and_record env msg (Plan_diags req) (Plan req) (syncBeforeCommit env vm ?st0)"
    using commit_operation[OF assms(1,2), of env st] assms(3) by blast
  have key: "api_GetSSHKey env vm (world ?st0) = (key, w1)"
    using assms(5) by (simp add: tflog_def emit_def)
  have st1: "st1 = emit (GetSSHKeyCall vm) (?st0\<lparr>world := w1\<rparr>)"
    by (rule assms(6))
  have t1: "trace st1 = trace st @ [Log Debug m, GetSSHKeyCall vm]"
    by (simp add: st1 tflog_def emit_def)
  have evs: "evs = since st (snd (commit_and_record env msg (Plan_diags req) (Plan req)
                                    (syncBeforeCommit env vm ?st0)))"
    using assms(7) run by simp
  have w': "w' = snd (api_CommitVM env vm keep (world (syncBeforeCommit env vm ?st0)))"
    using assms(8) run assms(3,4) by (simp add: world_commit_and_record)
  have shape: "flushed_then_committed vm keep evs"
    unfolding evs assms(3,4) by (rule commit_after_sync_shape)
  have no_key: "processes_started evs = []
          \<and> warnings evs = [''Could not get SSH key for pre-commit sync (skipping)'']
          \<and> w' = snd (api_CommitVM env vm keep w1)" if k: "key = Inl e" for e
  proof -
    have s: "syncBeforeCommit env vm ?st0
               = tflog Warn ''Could not get SSH key for pre-commit sync (skipping)'' st1"
      unfolding st1 using key k by (intro sync_without_key) simp
    have t: "trace (syncBeforeCommit env vm ?st0)
               = trace st @ [Log Debug m, GetSSHKeyCall vm,
                             Log Warn ''Could not get SSH key for pre-commit sync (skipping)'']"
      unfolding s by (simp add: tflog_def emit_def t1)
    have w: "world (syncBeforeCommit env vm ?st0) = w1"
      unfolding s by (simp add: tflog_def emit_def st1)
    show ?thesis
      unfolding evs since_commit_and_record[OF t] w' w assms(3,4)[symmetric] by simp
  qed
  have no_client: "processes_started evs = []
          \<and> warnings evs = [''Could not create SSH client for pre-commit sync (skipping)'']
          \<and> w' = snd (api_CommitVM env vm keep (world st2))"
    if k: "key = Inr k" and n: "NewSSHClient env vm k st1 = (Inl e, st2)" for k e st2
  proof -
    have s: "syncBeforeCommit env vm ?st0
               = tflog Warn ''Could not create SSH client for pre-commit sync (skipping)'' st2"
      using key k n unfolding st1 by (intro sync_without_client) simp_all
    have st2: "st2 = snd (NewSSHClient env vm k st1)"
      using n by simp
    have t: "trace (syncBeforeCommit env vm ?st0)
               = trace st @ ([Log Debug m, GetSSHKeyCall vm] @ since st1 st2
                             @ [Log Warn ''Could not create SSH client for pre-commit sync (skipping)''])"
      unfolding s using since_NewSSHClient(1)[of env vm k st1] t1
      by (simp add: tflog_def emit_def st2)
    have w: "world (syncBeforeCommit env vm ?st0) = world st2"
      unfolding s by (simp add: tflog_def emit_def)
    show ?thesis
      unfolding evs since_commit_and_record[OF t] w' w assms(3,4)[symmetric]
      by (simp add: processes_started_append warnings_append st2 since_NewSSHClient)
  qed
  have synced: "processes_started (butlast evs) = [(''ssh'', sshBaseArgs ssh @ [''sync''])]
          \<and> warnings evs = (case err of None \<Rightarrow> []
                             | Some e \<Rightarrow> [''Pre-commit sync failed (VM may not be SSH-reachable)''])
          \<and> w' = snd (api_CommitVM env vm keep (os_Remove env (KeyPath ssh) (world st4)))"
    if k: "key = Inr k" and n: "NewSSHClient env vm k st1 = (Inr ssh, st2)"
      and x: "ExecWithTimeout env ssh ''sync'' (2 * Minute)
               (tflog Debug (''Running '' @ [squote] @ ''sync'' @ [squote]
                             @ '' on VM before commit to flush dirty pages'') st2) = ((out, err), st4)"
    for k ssh st2 out err st4
  proof -
    let ?run = "''Running '' @ [squote] @ ''sync'' @ [squote] @ '' on VM before commit to flush dirty pages''"
    let ?last = "case err of Some e \<Rightarrow> Log Warn ''Pre-commit sync failed (VM may not be SSH-reachable)''
                 | None \<Rightarrow> Log Debug ''Pre-commit sync complete''"
    have s: "syncBeforeCommit env vm ?st0
               = Cleanup env ssh
                   (case err of
                      Some e \<Rightarrow> tflog Warn ''Pre-commit sync failed (VM may not be SSH-reachable)'' st4
                    | None \<Rightarrow> tflog Debug ''Pre-commit sync complete'' st4)"
      using key k n x unfolding st1 by (intro sync_with_client) simp_all
    have st2: "st2 = snd (NewSSHClient env vm k st1)"
      using n by simp
    obtain new4 where new4:
        "trace st4 = trace (tflog Debug ?run st2) @ ProcStart ''ssh'' (sshBaseArgs ssh @ [''sync'']) # new4"
        "new4 = [] \<or> new4 = [ProcKill]"
      using trace_ExecWithTimeout[of env ssh "''sync''" "2 * Minute" "tflog Debug ?run st2"] x by auto
    have t: "trace (syncBeforeCommit env vm ?st0)
               = trace st @ ([Log Debug m, GetSSHKeyCall vm] @ since st1 st2
                             @ [Log Debug ?run, ProcStart ''ssh'' (sshBaseArgs ssh @ [''sync''])] @ new4
                             @ [?last, RemoveCall (KeyPath ssh)])"
      unfolding s using since_NewSSHClient(1)[of env vm k st1] t1 new4(1)
      by (cases err) (simp_all add: tflog_def emit_def st2 Cleanup_def)
    have w: "world (syncBeforeCommit env vm ?st0) = os_Remove env (KeyPath ssh) (world st4)"
      unfolding s by (cases err) (simp_all add: tflog_def emit_def Cleanup_def)
    have p4: "processes_started new4 = []" "warnings new4 = []"
      using new4(2) by auto
    show ?thesis
      unfolding evs since_commit_and_record[OF t] w' w assms(3,4)[symmetric]
      using p4
      by (cases err) (simp_all add: processes_started_append warnings_append st2 since_NewSSHClient butlast_append)
  qed
  show ?thesis
    using shape no_key no_client synced by blast
qed

subsection \<open>Destroying a commit\<close>

text \<open>
  C9.  Destroying a commit resource makes no call to the Vers API and starts no process:
  the world, and with it every image, is as it was, the only event is a line in the log,
  and the response carries no diagnostic and no state, so that the record is dropped.
\<close>

theorem commit_delete_only_drops_record:
  "fst (VMCommitResource_Delete env prior st) = \<lparr>Diagnostics = [], State = None\<rparr>
   \<and> world (snd (VMCommitResource_Delete env prior st)) = world st
   \<and> filter remote_call (since st (snd (VMCommitResource_Delete env prior st))) = []
   \<and> (\<exists>msg. since st (snd (VMCommitResource_Delete env prior st)) = [Log Debug msg])"
  by (simp add: VMCommitResource_Delete_def tflog_def emit_def since_def)

subsection \<open>Running in the small world\<close>

lemma sim_GetSSHKey:
  "api_GetSSHKey sim_env v w = (if v \<in> set (known_vms w) then Inr ''PRIVATE KEY'' else Inl ''Vers API returned 404'', w)"
  by (simp add: sim_env_def)

lemma sim_CommitVM:
  "api_CommitVM sim_env v k w =
     (if v \<in> set (known_vms w) then (Inr (''commit-'' @ itoa (int (images w))), w\<lparr>images := images w + 1\<rparr>)
      else (Inl ''Vers API returned 404'', w))"
  by (simp add: sim_env_def)

lemma sim_os:
  "os_TempDir sim_env = ''/tmp''"
  "os_MkdirAll sim_env p w = (None, w)"
  "os_WriteFile sim_env p c w = (None, w\<lparr>local_files := (local_files w)(p \<mapsto> c)\<rparr>)"
  "os_Remove sim_env p w = w\<lparr>local_files := (local_files w)(p := None)\<rparr>"
  "os_ReadFile sim_env p w = (case local_files w p of Some content \<Rightarrow> Inr content
         | None \<Rightarrow> Inl (''open '' @ p @ '': no such file or directory''))"
  "exec_Command sim_env n args w = sim_ssh args w"
  by (simp_all add: sim_env_def)

lemma sim_ExecWithTimeout:
  assumes "vm_refusals (world st) = 0" "\<not> vm_stalled (world st)" "Second < t"
  shows "ExecWithTimeout sim_env s c t st
         = (case sh c (vm_files (world st)) of
              (code, out, err, fs) \<Rightarrow>
                ((out, if code = 0 then None
                       else Some (''SSH exec failed: exit status '' @ itoa code @ [newline] @ ''stderr: '' @ err)),
                 st\<lparr>world := (world st)\<lparr>vm_files := fs\<rparr>, clock := clock st + Second,
                    trace := trace st @ [ProcStart ''ssh'' (sshBaseArgs s @ [c])]\<rparr>))"
  using assms
  by (auto simp: ExecWithTimeout_def Let_def sim_os sim_ssh_def exits_first_def emit_def Second_def
           split: prod.splits)

lemma sim_Exec:
  assumes "vm_refusals (world st) = 0" "\<not> vm_stalled (world st)"
  shows "Exec sim_env s c st
         = (case sh c (vm_files (world st)) of
              (code, out, err, fs) \<Rightarrow>
                Some ((if code = 0 then out else [],
                       if code = 0 then None
                       else Some (''SSH exec failed (exit '' @ itoa code @ ''): exit status '' @ itoa code
                                  @ [newline] @ ''stderr: '' @ err)),
                      st\<lparr>world := (world st)\<lparr>vm_files := fs\<rparr>, clock := clock st + Second,
                         trace := trace st @ [ProcStart ''ssh'' (sshBaseArgs s @ [c])]\<rparr>))"
  using assms
  by (auto simp: Exec_def Let_def sim_os sim_ssh_def emit_def Second_def split: prod.splits)

lemma sim_NewSSHClient:
  "NewSSHClient sim_env ''vm-1'' key st
     = (Inr vm1,
        st\<lparr>world := (world st)\<lparr>local_files := (local_files (world st))(KeyPath vm1 \<mapsto> key)\<rparr>,
           trace := trace st @ [MkdirAllCall ''/tmp/vers-tf-ssh-keys'', WriteFileCall (KeyPath vm1)]\<rparr>)"
  by (simp add: NewSSHClient_def Let_def sim_os emit_def vm1_def filepath_Join_def Clean_def clean_step_def)

lemma sh_simple:
  "sh ''sync'' fs = (0, [], [], fs)"
  "sh ''true'' fs = (0, [], [], fs)"
  "sh ''false'' fs = (1, [], [], fs)"
  "sh ''echo ready'' fs = (0, ''ready'' @ [newline], [], fs)"
  by (simp_all add: sh_def sh_simple1_def sh_simple2_def sh_special_def is_option_def)

lemma probe_ok_ready:
  "probe_ok ([CHR ''r'', CHR ''e'', CHR ''a'', CHR ''d'', CHR ''y'', newline], None)"
  by (simp add: probe_ok_def TrimSpace_def ascii_space_def space2_def space3_def)

lemma sim_WaitReachable:
  assumes "vm_refusals (world st) = 0" "\<not> vm_stalled (world st)" "Second < t"
  shows "WaitReachable sim_env s t st
         = (None, st\<lparr>clock := clock st + Second,
                      trace := trace st @ [ProcStart ''ssh'' (sshBaseArgs s @ [''echo ready''])]\<rparr>)"
proof -
  have e: "ExecWithTimeout sim_env s ''echo ready'' (15 * Second) st
         = ((''ready'' @ [newline], None),
            st\<lparr>clock := clock st + Second,
               trace := trace st @ [ProcStart ''ssh'' (sshBaseArgs s @ [''echo ready''])]\<rparr>)"
    using sim_ExecWithTimeout[OF assms(1,2), of "15 * Second" s "''echo ready''"]
    by (simp add: Second_def sh_simple)
  have pos: "0 < t"
    using assms(3) by (simp add: Second_def)
  show ?thesis
    by (simp add: WaitReachable_def WaitReachable_loop.simps[of _ _ _ _ st] e pos probe_ok_ready)
qed

lemma sim_commit_Create:
  "VMCommitResource_Create sim_env (request commit_plan1) (start sim0)
     = (\<lparr>Diagnostics = [],
         State = Some (commit_plan1\<lparr>CommitID := StringValue ''commit-0'', commit_ID := StringValue ''commit-0''\<rparr>)\<rparr>,
        \<lparr>world = sim0\<lparr>images := 1\<rparr>, clock = Second,
         trace = [Log Debug ''Committing Vers VM'', GetSSHKeyCall ''vm-1'',
                  MkdirAllCall ''/tmp/vers-tf-ssh-keys'', WriteFileCall (KeyPath vm1),
                  Log Debug (''Running '' @ [squote] @ ''sync'' @ [squote]
                             @ '' on VM before commit to flush dirty pages''),
                  ProcStart ''ssh'' (sshBaseArgs vm1 @ [''sync'']),
                  Log Debug ''Pre-commit sync complete'', RemoveCall (KeyPath vm1),
                  CommitVMCall ''vm-1'' True]\<rparr>)"
proof -
  have sync: "syncBeforeCommit sim_env ''vm-1'' (tflog Debug ''Committing Vers VM'' (start sim0))
      = \<lparr>world = sim0, clock = Second,
         trace = [Log Debug ''Committing Vers VM'', GetSSHKeyCall ''vm-1'',
                  MkdirAllCall ''/tmp/vers-tf-ssh-keys'', WriteFileCall (KeyPath vm1),
                  Log Debug (''Running '' @ [squote] @ ''sync'' @ [squote]
                             @ '' on VM before commit to flush dirty pages''),
                  ProcStart ''ssh'' (sshBaseArgs vm1 @ [''sync'']),
                  Log Debug ''Pre-commit sync complete'', RemoveCall (KeyPath vm1)]\<rparr>"
    by (simp add: syncBeforeCommit_def sim_GetSSHKey sim_NewSSHClient sim_ExecWithTimeout sh_simple
          sim_os Cleanup_def tflog_def emit_def start_def sim0_def Minute_def Second_def)
  have plan: "ValueString (commit_VMID commit_plan1) = ''vm-1''" "ValueBool (KeepPaused commit_plan1)"
    by (simp_all add: commit_plan1_def)
  have w: "known_vms sim0 = [''vm-1'']" "images sim0 = 0"
    by (simp_all add: sim0_def)
  have zero: "itoa 0 = ''0''"
    by code_simp
  show ?thesis
    by (simp add: VMCommitResource_Create_def request_def HasError_def Let_def plan sync
          commit_and_record_def sim_CommitVM emit_def w zero)
qed

theorem commit_delete_only_drops_record_witness:
  "images (world (snd (VMCommitResource_Create sim_env (request commit_plan1) (start sim0)))) = 1
   \<and> images (world (snd (VMCommitResource_Delete sim_env commit_plan1
                 (snd (VMCommitResource_Create sim_env (request commit_plan1) (start sim0)))))) = 1"
proof -
  have "images (world (snd (VMCommitResource_Create sim_env (request commit_plan1) (start sim0)))) = 1"
    by (simp add: sim_commit_Create)
  then show ?thesis
    using commit_delete_only_drops_record[of sim_env commit_plan1
            "snd (VMCommitResource_Create sim_env (request commit_plan1) (start sim0))"]
    by simp
qed

lemma tflog_fields:
  "world (tflog l m st) = world st" "clock (tflog l m st) = clock st"
  "trace (tflog l m st) = trace st @ [Log l m]"
  by (simp_all add: tflog_def emit_def)

lemma sim_ExecWithTimeout_refused:
  assumes "0 < vm_refusals (world st)" "Second < t"
  shows "ExecWithTimeout sim_env s c t st
         = (([], Some (''SSH exec failed: exit status 255'' @ [newline] @ ''stderr: ssh: connection refused'')),
            st\<lparr>world := (world st)\<lparr>vm_refusals := vm_refusals (world st) - 1\<rparr>,
               clock := clock st + Second,
               trace := trace st @ [ProcStart ''ssh'' (sshBaseArgs s @ [c])]\<rparr>)"
  using assms
  by (auto simp: ExecWithTimeout_def Let_def sim_os sim_ssh_def exits_first_def emit_def Second_def)

theorem flush_attempted_before_commit_witness:
  "\<not> HasError (Plan_diags (request commit_plan1))
   \<and> api_GetSSHKey sim_env ''vm-1'' (world (start sim0)) = (Inr ''PRIVATE KEY'', sim0)
   \<and> (NewSSHClient sim_env ''vm-1'' ''PRIVATE KEY'' (emit (GetSSHKeyCall ''vm-1'') ((tflog Debug ''Committing Vers VM'' (start sim0))\<lparr>world := sim0\<rparr>))) = (Inr vm1, snd (NewSSHClient sim_env ''vm-1'' ''PRIVATE KEY'' (emit (GetSSHKeyCall ''vm-1'') ((tflog Debug ''Committing Vers VM'' (start sim0))\<lparr>world := sim0\<rparr>))))
   \<and> (ExecWithTimeout sim_env vm1 ''sync'' (2 * Minute) (tflog Debug (''Running '' @ [squote] @ ''sync'' @ [squote] @ '' on VM before commit to flush dirty pages'') (snd (NewSSHClient sim_env ''vm-1'' ''PRIVATE KEY'' (emit (GetSSHKeyCall ''vm-1'') ((tflog Debug ''Committing Vers VM'' (start sim0))\<lparr>world := sim0\<rparr>)))))) = (([], None), snd (ExecWithTimeout sim_env vm1 ''sync'' (2 * Minute) (tflog Debug (''Running '' @ [squote] @ ''sync'' @ [squote] @ '' on VM before commit to flush dirty pages'') (snd (NewSSHClient sim_env ''vm-1'' ''PRIVATE KEY'' (emit (GetSSHKeyCall ''vm-1'') ((tflog Debug ''Committing Vers VM'' (start sim0))\<lparr>world := sim0\<rparr>)))))))
   \<and> flushed_then_committed ''vm-1'' True (since (start sim0) (snd (VMCommitResource_Create sim_env (request commit_plan1) (start sim0))))
   \<and> processes_started (butlast (since (start sim0) (snd (VMCommitResource_Create sim_env (request commit_plan1) (start sim0))))) = [(''ssh'', sshBaseArgs vm1 @ [''sync''])]
   \<and> warnings (since (start sim0) (snd (VMCommitResource_Create sim_env (request commit_plan1) (start sim0)))) = []
   \<and> (world (snd (VMCommitResource_Create sim_env (request commit_plan1) (start sim0)))) = snd (api_CommitVM sim_env ''vm-1'' True (os_Remove sim_env (KeyPath vm1) (world (snd (ExecWithTimeout sim_env vm1 ''sync'' (2 * Minute) (tflog Debug (''Running '' @ [squote] @ ''sync'' @ [squote] @ '' on VM before commit to flush dirty pages'') (snd (NewSSHClient sim_env ''vm-1'' ''PRIVATE KEY'' (emit (GetSSHKeyCall ''vm-1'') ((tflog Debug ''Committing Vers VM'' (start sim0))\<lparr>world := sim0\<rparr>))))))))))
   \<and> api_GetSSHKey sim_env ''vm-1'' (world (start (sim0\<lparr>vm_refusals := 1\<rparr>))) = (Inr ''PRIVATE KEY'', (sim0\<lparr>vm_refusals := 1\<rparr>))
   \<and> (NewSSHClient sim_env ''vm-1'' ''PRIVATE KEY'' (emit (GetSSHKeyCall ''vm-1'') ((tflog Debug ''Re-committing Vers VM (triggers changed)'' (start (sim0\<lparr>vm_refusals := 1\<rparr>)))\<lparr>world := (sim0\<lparr>vm_refusals := 1\<rparr>)\<rparr>))) = (Inr vm1, snd (NewSSHClient sim_env ''vm-1'' ''PRIVATE KEY'' (emit (GetSSHKeyCall ''vm-1'') ((tflog Debug ''Re-committing Vers VM (triggers changed)'' (start (sim0\<lparr>vm_refusals := 1\<rparr>)))\<lparr>world := (sim0\<lparr>vm_refusals := 1\<rparr>)\<rparr>))))
   \<and> (ExecWithTimeout sim_env vm1 ''sync'' (2 * Minute) (tflog Debug (''Running '' @ [squote] @ ''sync'' @ [squote] @ '' on VM before commit to flush dirty pages'') (snd (NewSSHClient sim_env ''vm-1'' ''PRIVATE KEY'' (emit (GetSSHKeyCall ''vm-1'') ((tflog Debug ''Re-committing Vers VM (triggers changed)'' (start (sim0\<lparr>vm_refusals := 1\<rparr>)))\<lparr>world := (sim0\<lparr>vm_refusals := 1\<rparr>)\<rparr>)))))) = (([], Some (''SSH exec failed: exit status 255'' @ [newline] @ ''stderr: ssh: connection refused'')), snd (ExecWithTimeout sim_env vm1 ''sync'' (2 * Minute) (tflog Debug (''Running '' @ [squote] @ ''sync'' @ [squote] @ '' on VM before commit to flush dirty pages'') (snd (NewSSHClient sim_env ''vm-1'' ''PRIVATE KEY'' (emit (GetSSHKeyCall ''vm-1'') ((tflog Debug ''Re-committing Vers VM (triggers changed)'' (start (sim0\<lparr>vm_refusals := 1\<rparr>)))\<lparr>world := (sim0\<lparr>vm_refusals := 1\<rparr>)\<rparr>)))))))
   \<and> flushed_then_committed ''vm-1'' True (since (start (sim0\<lparr>vm_refusals := 1\<rparr>)) (snd (VMCommitResource_Update sim_env (request commit_plan1) (start (sim0\<lparr>vm_refusals := 1\<rparr>)))))
   \<and> processes_started (butlast (since (start (sim0\<lparr>vm_refusals := 1\<rparr>)) (snd (VMCommitResource_Update sim_env (request commit_plan1) (start (sim0\<lparr>vm_refusals := 1\<rparr>)))))) = [(''ssh'', sshBaseArgs vm1 @ [''sync''])]
   \<and> warnings (since (start (sim0\<lparr>vm_refusals := 1\<rparr>)) (snd (VMCommitResource_Update sim_env (request commit_plan1) (start (sim0\<lparr>vm_refusals := 1\<rparr>))))) = [''Pre-commit sync failed (VM may not be SSH-reachable)'']
   \<and> (world (snd (VMCommitResource_Update sim_env (request commit_plan1) (start (sim0\<lparr>vm_refusals := 1\<rparr>))))) = snd (api_CommitVM sim_env ''vm-1'' True (os_Remove sim_env (KeyPath vm1) (world (snd (ExecWithTimeout sim_env vm1 ''sync'' (2 * Minute) (tflog Debug (''Running '' @ [squote] @ ''sync'' @ [squote] @ '' on VM before commit to flush dirty pages'') (snd (NewSSHClient sim_env ''vm-1'' ''PRIVATE KEY'' (emit (GetSSHKeyCall ''vm-1'') ((tflog Debug ''Re-committing Vers VM (triggers changed)'' (start (sim0\<lparr>vm_refusals := 1\<rparr>)))\<lparr>world := (sim0\<lparr>vm_refusals := 1\<rparr>)\<rparr>))))))))))
   \<and> api_GetSSHKey sim_env ''vm-1'' (world (start (sim0\<lparr>known_vms := []\<rparr>))) = (Inl ''Vers API returned 404'', (sim0\<lparr>known_vms := []\<rparr>))
   \<and> flushed_then_committed ''vm-1'' True (since (start (sim0\<lparr>known_vms := []\<rparr>)) (snd (VMCommitResource_Create sim_env (request commit_plan1) (start (sim0\<lparr>known_vms := []\<rparr>)))))
   \<and> processes_started (since (start (sim0\<lparr>known_vms := []\<rparr>)) (snd (VMCommitResource_Create sim_env (request commit_plan1) (start (sim0\<lparr>known_vms := []\<rparr>))))) = []
   \<and> warnings (since (start (sim0\<lparr>known_vms := []\<rparr>)) (snd (VMCommitResource_Create sim_env (request commit_plan1) (start (sim0\<lparr>known_vms := []\<rparr>))))) = [''Could not get SSH key for pre-commit sync (skipping)'']
   \<and> (world (snd (VMCommitResource_Create sim_env (request commit_plan1) (start (sim0\<lparr>known_vms := []\<rparr>))))) = snd (api_CommitVM sim_env ''vm-1'' True (sim0\<lparr>known_vms := []\<rparr>))
   \<and> api_GetSSHKey full_disk_env ''vm-1'' (world (start sim0)) = (Inr ''PRIVATE KEY'', sim0)
   \<and> (NewSSHClient full_disk_env ''vm-1'' ''PRIVATE KEY'' (emit (GetSSHKeyCall ''vm-1'') ((tflog Debug ''Re-committing Vers VM (triggers changed)'' (start sim0))\<lparr>world := sim0\<rparr>))) = (Inl ''write SSH key: no space left on device'', snd (NewSSHClient full_disk_env ''vm-1'' ''PRIVATE KEY'' (emit (GetSSHKeyCall ''vm-1'') ((tflog Debug ''Re-committing Vers VM (triggers changed)'' (start sim0))\<lparr>world := sim0\<rparr>))))
   \<and> flushed_then_committed ''vm-1'' True (since (start sim0) (snd (VMCommitResource_Update full_disk_env (request commit_plan1) (start sim0))))
   \<and> processes_started (since (start sim0) (snd (VMCommitResource_Update full_disk_env (request commit_plan1) (start sim0)))) = []
   \<and> warnings (since (start sim0) (snd (VMCommitResource_Update full_disk_env (request commit_plan1) (start sim0)))) = [''Could not create SSH client for pre-commit sync (skipping)'']
   \<and> (world (snd (VMCommitResource_Update full_disk_env (request commit_plan1) (start sim0)))) = snd (api_CommitVM full_disk_env ''vm-1'' True (world (snd (NewSSHClient full_disk_env ''vm-1'' ''PRIVATE KEY'' (emit (GetSSHKeyCall ''vm-1'') ((tflog Debug ''Re-committing Vers VM (triggers changed)'' (start sim0))\<lparr>world := sim0\<rparr>))))))"
proof -
  have h: "\<not> HasError (Plan_diags (request commit_plan1))"
    by (simp add: request_def HasError_def)
  have vm: "''vm-1'' = ValueString (commit_VMID (Plan (request commit_plan1)))"
    by (simp add: request_def commit_plan1_def)
  have keep: "True = ValueBool (KeepPaused (Plan (request commit_plan1)))"
    by (simp add: request_def commit_plan1_def)
  have two: "Second < 2 * Minute"
    by (simp add: Minute_def Second_def)
  have opA: "(VMCommitResource_Create, ''Committing Vers VM'') \<in> {(VMCommitResource_Create, ''Committing Vers VM''),
                     (VMCommitResource_Update, ''Re-committing Vers VM (triggers changed)'')}"
    by simp
  have keyA: "api_GetSSHKey sim_env ''vm-1'' (world (start sim0)) = (Inr ''PRIVATE KEY'', sim0)"
    by (simp add: sim_GetSSHKey full_disk_env_def sim_env_def start_def sim0_def)
  define keyedA where "keyedA = (emit (GetSSHKeyCall ''vm-1'') ((tflog Debug ''Committing Vers VM'' (start sim0))\<lparr>world := sim0\<rparr>))"
  define with_keyA where "with_keyA = snd (NewSSHClient sim_env ''vm-1'' ''PRIVATE KEY'' keyedA)"
  have nA: "NewSSHClient sim_env ''vm-1'' ''PRIVATE KEY'' keyedA = (Inr vm1, with_keyA)"
    unfolding with_keyA_def by (simp add: sim_NewSSHClient)
  have wA: "vm_refusals (world with_keyA) = 0" "\<not> vm_stalled (world with_keyA)"
    unfolding with_keyA_def keyedA_def
    by (simp_all add: sim_NewSSHClient emit_def tflog_def start_def sim0_def)
  define syncedA where "syncedA = snd (ExecWithTimeout sim_env vm1 ''sync'' (2 * Minute) (tflog Debug (''Running '' @ [squote] @ ''sync'' @ [squote] @ '' on VM before commit to flush dirty pages'') with_keyA))"
  have xA: "ExecWithTimeout sim_env vm1 ''sync'' (2 * Minute) (tflog Debug (''Running '' @ [squote] @ ''sync'' @ [squote] @ '' on VM before commit to flush dirty pages'') with_keyA) = (([], None), syncedA)"
    unfolding syncedA_def using wA two
    by (simp add: sim_ExecWithTimeout tflog_fields sh_simple)
  note tA = flush_attempted_before_commit[OF h opA vm keep keyA keyedA_def refl refl]
  have cA: "processes_started (butlast (since (start sim0) (snd (VMCommitResource_Create sim_env (request commit_plan1) (start sim0))))) = [(''ssh'', sshBaseArgs vm1 @ [''sync''])]
      \<and> warnings (since (start sim0) (snd (VMCommitResource_Create sim_env (request commit_plan1) (start sim0)))) = []
      \<and> (world (snd (VMCommitResource_Create sim_env (request commit_plan1) (start sim0)))) = snd (api_CommitVM sim_env ''vm-1'' True (os_Remove sim_env (KeyPath vm1) (world syncedA)))"
    using tA[THEN conjunct2, THEN conjunct2, THEN conjunct2, rule_format, OF conjI[OF refl conjI[OF nA xA]]]
    by simp
  have opB: "(VMCommitResource_Update, ''Re-committing Vers VM (triggers changed)'') \<in> {(VMCommitResource_Create, ''Committing Vers VM''),
                     (VMCommitResource_Update, ''Re-committing Vers VM (triggers changed)'')}"
    by simp
  have keyB: "api_GetSSHKey sim_env ''vm-1'' (world (start (sim0\<lparr>vm_refusals := 1\<rparr>))) = (Inr ''PRIVATE KEY'', (sim0\<lparr>vm_refusals := 1\<rparr>))"
    by (simp add: sim_GetSSHKey full_disk_env_def sim_env_def start_def sim0_def)
  define keyedB where "keyedB = (emit (GetSSHKeyCall ''vm-1'') ((tflog Debug ''Re-committing Vers VM (triggers changed)'' (start (sim0\<lparr>vm_refusals := 1\<rparr>)))\<lparr>world := (sim0\<lparr>vm_refusals := 1\<rparr>)\<rparr>))"
  define with_keyB where "with_keyB = snd (NewSSHClient sim_env ''vm-1'' ''PRIVATE KEY'' keyedB)"
  have nB: "NewSSHClient sim_env ''vm-1'' ''PRIVATE KEY'' keyedB = (Inr vm1, with_keyB)"
    unfolding with_keyB_def by (simp add: sim_NewSSHClient)
  have wB: "0 < vm_refusals (world with_keyB)"
    unfolding with_keyB_def keyedB_def
    by (simp_all add: sim_NewSSHClient emit_def tflog_def start_def sim0_def)
  define syncedB where "syncedB = snd (ExecWithTimeout sim_env vm1 ''sync'' (2 * Minute) (tflog Debug (''Running '' @ [squote] @ ''sync'' @ [squote] @ '' on VM before commit to flush dirty pages'') with_keyB))"
  have xB: "ExecWithTimeout sim_env vm1 ''sync'' (2 * Minute) (tflog Debug (''Running '' @ [squote] @ ''sync'' @ [squote] @ '' on VM before commit to flush dirty pages'') with_keyB) = (([], Some (''SSH exec failed: exit status 255'' @ [newline] @ ''stderr: ssh: connection refused'')), syncedB)"
    unfolding syncedB_def using wB two
    by (simp add: sim_ExecWithTimeout_refused tflog_fields sh_simple)
  note tB = flush_attempted_before_commit[OF h opB vm keep keyB keyedB_def refl refl]
  have cB: "processes_started (butlast (since (start (sim0\<lparr>vm_refusals := 1\<rparr>)) (snd (VMCommitResource_Update sim_env (request commit_plan1) (start (sim0\<lparr>vm_refusals := 1\<rparr>)))))) = [(''ssh'', sshBaseArgs vm1 @ [''sync''])]
      \<and> warnings (since (start (sim0\<lparr>vm_refusals := 1\<rparr>)) (snd (VMCommitResource_Update sim_env (request commit_plan1) (start (sim0\<lparr>vm_refusals := 1\<rparr>))))) = [''Pre-commit sync failed (VM may not be SSH-reachable)'']
      \<and> (world (snd (VMCommitResource_Update sim_env (request commit_plan1) (start (sim0\<lparr>vm_refusals := 1\<rparr>))))) = snd (api_CommitVM sim_env ''vm-1'' True (os_Remove sim_env (KeyPath vm1) (world syncedB)))"
    using tB[THEN conjunct2, THEN conjunct2, THEN conjunct2, rule_format, OF conjI[OF refl conjI[OF nB xB]]]
    by simp
  have opC: "(VMCommitResource_Create, ''Committing Vers VM'') \<in> {(VMCommitResource_Create, ''Committing Vers VM''),
                     (VMCommitResource_Update, ''Re-committing Vers VM (triggers changed)'')}"
    by simp
  have keyC: "api_GetSSHKey sim_env ''vm-1'' (world (start (sim0\<lparr>known_vms := []\<rparr>))) = (Inl ''Vers API returned 404'', (sim0\<lparr>known_vms := []\<rparr>))"
    by (simp add: sim_GetSSHKey full_disk_env_def sim_env_def start_def sim0_def)
  define keyedC where "keyedC = (emit (GetSSHKeyCall ''vm-1'') ((tflog Debug ''Committing Vers VM'' (start (sim0\<lparr>known_vms := []\<rparr>)))\<lparr>world := (sim0\<lparr>known_vms := []\<rparr>)\<rparr>))"
  note tC = flush_attempted_before_commit[OF h opC vm keep keyC keyedC_def refl refl]
  have cC: "processes_started (since (start (sim0\<lparr>known_vms := []\<rparr>)) (snd (VMCommitResource_Create sim_env (request commit_plan1) (start (sim0\<lparr>known_vms := []\<rparr>))))) = []
      \<and> warnings (since (start (sim0\<lparr>known_vms := []\<rparr>)) (snd (VMCommitResource_Create sim_env (request commit_plan1) (start (sim0\<lparr>known_vms := []\<rparr>))))) = [''Could not get SSH key for pre-commit sync (skipping)'']
      \<and> (world (snd (VMCommitResource_Create sim_env (request commit_plan1) (start (sim0\<lparr>known_vms := []\<rparr>))))) = snd (api_CommitVM sim_env ''vm-1'' True (sim0\<lparr>known_vms := []\<rparr>))"
    using tC[THEN conjunct2, THEN conjunct1, rule_format, OF refl] by simp
  have opD: "(VMCommitResource_Update, ''Re-committing Vers VM (triggers changed)'') \<in> {(VMCommitResource_Create, ''Committing Vers VM''),
                     (VMCommitResource_Update, ''Re-committing Vers VM (triggers changed)'')}"
    by simp
  have keyD: "api_GetSSHKey full_disk_env ''vm-1'' (world (start sim0)) = (Inr ''PRIVATE KEY'', sim0)"
    by (simp add: sim_GetSSHKey full_disk_env_def sim_env_def start_def sim0_def)
  define keyedD where "keyedD = (emit (GetSSHKeyCall ''vm-1'') ((tflog Debug ''Re-committing Vers VM (triggers changed)'' (start sim0))\<lparr>world := sim0\<rparr>))"
  define no_keyD where "no_keyD = snd (NewSSHClient full_disk_env ''vm-1'' ''PRIVATE KEY'' keyedD)"
  have nD: "NewSSHClient full_disk_env ''vm-1'' ''PRIVATE KEY'' keyedD
              = (Inl ''write SSH key: no space left on device'', no_keyD)"
    unfolding no_keyD_def
    by (simp add: NewSSHClient_def Let_def full_disk_env_def sim_env_def)
  note tD = flush_attempted_before_commit[OF h opD vm keep keyD keyedD_def refl refl]
  have cD: "processes_started (since (start sim0) (snd (VMCommitResource_Update full_disk_env (request commit_plan1) (start sim0)))) = []
      \<and> warnings (since (start sim0) (snd (VMCommitResource_Update full_disk_env (request commit_plan1) (start sim0)))) = [''Could not create SSH client for pre-commit sync (skipping)'']
      \<and> (world (snd (VMCommitResource_Update full_disk_env (request commit_plan1) (start sim0)))) = snd (api_CommitVM full_disk_env ''vm-1'' True (world no_keyD))"
    using tD[THEN conjunct2, THEN conjunct2, THEN conjunct1, rule_format, OF conjI[OF refl nD]] by simp
  show ?thesis
    using h keyA nA xA tA[THEN conjunct1] cA[THEN conjunct1] cA[THEN conjunct2, THEN conjunct1] cA[THEN conjunct2, THEN conjunct2]
      keyB nB xB tB[THEN conjunct1] cB[THEN conjunct1] cB[THEN conjunct2, THEN conjunct1] cB[THEN conjunct2, THEN conjunct2]
      keyC tC[THEN conjunct1] cC[THEN conjunct1] cC[THEN conjunct2, THEN conjunct1] cC[THEN conjunct2, THEN conjunct2]
      keyD nD tD[THEN conjunct1] cD[THEN conjunct1] cD[THEN conjunct2, THEN conjunct1] cD[THEN conjunct2, THEN conjunct2]
    unfolding syncedA_def syncedB_def with_keyA_def with_keyB_def no_keyD_def keyedA_def keyedB_def keyedC_def keyedD_def
    by (intro conjI)
qed

subsection \<open>Where the key of a VM is kept\<close>

lemma split_sep_nonempty: "split_sep s \<noteq> []"
  by (induction s) (auto split: list.splits)

lemma split_sep_append: "split_sep (a @ slash # b) = split_sep a @ split_sep b"
proof (induction a)
  case Nil
  show ?case by simp
next
  case (Cons c a)
  then show ?case
    using split_sep_nonempty[of a] by (auto split: list.splits)
qed

lemma split_sep_plain: "slash \<notin> set n \<Longrightarrow> split_sep n = [n]"
  by (induction n) auto

lemma strings_Join_snoc:
  "strings_Join (out @ [n]) sep = (if out = [] then n else strings_Join out sep @ sep @ n)"
  by (induction out sep rule: strings_Join.induct) auto

lemma Clean_child:
  assumes "slash \<notin> set n" "n \<noteq> []" "n \<noteq> ''.''" "n \<noteq> ''..''"
  shows "Clean (d @ slash # n) = clean_parent d @ n"
proof -
  have r: "(d @ slash # n \<noteq> [] \<and> hd (d @ slash # n) = slash) = (hd (d @ [slash]) = slash)"
    by (cases d) auto
  have s: "split_sep (d @ slash # n) = split_sep d @ [n]"
    using assms(1) by (simp add: split_sep_append split_sep_plain)
  have c: "clean_step b out n = out @ [n]" for b out
    using assms by (simp add: clean_step_def)
  show ?thesis
    unfolding Clean_def r s clean_parent_def
    using assms(2) by (simp add: c strings_Join_snoc Let_def)
qed

lemma Clean_nonempty: "Clean p \<noteq> []"
  by (simp add: Clean_def Let_def)

lemma filepath_Join_pair:
  assumes "d \<noteq> []"
  shows "filepath_Join [d, n] = Clean (d @ slash # n)"
  using assms by (cases n) (simp_all add: filepath_Join_def)

lemma keyDir_nonempty: "filepath_Join [tmp, ''vers-tf-ssh-keys''] \<noteq> []"
  by (cases tmp) (simp_all add: filepath_Join_def Clean_nonempty)

lemma KeyPath_NewSSHClient:
  assumes "NewSSHClient env vmID key st = (Inr c, st')" "slash \<notin> set (take 12 vmID)"
  shows "KeyPath c = clean_parent (filepath_Join [os_TempDir env, ''vers-tf-ssh-keys''])
                     @ ''vers-'' @ take 12 vmID @ ''.pem''"
proof -
  let ?n = "''vers-'' @ take 12 vmID @ ''.pem''"
  have n: "slash \<notin> set ?n" "?n \<noteq> []" "?n \<noteq> ''.''" "?n \<noteq> ''..''"
    using assms(2) by auto
  have "KeyPath c = filepath_Join [filepath_Join [os_TempDir env, ''vers-tf-ssh-keys''], ?n]"
    using assms(1)
    by (auto simp: NewSSHClient_def Let_def min_def split: prod.splits option.splits)
  then show ?thesis
    by (simp only: filepath_Join_pair[OF keyDir_nonempty] Clean_child[OF n])
qed

text \<open>
  C8, as the code has it.  The key file of a VM is named after the first 12 bytes of its
  identifier.  For identifiers with no separator in those bytes, two clients made in the
  same environment have the same key file exactly when the identifiers agree on their
  first 12 bytes; identifiers that differ only later share one file.
\<close>

theorem key_path_by_first_12_bytes:
  assumes "NewSSHClient env vmID1 key1 st1 = (Inr c1, st1')"
    and "NewSSHClient env vmID2 key2 st2 = (Inr c2, st2')"
    and "slash \<notin> set (take 12 vmID1)" and "slash \<notin> set (take 12 vmID2)"
  shows "KeyPath c1 = KeyPath c2 \<longleftrightarrow> take 12 vmID1 = take 12 vmID2"
  by (simp add: KeyPath_NewSSHClient[OF assms(1,3)] KeyPath_NewSSHClient[OF assms(2,4)])

theorem key_path_by_first_12_bytes_witness:
  "NewSSHClient sim_env ''vm-1'' ''KEY-1'' (start sim0)
     = (Inr vm1, snd (NewSSHClient sim_env ''vm-1'' ''KEY-1'' (start sim0)))
   \<and> NewSSHClient sim_env ''vm-2'' ''KEY-2'' (start sim0)
     = (Inr \<lparr>KeyPath = ''/tmp/vers-tf-ssh-keys/vers-vm-2.pem'', ssh_VMID = ''vm-2'', Host = ''vm-2.vm.vers.sh''\<rparr>,
        snd (NewSSHClient sim_env ''vm-2'' ''KEY-2'' (start sim0)))
   \<and> slash \<notin> set (take 12 ''vm-1'') \<and> slash \<notin> set (take 12 ''vm-2'')
   \<and> KeyPath vm1 \<noteq> ''/tmp/vers-tf-ssh-keys/vers-vm-2.pem''"
proof -
  let ?c2 = "\<lparr>KeyPath = ''/tmp/vers-tf-ssh-keys/vers-vm-2.pem'', ssh_VMID = ''vm-2'', Host = ''vm-2.vm.vers.sh''\<rparr>"
  have a: "NewSSHClient sim_env ''vm-1'' ''KEY-1'' (start sim0)
             = (Inr vm1, snd (NewSSHClient sim_env ''vm-1'' ''KEY-1'' (start sim0)))"
    by (simp add: sim_NewSSHClient)
  have b: "NewSSHClient sim_env ''vm-2'' ''KEY-2'' (start sim0)
             = (Inr ?c2, snd (NewSSHClient sim_env ''vm-2'' ''KEY-2'' (start sim0)))"
    by (simp add: NewSSHClient_def Let_def sim_os emit_def filepath_Join_def Clean_def clean_step_def)
  have c: "slash \<notin> set (take 12 ''vm-1'')" "slash \<notin> set (take 12 ''vm-2'')"
    by simp_all
  from key_path_by_first_12_bytes[OF a b c] have "KeyPath vm1 \<noteq> KeyPath ?c2"
    by simp
  with a b c show ?thesis by simp
qed

text \<open>
  C8 as stated fails: two different identifiers with the same first 12 bytes.  The
  second client overwrites the key of the first, and cleaning up either removes the key
  of both.
\<close>

theorem distinct_vms_share_key_file:
  "''3f2a9c1e-7b4d-4e1a-9c3f-5d2e8a1b0c11'' \<noteq> ''3f2a9c1e-7b4a-4c55-8a10-9e4f7d6c2b22''
   \<and> (case NewSSHClient sim_env ''3f2a9c1e-7b4d-4e1a-9c3f-5d2e8a1b0c11'' ''KEY-A'' (start sim0) of
        (Inr a, s1) \<Rightarrow>
          (case NewSSHClient sim_env ''3f2a9c1e-7b4a-4c55-8a10-9e4f7d6c2b22'' ''KEY-B'' s1 of
             (Inr b, s2) \<Rightarrow>
               KeyPath a = KeyPath b
               \<and> local_files (world s1) (KeyPath a) = Some ''KEY-A''
               \<and> local_files (world s2) (KeyPath a) = Some ''KEY-B''
               \<and> local_files (world (Cleanup sim_env b s2)) (KeyPath a) = None
           | (Inl e, s2) \<Rightarrow> False)
      | (Inl e, s1) \<Rightarrow> False)"
  by (simp add: NewSSHClient_def Let_def sim_os emit_def filepath_Join_def Clean_def clean_step_def
        Cleanup_def start_def sim0_def)

subsection \<open>Base64 and the shell's quoting\<close>

lemma b64val_b64char: "n < 64 \<Longrightarrow> b64val (b64char n) = Some n"
  by (auto simp: b64val_def b64char_def Let_def)

lemma of_char_b64char:
  "n < 64 \<Longrightarrow> (of_char (b64char n) :: nat) \<in> {43, 47} \<union> {48..57} \<union> {65..90} \<union> {97..122}"
  by (auto simp: b64char_def)

lemma b64char_neq:
  assumes "n < 64" "(of_char c :: nat) \<notin> {43, 47} \<union> {48..57} \<union> {65..90} \<union> {97..122}"
  shows "b64char n \<noteq> c"
  using of_char_b64char[OF assms(1)] assms(2) by metis

lemma b64char_special:
  assumes "n < 64"
  shows "b64char n \<noteq> CHR ''=''" "b64char n \<noteq> squote" "b64char n \<noteq> newline" "b64char n \<noteq> CHR ''-''"
  by (rule b64char_neq[OF assms], simp)+


lemma byte_bound: "(of_char c :: nat) < 256"
  by simp

lemma b64_lt:
  fixes x y z :: nat
  assumes "x < 256" "y < 256" "z < 256"
  shows "x div 4 < 64" "(x mod 4) * 16 + y div 16 < 64" "(y mod 16) * 4 + z div 64 < 64" "z mod 64 < 64"
    "(x mod 4) * 16 < 64" "(y mod 16) * 4 < 64"
  using assms by simp_all

lemma b64_x:
  fixes x y :: nat
  assumes "y < 256"
  shows "(x div 4) * 4 + ((x mod 4) * 16 + y div 16) div 16 = x"
proof -
  have "y div 16 < 16" using assms by arith
  then have "((x mod 4) * 16 + y div 16) div 16 = x mod 4" by simp
  then show ?thesis by simp
qed

lemma b64_y:
  fixes x y z :: nat
  assumes "y < 256" "z < 256"
  shows "(((x mod 4) * 16 + y div 16) mod 16) * 16 + ((y mod 16) * 4 + z div 64) div 4 = y"
proof -
  have a: "y div 16 < 16" using assms by arith
  have b: "z div 64 < 4" using assms by arith
  have "((x mod 4) * 16 + y div 16) mod 16 = y div 16" using a by simp
  moreover have "((y mod 16) * 4 + z div 64) div 4 = y mod 16" using b by simp
  ultimately show ?thesis by simp
qed

lemma b64_z:
  fixes y z :: nat
  assumes "z < 256"
  shows "(((y mod 16) * 4 + z div 64) mod 4) * 64 + z mod 64 = z"
proof -
  have b: "z div 64 < 4" using assms by arith
  have "((y mod 16) * 4 + z div 64) mod 4 = z div 64" using b by simp
  then show ?thesis by simp
qed


lemma b64_group:
  "b64_decode (b64char (x div 4) # b64char ((x mod 4) * 16 + y div 16)
               # b64char ((y mod 16) * 4 + z div 64) # b64char (z mod 64) # rest)
   = map_option (\<lambda>bs. char_of x # char_of y # char_of z # bs) (b64_decode rest)"
  if "x < 256" "y < 256" "z < 256" for x y z :: nat
  using that
  by (simp add: b64val_b64char b64char_special b64_lt b64_x b64_y b64_z)

lemma b64_roundtrip: "b64_decode (EncodeToString s) = Some s"
proof (induction s rule: EncodeToString.induct)
  case 1
  show ?case by simp
next
  case (2 a)
  define x :: nat where "x = of_char a"
  have b: "x < 256"
    by (simp add: x_def)
  have lt: "x div 4 < 64" "(x mod 4) * 16 < 64"
    using b64_lt[OF b b b] by simp_all
  have ex: "(x div 4) * 4 + ((x mod 4) * 16) div 16 = x"
    by simp
  have "char_of ((x div 4) * 4 + ((x mod 4) * 16) div 16) = a"
    unfolding ex by (simp add: x_def)
  then show ?case
    by (simp add: Let_def x_def[symmetric] b64val_b64char[OF lt(1)] b64val_b64char[OF lt(2)])
next
  case (3 a b)
  define x :: nat where "x = of_char a"
  define y :: nat where "y = of_char b"
  have b: "x < 256" "y < 256"
    by (simp_all add: x_def y_def)
  have lt: "x div 4 < 64" "(x mod 4) * 16 + y div 16 < 64" "(y mod 16) * 4 < 64"
    using b64_lt[OF b b(2)] by simp_all
  have ex: "(x div 4) * 4 + ((x mod 4) * 16 + y div 16) div 16 = x"
    by (rule b64_x[OF b(2)])
  have ey: "(((x mod 4) * 16 + y div 16) mod 16) * 16 + ((y mod 16) * 4) div 4 = y"
    using b64_y[OF b(2), of 0 x] by simp
  have "char_of ((x div 4) * 4 + ((x mod 4) * 16 + y div 16) div 16) = a"
    unfolding ex by (simp add: x_def)
  moreover have "char_of ((((x mod 4) * 16 + y div 16) mod 16) * 16 + ((y mod 16) * 4) div 4) = b"
    unfolding ey by (simp add: y_def)
  ultimately show ?case
    by (simp add: Let_def x_def[symmetric] y_def[symmetric] b64val_b64char[OF lt(1)]
          b64val_b64char[OF lt(2)] b64val_b64char[OF lt(3)] b64char_special[OF lt(3)])
next
  case (4 a b c rest)
  have ih: "b64_decode (EncodeToString rest) = Some rest"
    by (rule 4[OF refl refl refl])
  show ?case
    by (simp add: Let_def b64_group ih del: b64_decode.simps)
qed


lemma b64char_in: "n < 64 \<Longrightarrow> b64char n \<in> insert CHR ''='' (b64char ` {..<64})"
  by simp

lemma EncodeToString_chars:
  "set (EncodeToString s) \<subseteq> insert CHR ''='' (b64char ` {..<64})"
proof (induction s rule: EncodeToString.induct)
  case 1
  then show ?case by simp
next
  case (2 a)
  have b: "(of_char a :: nat) < 256" by simp
  show ?case
    using b64char_in[OF b64_lt(1)[OF b b b]] b64char_in[OF b64_lt(5)[OF b b b]]
    by (simp add: Let_def)
next
  case (3 a b)
  have b: "(of_char a :: nat) < 256" "(of_char b :: nat) < 256" by simp_all
  show ?case
    using b64char_in[OF b64_lt(1)[OF b b(2)]] b64char_in[OF b64_lt(2)[OF b b(2)]]
      b64char_in[OF b64_lt(6)[OF b b(2)]]
    by (simp add: Let_def)
next
  case (4 a b c rest)
  have b: "(of_char a :: nat) < 256" "(of_char b :: nat) < 256" "(of_char c :: nat) < 256" by simp_all
  have ih: "set (EncodeToString rest) \<subseteq> insert CHR ''='' (b64char ` {..<64})"
    by (rule 4[OF refl refl refl])
  show ?case
    using b64char_in[OF b64_lt(1)[OF b]] b64char_in[OF b64_lt(2)[OF b]]
      b64char_in[OF b64_lt(3)[OF b]] b64char_in[OF b64_lt(4)[OF b]] ih
    by (simp add: Let_def)
qed

lemma EncodeToString_avoids:
  assumes "c \<noteq> CHR ''=''" "\<And>n. n < 64 \<Longrightarrow> b64char n \<noteq> c"
  shows "c \<notin> set (EncodeToString s)"
proof
  assume "c \<in> set (EncodeToString s)"
  then have "c \<in> insert CHR ''='' (b64char ` {..<64})"
    using EncodeToString_chars[of s] by (rule subsetD[rotated])
  then obtain n where "n < 64" "c = b64char n"
    using assms(1) by auto
  then show False
    using assms(2) by blast
qed

lemma EncodeToString_plain:
  "squote \<notin> set (EncodeToString s)" "newline \<notin> set (EncodeToString s)"
  by (rule EncodeToString_avoids, simp, erule b64char_special)+

lemma EncodeToString_no_option: "\<not> is_option (EncodeToString s)"
proof (cases s rule: EncodeToString.cases)
  case 1
  then show ?thesis by (simp add: is_option_def)
next
  case (2 a)
  have b: "(of_char a :: nat) < 256" by simp
  from 2 b64char_special(4)[OF b64_lt(1)[OF b b b]] show ?thesis
    by (simp add: is_option_def Let_def)
next
  case (3 a b)
  have b: "(of_char a :: nat) < 256" by simp
  from 3 b64char_special(4)[OF b64_lt(1)[OF b b b]] show ?thesis
    by (simp add: is_option_def Let_def)
next
  case (4 a b c rest)
  have b: "(of_char a :: nat) < 256" by simp
  from 4 b64char_special(4)[OF b64_lt(1)[OF b b b]] show ?thesis
    by (simp add: is_option_def Let_def)
qed

lemma base64_d_roundtrip: "base64_d (EncodeToString s @ [newline]) = Some s"
proof -
  have "filter (\<lambda>c. c \<noteq> newline) (EncodeToString s) = EncodeToString s"
    using EncodeToString_plain(2)[of s] by (auto simp: filter_id_conv)
  then show ?thesis
    by (simp add: base64_d_def b64_roundtrip)
qed

lemma sh_lex_escaped:
  "sh_lex Quoted (Some w) (shellEscape p @ squote # rest) = sh_lex Plain (Some (w @ p)) rest"
proof (induction p arbitrary: w)
  case Nil
  show ?case by (simp add: shellEscape_def)
next
  case (Cons c p)
  have IH: "sh_lex Quoted (Some v) (shellEscape p @ squote # rest) = sh_lex Plain (Some (v @ p)) rest" for v
    by (rule Cons.IH)
  show ?case
  proof (cases "c = squote")
    case True
    have "shellEscape (c # p) = [squote, backslash, squote, squote] @ shellEscape p"
      using True by (simp add: shellEscape_def)
    then show ?thesis
      using True IH[of "w @ [squote]"] by simp
  next
    case False
    have "shellEscape (c # p) = c # shellEscape p"
      using False by (simp add: shellEscape_def)
    then show ?thesis
      using False IH[of "w @ [c]"] by simp
  qed
qed

lemma shellEscape_plain: "squote \<notin> set e \<Longrightarrow> shellEscape e = e"
  by (induction e) (auto simp: shellEscape_def)

lemma sh_lex_quoted_plain:
  "squote \<notin> set e \<Longrightarrow> sh_lex Quoted (Some w) (e @ squote # rest) = sh_lex Plain (Some (w @ e)) rest"
  using sh_lex_escaped[of w e rest] by (simp add: shellEscape_plain)

lemma lex_write:
  "sh_lex Plain None (''echo '' @ [squote] @ EncodeToString content @ [squote] @ '' | base64 -d > '' @ [squote]
                      @ shellEscape path @ [squote])
   = Some [Word ''echo'', Word (EncodeToString content), Pipe, Word ''base64'', Word ''-d'', Redirect, Word path]"
  by (simp add: sh_lex_quoted_plain[OF EncodeToString_plain(1)] sh_lex_escaped sh_special_def)

lemma lex_mkdir:
  "sh_lex Plain None (''mkdir -p '' @ [squote] @ shellEscape dir @ [squote])
   = Some [Word ''mkdir'', Word ''-p'', Word dir]"
  by (simp add: sh_lex_escaped sh_special_def)


subsection \<open>Writing a file and reading it back\<close>

lemma sh_write:
  "sh (''echo '' @ [squote] @ EncodeToString content @ [squote] @ '' | base64 -d > '' @ [squote]
       @ shellEscape path @ [squote]) fs
   = (if path = [] \<or> last path = slash then (2, [], ''sh: cannot create '' @ path, fs)
      else (0, [], [], if null_device path then fs else fs(path \<mapsto> content)))"
  unfolding sh_def lex_write
  by (simp add: sh_decode_to_def EncodeToString_no_option base64_d_roundtrip)

lemma sh_mkdir:
  "sh (''mkdir -p '' @ [squote] @ shellEscape dir @ [squote]) fs
   = (if is_option dir \<or> dir = [] then (1, [], ''mkdir: invalid operand'', fs) else (0, [], [], fs))"
  unfolding sh_def lex_mkdir
  by (simp add: sh_simple3_def)







lemma sim_WriteFile_write_run:
  assumes "vm_refusals (world st) = 0" "\<not> vm_stalled (world st)" "path \<noteq> []" "last path \<noteq> slash"
    and "\<not> null_device path"
  shows "WriteFile_write sim_env s path content st
         = Some (None,
             st\<lparr>world := (world st)\<lparr>vm_files := (vm_files (world st))(path \<mapsto> content)\<rparr>,
                clock := clock st + Second,
                trace := trace st @ [ProcStart ''ssh'' (sshBaseArgs s @
                  [''echo '' @ [squote] @ EncodeToString content @ [squote] @ '' | base64 -d > '' @ [squote]
                   @ shellEscape path @ [squote]])]\<rparr>)"
  unfolding WriteFile_write_def Let_def sim_Exec[OF assms(1,2)] sh_write
  using assms(3,4,5) by simp

lemma sim_WriteFile_run:
  assumes "vm_refusals (world st) = 0" "\<not> vm_stalled (world st)" "path \<noteq> []" "last path \<noteq> slash"
    and "\<not> is_option (filepath_Dir path)" and "\<not> null_device path"
  shows "\<exists>st'. WriteFile sim_env s path content st = Some (None, st')
           \<and> world st' = (world st)\<lparr>vm_files := (vm_files (world st))(path \<mapsto> content)\<rparr>
           \<and> clock st \<le> clock st'
           \<and> commands_run (since st st') \<noteq> []"
proof (cases "filepath_Dir path \<noteq> ''.'' \<and> filepath_Dir path \<noteq> ''/''")
  case False
  then show ?thesis
    using sim_WriteFile_write_run[OF assms(1-4) assms(6), of s content]
    by (auto simp: WriteFile_def Let_def since_def Second_def)
next
  case True
  have d: "filepath_Dir path \<noteq> []"
    by (simp add: filepath_Dir_def Clean_nonempty)
  let ?st1 = "st\<lparr>world := (world st)\<lparr>vm_files := vm_files (world st)\<rparr>, clock := clock st + Second,
                  trace := trace st @ [ProcStart ''ssh'' (sshBaseArgs s @
                     [''mkdir -p '' @ [squote] @ shellEscape (filepath_Dir path) @ [squote]])]\<rparr>"
  have m: "Exec sim_env s (''mkdir -p '' @ [squote] @ shellEscape (filepath_Dir path) @ [squote]) st
        = Some (([], None), ?st1)"
    unfolding sim_Exec[OF assms(1,2)] sh_mkdir using assms(5) d by simp
  have w: "vm_refusals (world ?st1) = 0" "\<not> vm_stalled (world ?st1)"
    using assms(1,2) by simp_all
  show ?thesis
    using True m sim_WriteFile_write_run[OF w assms(3,4,6), of s content]
    by (auto simp: WriteFile_def Let_def since_def Second_def)
qed






subsection \<open>The provisioning run\<close>

lemma grows_refl: "grows st st"
  by (simp add: grows_def)

lemma grows_trans: "grows a b \<Longrightarrow> grows b c \<Longrightarrow> grows a c"
  by (auto simp: grows_def)

lemma grows_emit: "grows st (emit ev st)" "grows st (tflog l m st)"
  by (simp_all add: grows_def emit_def tflog_def)

lemma grows_since: "grows st st' \<Longrightarrow> trace st' = trace st @ since st st'"
  by (auto simp: grows_def since_def)

lemma grows_since_mono: "grows st st' \<Longrightarrow> grows st' st'' \<Longrightarrow> set (since st st') \<subseteq> set (since st st'')"
  by (auto simp: grows_def since_def)

lemma grows_ExecWithTimeout: "grows st (snd (ExecWithTimeout env s c t st))"
  using trace_ExecWithTimeout[of env s c t st] by (auto simp: grows_def)

lemma grows_Exec: "Exec env s c st = Some (r, st') \<Longrightarrow> grows st st'"
  by (auto simp: Exec_def Let_def emit_def grows_def split: option.splits)

lemma grows_WriteFile_write: "WriteFile_write env s p c st = Some (r, st') \<Longrightarrow> grows st st'"
  by (auto simp: WriteFile_write_def Let_def split: option.splits prod.splits dest: grows_Exec)

lemma grows_WriteFile: "WriteFile env s p c st = Some (r, st') \<Longrightarrow> grows st st'"
  by (auto simp: WriteFile_def Let_def split: if_splits option.splits prod.splits
           dest: grows_Exec grows_WriteFile_write intro: grows_trans)

lemma grows_UploadFile: "UploadFile env s l p st = Some (r, st') \<Longrightarrow> grows st st'"
  by (auto simp: UploadFile_def Let_def split: sum.splits
           dest!: grows_WriteFile intro: grows_trans grows_emit)

lemma grows_Create_files: "Create_files env ssh i fs st = Some (r, st') \<Longrightarrow> grows st st'"
proof (induction fs arbitrary: i st)
  case Nil
  then show ?case by (simp add: grows_refl)
next
  case (Cons f fs)
  from Cons.prems show ?case
    by (auto simp: Let_def split: if_splits option.splits prod.splits
             dest!: Cons.IH grows_UploadFile grows_WriteFile
             intro: grows_trans[OF grows_emit(2)] grows_trans grows_refl)
qed

lemma grows_NewSSHClient: "grows st (snd (NewSSHClient env v k st))"
  using trace_NewSSHClient[of env v k st] by (auto simp: grows_def)

lemma grows_time_Sleep: "grows st (time_Sleep d st)"
  by (simp add: time_Sleep_def grows_def emit_def)

lemma WaitReachable_loop_probe:
  "WaitReachable_loop env s deadline lastErr st = ((ok, e), st')
   \<Longrightarrow> grows st st' \<and> (ok \<longrightarrow> ProcStart ''ssh'' (sshBaseArgs s @ [''echo ready'']) \<in> set (since st st'))"
proof (induction env s deadline lastErr st rule: WaitReachable_loop.induct)
  case (1 env s deadline lastErr st)
  show ?case
  proof (cases "clock st < deadline")
    case False
    with "1.prems" show ?thesis
      by (simp add: WaitReachable_loop.simps[of env s deadline lastErr st] grows_refl)
  next
    case True
    obtain r st1 where e: "ExecWithTimeout env s ''echo ready'' (15 * Second) st = (r, st1)"
      by (cases "ExecWithTimeout env s ''echo ready'' (15 * Second) st")
    obtain new where new: "trace st1 = trace st @ ProcStart ''ssh'' (sshBaseArgs s @ [''echo ready'']) # new"
      using trace_ExecWithTimeout[of env s "''echo ready''" "15 * Second" st] e by auto
    then have g1: "grows st st1"
      by (simp add: grows_def)
    show ?thesis
    proof (cases "probe_ok r")
      case ok: True
      with "1.prems" True e have "st' = st1" "ok"
        by (simp_all add: WaitReachable_loop.simps[of env s deadline lastErr st])
      then show ?thesis using new g1 by (simp add: since_def)
    next
      case nok: False
      with "1.prems" True e
      have rec: "WaitReachable_loop env s deadline (snd r) (time_Sleep (3 * Second) st1) = ((ok, e), st')"
        by (simp add: WaitReachable_loop.simps[of env s deadline lastErr st])
      from "1.IH"[OF True e[symmetric] refl nok rec]
      have ih: "grows (time_Sleep (3 * Second) st1) st'"
        by simp
      have g1': "grows st1 st'"
        by (rule grows_trans[OF grows_time_Sleep ih])
      have g: "grows st st'"
        by (rule grows_trans[OF g1 g1'])
      have "ProcStart ''ssh'' (sshBaseArgs s @ [''echo ready'']) \<in> set (since st st1)"
        using new by (simp add: since_def)
      moreover have "set (since st st1) \<subseteq> set (since st st')"
        by (rule grows_since_mono[OF g1 g1'])
      ultimately show ?thesis using g by blast
    qed
  qed
qed

lemma Create_connect_calls:
  assumes "Create_connect env req st = Some (ssh, st3)"
  shows "grows st st3
         \<and> GetSSHKeyCall (ValueString (VMID (Plan req))) \<in> set (since st st3)
         \<and> ProcStart ''ssh'' (sshBaseArgs ssh @ [''echo ready'']) \<in> set (since st st3)"
proof -
  let ?vm = "ValueString (VMID (Plan req))"
  let ?st0 = "tflog Info ''Provisioning Vers VM'' st"
  from assms obtain key w1 st2 where
    k: "api_GetSSHKey env ?vm (world ?st0) = (Inr key, w1)"
    and n: "NewSSHClient env ?vm key (emit (GetSSHKeyCall ?vm) (?st0\<lparr>world := w1\<rparr>)) = (Inr ssh, st2)"
    and w: "WaitReachable env ssh (3 * Minute) (tflog Debug ''Waiting for VM to be reachable via SSH'' st2)
              = (None, st3)"
    by (auto simp: Create_connect_def Let_def split: if_splits prod.splits sum.splits option.splits)
  let ?st1 = "emit (GetSSHKeyCall ?vm) (?st0\<lparr>world := w1\<rparr>)"
  let ?st2' = "tflog Debug ''Waiting for VM to be reachable via SSH'' st2"
  have t1: "trace ?st1 = trace st @ [Log Info ''Provisioning Vers VM'', GetSSHKeyCall ?vm]"
    by (simp add: emit_def tflog_def)
  have g1: "grows st ?st1"
    using t1 by (simp add: grows_def)
  have g2: "grows ?st1 st2"
    using grows_NewSSHClient[of ?st1 env ?vm key] n by simp
  have g2': "grows st2 ?st2'"
    by (rule grows_emit)
  from w obtain e where l: "WaitReachable_loop env ssh (clock ?st2' + 3 * Minute) None ?st2' = ((True, e), st3)"
    by (auto simp: WaitReachable_def Let_def split: prod.splits if_splits option.splits)
  from WaitReachable_loop_probe[OF l]
  have g3: "grows ?st2' st3" and p: "ProcStart ''ssh'' (sshBaseArgs ssh @ [''echo ready'']) \<in> set (since ?st2' st3)"
    by simp_all
  have g13: "grows ?st1 st3"
    by (rule grows_trans[OF g2 grows_trans[OF g2' g3]])
  have g: "grows st st3"
    by (rule grows_trans[OF g1 g13])
  have a: "GetSSHKeyCall ?vm \<in> set (since st ?st1)"
    using t1 by (simp add: since_def)
  have "set (since st ?st1) \<subseteq> set (since st st3)"
    by (rule grows_since_mono[OF g1 g13])
  with a have a': "GetSSHKeyCall ?vm \<in> set (since st st3)"
    by blast
  have "grows st ?st2'"
    by (rule grows_trans[OF g1 grows_trans[OF g2 g2']])
  then have "set (since ?st2' st3) \<subseteq> set (since st st3)"
    using g3 by (auto simp: grows_def since_def)
  with p g a' show ?thesis by blast
qed

lemma Create_files_append:
  "Create_files env ssh i pre st = Some (None, st1)
   \<Longrightarrow> Create_files env ssh i (pre @ rest) st = Create_files env ssh (i + length pre) rest st1"
proof (induction pre arbitrary: i st)
  case Nil
  then show ?case by simp
next
  case (Cons f pre)
  from Cons.prems show ?case
    by (auto simp: Let_def dest!: Cons.IH split: if_splits option.splits prod.splits)
qed

lemma Update_files_append:
  "Update_files env ssh pre st = Some (None, st1)
   \<Longrightarrow> Update_files env ssh (pre @ rest) st = Update_files env ssh rest st1"
proof (induction pre arbitrary: st)
  case Nil
  then show ?case by simp
next
  case (Cons f pre)
  from Cons.prems show ?case
    by (auto simp: Let_def dest!: Cons.IH split: if_splits option.splits prod.splits)
qed

lemma Create_files_neither:
  "neither_set f \<Longrightarrow> Create_files env ssh i (f # fs) st = Some (Some (file_block_error i), st)"
  by (auto simp: neither_set_def Let_def)

lemma Update_files_neither:
  "neither_set f \<Longrightarrow> Update_files env ssh (f # fs) st = Update_files env ssh fs st"
  by (auto simp: neither_set_def Let_def)


lemma since_refl: "since st st = []"
  by (simp add: since_def)





lemma Create_after_connect:
  assumes "Create_connect env req st = Some (ssh, st3)"
  shows "ProvisionResource_Create env req st
         = (case Create_upload env ssh (Plan req) st3 of
              None \<Rightarrow> None
            | Some (Some d, st4) \<Rightarrow>
                Some (\<lparr>Diagnostics = Plan_diags req @ [d], State = None\<rparr>, Cleanup env ssh st4)
            | Some (None, st4) \<Rightarrow>
                (case Create_run env ssh (Plan req) st4 of
                   (Some d, st5) \<Rightarrow>
                     Some (\<lparr>Diagnostics = Plan_diags req @ [d], State = None\<rparr>, Cleanup env ssh st5)
                 | (None, st5) \<Rightarrow>
                     Some (\<lparr>Diagnostics = Plan_diags req,
                            State = Some ((Plan req)\<lparr>ID := StringValue (computeID env (world st5) (Plan req))\<rparr>)\<rparr>,
                           Cleanup env ssh (tflog Info ''VM provisioning complete'' st5))))"
  using assms
  by (auto simp: Create_connect_def ProvisionResource_Create_def Create_provision_def Let_def
           split: if_splits prod.splits sum.splits option.splits)

lemma Update_files_skip:
  "neither_set f \<Longrightarrow> Update_files env ssh (pre @ f # post) st = Update_files env ssh (pre @ post) st"
proof (induction pre arbitrary: st)
  case Nil
  then show ?case by (simp add: Update_files_neither del: Update_files.simps)
next
  case (Cons g pre)
  then show ?case
    by (auto simp: Let_def split: option.splits prod.splits)
qed

text \<open>
  C2, as the code has it.  A file block with neither a source nor a content is rejected
  when the upload loop of \<open>Create\<close> reaches it, not before: the key has been fetched
  from the API, the VM has answered a probe over SSH and every block before it has been
  uploaded.  The response then carries the error naming the block by its position and no
  state; no later block is uploaded and no command is run, and the key file is removed.
\<close>

theorem missing_source_and_content_rejected_at_its_turn:
  assumes "Create_connect env req st = Some (ssh, st3)"
    and "Files (Plan req) = ListValue (pre @ f # post)"
    and "neither_set f"
    and "Create_files env ssh 0 pre st3 = Some (None, st4)"
  shows "ProvisionResource_Create env req st
           = Some (\<lparr>Diagnostics = Plan_diags req @ [file_block_error (length pre)], State = None\<rparr>,
                   Cleanup env ssh st4)
         \<and> GetSSHKeyCall (ValueString (VMID (Plan req))) \<in> set (since st st4)
         \<and> ProcStart ''ssh'' (sshBaseArgs ssh @ [''echo ready'']) \<in> set (since st st4)"
proof -
  have u: "Create_upload env ssh (Plan req) st3 = Some (Some (file_block_error (length pre)), st4)"
    using assms(2,3,4)
    by (simp add: Create_upload_def Create_files_append Create_files_neither del: Create_files.simps)
  have a: "ProvisionResource_Create env req st
           = Some (\<lparr>Diagnostics = Plan_diags req @ [file_block_error (length pre)], State = None\<rparr>,
                   Cleanup env ssh st4)"
    by (simp add: Create_after_connect[OF assms(1)] u)
  from Create_connect_calls[OF assms(1)] have
    c: "grows st st3" "GetSSHKeyCall (ValueString (VMID (Plan req))) \<in> set (since st st3)"
       "ProcStart ''ssh'' (sshBaseArgs ssh @ [''echo ready'']) \<in> set (since st st3)"
    by simp_all
  have "set (since st st3) \<subseteq> set (since st st4)"
    by (rule grows_since_mono[OF c(1) grows_Create_files[OF assms(4)]])
  with a c show ?thesis by blast
qed

lemma sim_Create_connect:
  assumes "vm_refusals w = 0" "\<not> vm_stalled w" "known_vms w = [''vm-1'']"
  shows "Create_connect sim_env (request (provision_plan fs cs)) (start w) = Some (vm1, connected w)"
proof -
  let ?st2 = "\<lparr>world = w\<lparr>local_files := (local_files w)(KeyPath vm1 \<mapsto> ''PRIVATE KEY'')\<rparr>, clock = 0,
               trace = [Log Info ''Provisioning Vers VM'', GetSSHKeyCall ''vm-1'',
                        MkdirAllCall ''/tmp/vers-tf-ssh-keys'', WriteFileCall (KeyPath vm1),
                        Log Debug ''Waiting for VM to be reachable via SSH'']\<rparr>"
  have m: "Second < 3 * Minute"
    by (simp add: Minute_def Second_def)
  have w: "WaitReachable sim_env vm1 (3 * Minute) ?st2 = (None, connected w)"
    using sim_WaitReachable[of ?st2 "3 * Minute" vm1] assms(1,2) m
    by (simp add: connected_def)
  show ?thesis
    using assms(3) w
    by (simp add: Create_connect_def request_def provision_plan_def HasError_def Let_def
          sim_GetSSHKey sim_NewSSHClient tflog_def emit_def start_def)
qed

lemma connected_world:
  "vm_refusals (world (connected w)) = vm_refusals w"
  "vm_stalled (world (connected w)) = vm_stalled w"
  "vm_files (world (connected w)) = vm_files w"
  "local_files (world (connected w)) = (local_files w)(KeyPath vm1 \<mapsto> ''PRIVATE KEY'')"
  by (simp_all add: connected_def)

lemma sim0_world: "vm_refusals sim0 = 0" "\<not> vm_stalled sim0" "known_vms sim0 = [''vm-1'']"
  "vm_refusals sim_with_script = 0" "\<not> vm_stalled sim_with_script" "known_vms sim_with_script = [''vm-1'']"
  by (simp_all add: sim0_def sim_with_script_def)


lemma sim_upload_inline:
  assumes "vm_refusals (world st) = 0" "\<not> vm_stalled (world st)"
  shows "\<exists>st'. Create_files sim_env vm1 i [inline_block] st = Some (None, st')"
proof -
  let ?st0 = "tflog Debug (''Writing inline content to '' @ ''/tmp/a.sh'' @ '' (''
                           @ itoa (int (length ''echo hi'')) @ '' bytes)'') st"
  have d: "\<not> is_option (filepath_Dir ''/tmp/a.sh'')"
    by (simp add: filepath_Dir_def Clean_def clean_step_def is_option_def)
  have w: "vm_refusals (world ?st0) = 0" "\<not> vm_stalled (world ?st0)"
    using assms by (simp_all add: tflog_def emit_def)
  have n: "\<not> null_device ''/tmp/a.sh''"
    by (simp add: null_device_def Clean_def clean_step_def)
  from sim_WriteFile_run[OF w _ _ d n, of vm1 "''echo hi''"]
  obtain st' where "WriteFile sim_env vm1 ''/tmp/a.sh'' ''echo hi'' ?st0 = Some (None, st')"
    by auto
  then show ?thesis
    by (simp add: inline_block_def Let_def)
qed

theorem missing_source_and_content_rejected_at_its_turn_witness:
  "Create_connect sim_env (request (provision_plan (ListValue [inline_block, empty_block, inline_block]) ListNull))
     (start sim0) = Some (vm1, connected sim0)
   \<and> Files (Plan (request (provision_plan (ListValue [inline_block, empty_block, inline_block]) ListNull)))
       = ListValue ([inline_block] @ empty_block # [inline_block])
   \<and> neither_set empty_block
   \<and> Create_files sim_env vm1 0 [inline_block] (connected sim0)
       = Some (None, snd (the (Create_files sim_env vm1 0 [inline_block] (connected sim0))))
   \<and> ProvisionResource_Create sim_env
         (request (provision_plan (ListValue [inline_block, empty_block, inline_block]) ListNull)) (start sim0)
       = Some (\<lparr>Diagnostics = [file_block_error 1], State = None\<rparr>,
               Cleanup sim_env vm1 (snd (the (Create_files sim_env vm1 0 [inline_block] (connected sim0)))))
   \<and> GetSSHKeyCall ''vm-1''
       \<in> set (since (start sim0) (snd (the (Create_files sim_env vm1 0 [inline_block] (connected sim0)))))"
proof -
  let ?req = "request (provision_plan (ListValue [inline_block, empty_block, inline_block]) ListNull)"
  let ?st4 = "snd (the (Create_files sim_env vm1 0 [inline_block] (connected sim0)))"
  have a: "Create_connect sim_env ?req (start sim0) = Some (vm1, connected sim0)"
    by (rule sim_Create_connect[OF sim0_world(1,2,3)])
  have b: "Files (Plan ?req) = ListValue ([inline_block] @ empty_block # [inline_block])"
    by (simp add: request_def provision_plan_def)
  have c: "neither_set empty_block"
    by (simp add: neither_set_def empty_block_def)
  have d: "Create_files sim_env vm1 0 [inline_block] (connected sim0) = Some (None, ?st4)"
    using sim_upload_inline[of "connected sim0" 0] by (auto simp: connected_world sim0_world)
  from missing_source_and_content_rejected_at_its_turn[OF a b c d] a b c d show ?thesis
    by (simp add: request_def provision_plan_def)
qed


lemma sim_upload_both:
  "\<exists>st'. Create_files sim_env vm1 0 [both_block] (connected sim_with_script) = Some (None, st')
         \<and> vm_files (world st') ''/tmp/app.sh'' = Some ''echo from file''"
proof -
  let ?st0 = "tflog Debug (''Uploading file '' @ itoa (int 0 + 1) @ '': '' @ ''scripts/app.sh'' @ '' -> ''
                           @ ''/tmp/app.sh'') (connected sim_with_script)"
  let ?st1 = "emit (ReadFileCall ''scripts/app.sh'') ?st0"
  have r: "os_ReadFile sim_env ''scripts/app.sh'' (world ?st0) = Inr ''echo from file''"
    by (simp add: sim_os tflog_def emit_def connected_def sim_with_script_def vm1_def)
  have d: "\<not> is_option (filepath_Dir ''/tmp/app.sh'')"
    by (simp add: filepath_Dir_def Clean_def clean_step_def is_option_def)
  have w: "vm_refusals (world ?st1) = 0" "\<not> vm_stalled (world ?st1)"
    by (simp_all add: tflog_def emit_def connected_world sim0_world)
  have n: "\<not> null_device ''/tmp/app.sh''"
    by (simp add: null_device_def Clean_def clean_step_def)
  from sim_WriteFile_run[OF w _ _ d n, of vm1 "''echo from file''"]
  obtain st' where st': "WriteFile sim_env vm1 ''/tmp/app.sh'' ''echo from file'' ?st1 = Some (None, st')"
      "world st' = (world ?st1)\<lparr>vm_files := (vm_files (world ?st1))(''/tmp/app.sh'' \<mapsto> ''echo from file'')\<rparr>"
    by auto
  have "UploadFile sim_env vm1 ''scripts/app.sh'' ''/tmp/app.sh'' ?st0 = Some (None, st')"
    using r st'(1) by (simp add: UploadFile_def Let_def)
  then have "Create_files sim_env vm1 0 [both_block] (connected sim_with_script) = Some (None, st')"
    by (simp add: both_block_def Let_def)
  with st'(2) show ?thesis by simp
qed

text \<open>
  C2 as stated fails twice over.  A plan whose only file block has neither a source nor a
  content gets its error only after the key was fetched and the VM probed over SSH; and
  a block with both a source and a content is not an error at all: the source is uploaded.
\<close>

theorem config_error_only_after_remote_calls:
  "map_option (\<lambda>(resp, st'). (Diagnostics resp, filter remote_call (trace st')))
     (ProvisionResource_Create sim_env (request (provision_plan (ListValue [empty_block]) ListNull)) (start sim0))
     = Some ([file_block_error 0],
             [GetSSHKeyCall ''vm-1'', ProcStart ''ssh'' (sshBaseArgs vm1 @ [''echo ready''])])
   \<and> map_option (\<lambda>(resp, st'). (Diagnostics resp, vm_files (world st') ''/tmp/app.sh''))
       (ProvisionResource_Create sim_env (request (provision_plan (ListValue [both_block]) ListNull))
          (start sim_with_script))
     = Some ([], Some ''echo from file'')"
proof -
  have c: "neither_set empty_block"
    by (simp add: neither_set_def empty_block_def)
  have a: "map_option (\<lambda>(resp, st'). (Diagnostics resp, filter remote_call (trace st')))
     (ProvisionResource_Create sim_env (request (provision_plan (ListValue [empty_block]) ListNull)) (start sim0))
     = Some ([file_block_error 0],
             [GetSSHKeyCall ''vm-1'', ProcStart ''ssh'' (sshBaseArgs vm1 @ [''echo ready''])])"
    unfolding Create_after_connect[OF sim_Create_connect[OF sim0_world(1,2,3)]]
    by (simp add: Create_upload_def request_def provision_plan_def Create_files_neither[OF c]
          Cleanup_def emit_def connected_def del: Create_files.simps)
  obtain st' where st': "Create_files sim_env vm1 0 [both_block] (connected sim_with_script) = Some (None, st')"
      "vm_files (world st') ''/tmp/app.sh'' = Some ''echo from file''"
    using sim_upload_both by blast
  have b: "map_option (\<lambda>(resp, st'). (Diagnostics resp, vm_files (world st') ''/tmp/app.sh''))
       (ProvisionResource_Create sim_env (request (provision_plan (ListValue [both_block]) ListNull))
          (start sim_with_script))
     = Some ([], Some ''echo from file'')"
    unfolding Create_after_connect[OF sim_Create_connect[OF sim0_world(4,5,6)]]
    using st'
    by (simp add: Create_upload_def Create_run_def request_def provision_plan_def
          Cleanup_def emit_def tflog_def sim_os del: Create_files.simps)
  show ?thesis using a b by simp
qed


text \<open>
  C10.  In \<open>Update\<close> a file block with neither a source nor a content changes nothing:
  the diagnostics and everything done to the world are those of the same plan without the
  block.  The upload loop of \<open>Create\<close> stops at such a block with the error that names
  it, whatever the client, the position and the state.
\<close>

theorem update_skips_what_create_rejects:
  assumes "neither_set f" and "Files (Plan req) = ListValue (pre @ f # post)"
  shows "map_option (\<lambda>(resp, st'). (Diagnostics resp, st')) (ProvisionResource_Update env req st)
           = map_option (\<lambda>(resp, st'). (Diagnostics resp, st'))
               (ProvisionResource_Update env (req\<lparr>Plan := (Plan req)\<lparr>Files := ListValue (pre @ post)\<rparr>\<rparr>) st)
         \<and> Create_files env ssh i (f # post) st1 = Some (Some (file_block_error i), st1)"
proof -
  let ?plan' = "(Plan req)\<lparr>Files := ListValue (pre @ post)\<rparr>"
  have u: "Update_upload env s (Plan req) t = Update_upload env s ?plan' t" for s t
    using assms by (simp add: Update_upload_def Update_files_skip del: Update_files.simps)
  have r: "Update_run env s (Plan req) t = Update_run env s ?plan' t" for s t
    by (simp add: Update_run_def)
  have p: "map_option (\<lambda>(resp, st'). (Diagnostics resp, st')) (Update_provision env s ds (Plan req) t)
         = map_option (\<lambda>(resp, st'). (Diagnostics resp, st')) (Update_provision env s ds ?plan' t)" for s ds t
    unfolding Update_provision_def u r
    by (auto split: prod.splits option.splits)
  have c: "map_option (\<lambda>(resp, st'). (Diagnostics resp, st'))
             (map_option (\<lambda>(resp, st3). (resp, Cleanup env s st3)) X)
           = map_option (\<lambda>(d, st3). (d, Cleanup env s st3))
               (map_option (\<lambda>(resp, st'). (Diagnostics resp, st')) X)"
    for s and X :: "(ProvisionResourceModel response \<times> 'a state) option"
    by (cases X) auto
  have "map_option (\<lambda>(resp, st'). (Diagnostics resp, st')) (ProvisionResource_Update env req st)
           = map_option (\<lambda>(resp, st'). (Diagnostics resp, st'))
               (ProvisionResource_Update env (req\<lparr>Plan := ?plan'\<rparr>) st)"
    unfolding ProvisionResource_Update_def
    by (simp add: Let_def c p split: prod.splits sum.splits)
  then show ?thesis
    using assms(1) by (simp add: Create_files_neither del: Create_files.simps)
qed

lemma sim_Update_no_files:
  "map_option (\<lambda>(resp, st'). (Diagnostics resp, commands_run (trace st')))
     (ProvisionResource_Update sim_env (request (provision_plan (ListValue []) ListNull)) (start sim0))
   = Some ([], [''echo ready''])"
proof -
  let ?st2 = "\<lparr>world = sim0\<lparr>local_files := (local_files sim0)(KeyPath vm1 \<mapsto> ''PRIVATE KEY'')\<rparr>, clock = 0,
               trace = [Log Info ''Re-provisioning Vers VM (triggers changed)'', GetSSHKeyCall ''vm-1'',
                        MkdirAllCall ''/tmp/vers-tf-ssh-keys'', WriteFileCall (KeyPath vm1)]\<rparr>"
  have m: "Second < 3 * Minute"
    by (simp add: Minute_def Second_def)
  have w: "WaitReachable sim_env vm1 (3 * Minute) ?st2
             = (None, ?st2\<lparr>clock := clock ?st2 + Second,
                            trace := trace ?st2 @ [ProcStart ''ssh'' (sshBaseArgs vm1 @ [''echo ready''])]\<rparr>)"
    by (rule sim_WaitReachable) (simp_all add: sim0_world m)
  show ?thesis
    using w
    by (simp add: ProvisionResource_Update_def Update_provision_def Update_upload_def Update_run_def
          request_def provision_plan_def HasError_def Let_def sim0_world
          sim_GetSSHKey sim_NewSSHClient tflog_def emit_def start_def Cleanup_def)
qed

theorem update_skips_what_create_rejects_witness:
  "neither_set empty_block
   \<and> Files (Plan (request (provision_plan (ListValue [empty_block]) ListNull))) = ListValue ([] @ empty_block # [])
   \<and> map_option (\<lambda>(resp, st'). (Diagnostics resp, commands_run (trace st')))
       (ProvisionResource_Update sim_env (request (provision_plan (ListValue [empty_block]) ListNull)) (start sim0))
     = Some ([], [''echo ready''])
   \<and> Create_files sim_env vm1 0 [empty_block] (connected sim0) = Some (Some (file_block_error 0), connected sim0)
   \<and> map_option (\<lambda>(resp, st'). (Diagnostics resp, commands_run (trace st')))
       (ProvisionResource_Create sim_env (request (provision_plan (ListValue [empty_block]) ListNull)) (start sim0))
     = Some ([file_block_error 0], [''echo ready''])"
proof -
  let ?req = "request (provision_plan (ListValue [empty_block]) ListNull)"
  have a: "neither_set empty_block"
    by (simp add: neither_set_def empty_block_def)
  have b: "Files (Plan ?req) = ListValue ([] @ empty_block # [])"
    by (simp add: request_def provision_plan_def)
  note t = update_skips_what_create_rejects[OF a b, of sim_env "start sim0" vm1 0 "connected sim0"]
  have r: "?req\<lparr>Plan := (Plan ?req)\<lparr>Files := ListValue ([] @ [])\<rparr>\<rparr>
           = request (provision_plan (ListValue []) ListNull)"
    by (simp add: request_def provision_plan_def)
  have p: "(\<lambda>(resp, st'). (Diagnostics resp, commands_run (trace st')))
           = (\<lambda>(d, st'). (d, commands_run (trace st'))) \<circ> (\<lambda>(resp, st'). (Diagnostics resp, st'))"
    by (auto simp: fun_eq_iff)
  have u: "map_option (\<lambda>(resp, st'). (Diagnostics resp, commands_run (trace st')))
             (ProvisionResource_Update sim_env ?req (start sim0)) = Some ([], [''echo ready''])"
    unfolding p option.map_comp[symmetric] conjunct1[OF t] r
    unfolding option.map_comp p[symmetric] by (rule sim_Update_no_files)
  have c: "map_option (\<lambda>(resp, st'). (Diagnostics resp, commands_run (trace st')))
       (ProvisionResource_Create sim_env ?req (start sim0)) = Some ([file_block_error 0], [''echo ready''])"
    unfolding Create_after_connect[OF sim_Create_connect[OF sim0_world(1,2,3)]]
    by (simp add: Create_upload_def request_def provision_plan_def Create_files_neither[OF a]
          Cleanup_def emit_def connected_def del: Create_files.simps)
  from a b u c conjunct2[OF t] show ?thesis by simp
qed





subsection \<open>Which operations a timeout bounds\<close>

lemma Exec_never_returns:
  "(Exec env s c st = None) = never_exits (exec_Command env ''ssh'' (sshBaseArgs s @ [c]) (world st))"
  by (simp add: Exec_def Let_def never_exits_def split: option.splits)

lemma Exec_returns_at_exit:
  assumes "Exec env s c st = Some (r, st')"
    and "start_error (exec_Command env ''ssh'' (sshBaseArgs s @ [c]) (world st)) = None"
  shows "exit_after (exec_Command env ''ssh'' (sshBaseArgs s @ [c]) (world st)) = Some (nat (clock st' - clock st))
         \<and> since st st' = [ProcStart ''ssh'' (sshBaseArgs s @ [c])]"
  using assms
  by (auto simp: Exec_def Let_def emit_def since_def split: option.splits)

lemma WriteFile_write_never_returns:
  assumes "never_exits (exec_Command env ''ssh''
             (sshBaseArgs s @ [''echo '' @ [squote] @ EncodeToString content @ [squote] @ '' | base64 -d > ''
                               @ [squote] @ shellEscape remotePath @ [squote]]) (world st))"
  shows "WriteFile_write env s remotePath content st = None"
proof -
  have e: "Exec env s (''echo '' @ [squote] @ EncodeToString content @ [squote] @ '' | base64 -d > ''
                        @ [squote] @ shellEscape remotePath @ [squote]) st = None"
    unfolding Exec_never_returns by (rule assms)
  show ?thesis
    unfolding WriteFile_write_def Let_def e by simp
qed

text \<open>
  C6, as the code has it.  A command run by \<open>ExecWithTimeout\<close> always returns, no later
  than its timeout after it began.  The child is killed exactly when it was started and
  has not exited by then; the call then returns, at the timeout, the error
  \<open>SSH command timed out after\<close> the timeout together with what the child had written to
  its standard output so far.  A command run by \<open>Exec\<close> has no timeout: the call returns
  when the child exits, whenever that is, and never when the child never exits.  The two
  commands of \<open>WriteFile\<close>, the \<open>mkdir -p\<close> of the directory and the write itself, are
  run by \<open>Exec\<close>: \<open>WriteFile\<close> never returns when the first of them never exits.
\<close>

theorem timeout_bounds_ExecWithTimeout_not_Exec:
  assumes "p = exec_Command env ''ssh'' (sshBaseArgs s @ [c]) (world st)"
    and "ExecWithTimeout env s c t st = ((out, err), st')"
    and "mkdir = ''mkdir -p '' @ [squote] @ shellEscape (filepath_Dir remotePath) @ [squote]"
    and "write = ''echo '' @ [squote] @ EncodeToString content @ [squote] @ '' | base64 -d > ''
                 @ [squote] @ shellEscape remotePath @ [squote]"
  shows "clock st \<le> clock st' \<and> clock st' \<le> clock st + max 0 t
     \<and> (ProcKill \<in> set (since st st')) = (start_error p = None \<and> \<not> exits_first p (nat t))
     \<and> (start_error p = None \<and> \<not> exits_first p (nat t) \<longrightarrow>
            err = Some (''SSH command timed out after '' @ Duration_String t)
          \<and> out = stdout_by p (nat t)
          \<and> clock st' = clock st + max 0 t
          \<and> world st' = world_killed p (nat t))
     \<and> (Exec env s c st = None) = never_exits p
     \<and> (\<forall>r st''. Exec env s c st = Some (r, st'') \<and> start_error p = None \<longrightarrow>
            exit_after p = Some (nat (clock st'' - clock st)) \<and> ProcKill \<notin> set (since st st''))
     \<and> (filepath_Dir remotePath \<noteq> ''.'' \<and> filepath_Dir remotePath \<noteq> ''/''
          \<and> never_exits (exec_Command env ''ssh'' (sshBaseArgs s @ [mkdir]) (world st))
          \<longrightarrow> WriteFile env s remotePath content st = None)
     \<and> ((filepath_Dir remotePath = ''.'' \<or> filepath_Dir remotePath = ''/'')
          \<and> never_exits (exec_Command env ''ssh'' (sshBaseArgs s @ [write]) (world st))
          \<longrightarrow> WriteFile env s remotePath content st = None)"
proof -
  have bound: "clock st \<le> clock st' \<and> clock st' \<le> clock st + max 0 t"
    using assms(2)
    by (auto simp: ExecWithTimeout_def Let_def emit_def exits_first_def
             split: option.splits if_splits)
  have kill: "(ProcKill \<in> set (since st st')) = (start_error p = None \<and> \<not> exits_first p (nat t))"
    using assms(2) unfolding assms(1)
    by (auto simp: ExecWithTimeout_def Let_def emit_def since_def split: option.splits if_splits)
  have timed_out: "err = Some (''SSH command timed out after '' @ Duration_String t)
          \<and> out = stdout_by p (nat t)
          \<and> clock st' = clock st + max 0 t
          \<and> world st' = world_killed p (nat t)"
    if "start_error p = None \<and> \<not> exits_first p (nat t)"
    using assms(2) that unfolding assms(1)
    by (auto simp: ExecWithTimeout_def Let_def emit_def)
  have never: "(Exec env s c st = None) = never_exits p"
    unfolding assms(1) by (rule Exec_never_returns)
  have at_exit: "exit_after p = Some (nat (clock st'' - clock st)) \<and> ProcKill \<notin> set (since st st'')"
    if "Exec env s c st = Some (r, st'') \<and> start_error p = None" for r st''
    using Exec_returns_at_exit[of env s c st r st''] that unfolding assms(1) by simp
  have with_dir: "WriteFile env s remotePath content st = None"
    if "filepath_Dir remotePath \<noteq> ''.'' \<and> filepath_Dir remotePath \<noteq> ''/''
          \<and> never_exits (exec_Command env ''ssh'' (sshBaseArgs s @ [mkdir]) (world st))"
  proof -
    have e: "Exec env s (''mkdir -p '' @ [squote] @ shellEscape (filepath_Dir remotePath) @ [squote]) st = None"
      unfolding Exec_never_returns using that unfolding assms(3) by simp
    show ?thesis
      unfolding WriteFile_def Let_def e using that by simp
  qed
  have no_dir: "WriteFile env s remotePath content st = None"
    if "(filepath_Dir remotePath = ''.'' \<or> filepath_Dir remotePath = ''/'')
          \<and> never_exits (exec_Command env ''ssh'' (sshBaseArgs s @ [write]) (world st))"
  proof -
    have e: "WriteFile_write env s remotePath content st = None"
      using that unfolding assms(4) by (intro WriteFile_write_never_returns) simp
    show ?thesis
      unfolding WriteFile_def Let_def e using that by auto
  qed
  show ?thesis
    using bound kill timed_out never at_exit with_dir no_dir by blast
qed

lemma sim_ssh_stalled:
  assumes "vm_refusals w = 0" "vm_stalled w"
  shows "never_exits (exec_Command sim_env name args w)"
    and "start_error (exec_Command sim_env name args w) = None"
    and "\<not> exits_first (exec_Command sim_env name args w) t"
  using assms by (simp_all add: sim_os sim_ssh_def never_exits_def exits_first_def)

lemma sim_ExecWithTimeout_stalled:
  assumes "vm_refusals (world st) = 0" "vm_stalled (world st)"
  shows "ExecWithTimeout sim_env s c t st
         = (([], Some (''SSH command timed out after '' @ Duration_String t)),
            st\<lparr>clock := clock st + int (nat t),
               trace := trace st @ [ProcStart ''ssh'' (sshBaseArgs s @ [c]), ProcKill]\<rparr>)"
  using assms
  by (simp add: ExecWithTimeout_def Let_def sim_os sim_ssh_def exits_first_def emit_def)

theorem timeout_bounds_ExecWithTimeout_not_Exec_witness:
  "ExecWithTimeout sim_env vm1 ''sync'' (2 * Minute) (start (sim0\<lparr>vm_stalled := True\<rparr>))
     = (([], Some (''SSH command timed out after '' @ Duration_String (2 * Minute))),
        \<lparr>world = sim0\<lparr>vm_stalled := True\<rparr>, clock = 2 * Minute,
         trace = [ProcStart ''ssh'' (sshBaseArgs vm1 @ [''sync'']), ProcKill]\<rparr>)
   \<and> ProcKill \<in> set (since (start (sim0\<lparr>vm_stalled := True\<rparr>))
        \<lparr>world = sim0\<lparr>vm_stalled := True\<rparr>, clock = 2 * Minute,
         trace = [ProcStart ''ssh'' (sshBaseArgs vm1 @ [''sync'']), ProcKill]\<rparr>)
   \<and> Exec sim_env vm1 ''sync'' (start (sim0\<lparr>vm_stalled := True\<rparr>)) = None
   \<and> WriteFile sim_env vm1 ''/tmp/a.sh'' ''echo hi'' (start (sim0\<lparr>vm_stalled := True\<rparr>)) = None
   \<and> WriteFile sim_env vm1 ''a.sh'' ''echo hi'' (start (sim0\<lparr>vm_stalled := True\<rparr>)) = None
   \<and> ExecWithTimeout sim_env vm1 ''sync'' (2 * Minute) (start sim0)
       = (([], None),
          \<lparr>world = sim0, clock = Second, trace = [ProcStart ''ssh'' (sshBaseArgs vm1 @ [''sync''])]\<rparr>)
   \<and> Exec sim_env vm1 ''sync'' (start sim0)
       = Some (([], None),
          \<lparr>world = sim0, clock = Second, trace = [ProcStart ''ssh'' (sshBaseArgs vm1 @ [''sync''])]\<rparr>)
   \<and> exit_after (exec_Command sim_env ''ssh'' (sshBaseArgs vm1 @ [''sync'']) (world (start sim0)))
       = Some (nat (clock \<lparr>world = sim0, clock = Second,
                            trace = [ProcStart ''ssh'' (sshBaseArgs vm1 @ [''sync''])]\<rparr>
                    - clock (start sim0)))
   \<and> ProcKill \<notin> set (since (start sim0)
        \<lparr>world = sim0, clock = Second, trace = [ProcStart ''ssh'' (sshBaseArgs vm1 @ [''sync''])]\<rparr>)"
proof -
  define st where "st = start (sim0\<lparr>vm_stalled := True\<rparr>)"
  define st' where "st' = \<lparr>world = sim0\<lparr>vm_stalled := True\<rparr>, clock = 2 * Minute,
         trace = [ProcStart ''ssh'' (sshBaseArgs vm1 @ [''sync'']), ProcKill]\<rparr>"
  define path where "path = ''/tmp/a.sh''"
  define name where "name = ''a.sh''"
  have w: "vm_refusals (world st) = 0" "vm_stalled (world st)"
    by (simp_all add: st_def start_def sim0_def)
  have x: "ExecWithTimeout sim_env vm1 ''sync'' (2 * Minute) st
     = (([], Some (''SSH command timed out after '' @ Duration_String (2 * Minute))), st')"
    unfolding sim_ExecWithTimeout_stalled[OF w]
    by (simp add: st_def st'_def start_def Minute_def Second_def)
  have d: "filepath_Dir path \<noteq> ''.''" "filepath_Dir path \<noteq> ''/''" "filepath_Dir name = ''.''"
    by (simp_all add: path_def name_def filepath_Dir_def Clean_def clean_step_def)
  note t = timeout_bounds_ExecWithTimeout_not_Exec[OF refl x refl refl, of path "''echo hi''",
              THEN conjunct2, THEN conjunct2]
  note t' = timeout_bounds_ExecWithTimeout_not_Exec[OF refl x refl refl, of name "''echo hi''",
              THEN conjunct2, THEN conjunct2]
  have k: "ProcKill \<in> set (since st st')"
    using t[THEN conjunct1] sim_ssh_stalled(2,3)[OF w] by simp
  have e: "Exec sim_env vm1 ''sync'' st = None"
    using t[THEN conjunct2, THEN conjunct2, THEN conjunct1] sim_ssh_stalled(1)[OF w]
    by simp
  have f: "WriteFile sim_env vm1 path ''echo hi'' st = None"
    using t[THEN conjunct2, THEN conjunct2, THEN conjunct2, THEN conjunct2, THEN conjunct1]
      sim_ssh_stalled(1)[OF w] d(1,2)
    by simp
  have g: "WriteFile sim_env vm1 name ''echo hi'' st = None"
    using t'[THEN conjunct2, THEN conjunct2, THEN conjunct2, THEN conjunct2, THEN conjunct2]
      sim_ssh_stalled(1)[OF w] d(3)
    by simp
  define su where "su = start sim0"
  define su' where "su' = \<lparr>world = sim0, clock = Second,
                             trace = [ProcStart ''ssh'' (sshBaseArgs vm1 @ [''sync''])]\<rparr>"
  have wu: "vm_refusals (world su) = 0" "\<not> vm_stalled (world su)"
    by (simp_all add: su_def start_def sim0_def)
  have two: "Second < 2 * Minute"
    by (simp add: Minute_def Second_def)
  have xu: "ExecWithTimeout sim_env vm1 ''sync'' (2 * Minute) su = (([], None), su')"
    unfolding sim_ExecWithTimeout[OF wu two]
    by (simp add: sh_simple su_def su'_def start_def sim0_def)
  have eu: "Exec sim_env vm1 ''sync'' su = Some (([], None), su')"
    unfolding sim_Exec[OF wu]
    by (simp add: sh_simple su_def su'_def start_def sim0_def)
  have pu: "start_error (exec_Command sim_env ''ssh'' (sshBaseArgs vm1 @ [''sync'']) (world su)) = None"
    using wu by (simp add: sim_os sim_ssh_def split: prod.splits)
  note u = timeout_bounds_ExecWithTimeout_not_Exec[OF refl xu refl refl, of path "''echo hi''",
              THEN conjunct2, THEN conjunct2, THEN conjunct2, THEN conjunct2, THEN conjunct2,
              THEN conjunct1, rule_format, OF conjI[OF eu pu]]
  show ?thesis
    using x k e f g xu eu u[THEN conjunct1] u[THEN conjunct2]
    unfolding st_def st'_def path_def name_def su_def su'_def by (intro conjI)
qed

text \<open>
  C6 as stated fails for the commands of a file upload.  On a VM that accepts the
  connection and then never answers, neither the \<open>mkdir -p\<close> nor the write of a file ever
  returns, and so no upload does: no timer runs and nothing kills the child.
\<close>

theorem upload_to_stalled_vm_never_returns:
  "Exec sim_env vm1 (''mkdir -p '' @ [squote] @ ''/tmp'' @ [squote]) (start (sim0\<lparr>vm_stalled := True\<rparr>)) = None
   \<and> WriteFile sim_env vm1 ''/tmp/a.sh'' ''echo hi'' (start (sim0\<lparr>vm_stalled := True\<rparr>)) = None
   \<and> WriteFile sim_env vm1 ''a.sh'' ''echo hi'' (start (sim0\<lparr>vm_stalled := True\<rparr>)) = None
   \<and> ReadFile sim_env vm1 ''/tmp/a.sh'' (start (sim0\<lparr>vm_stalled := True\<rparr>)) = None"
proof -
  define st where "st = start (sim0\<lparr>vm_stalled := True\<rparr>)"
  have w: "vm_refusals (world st) = 0" "vm_stalled (world st)"
    by (simp_all add: st_def start_def sim0_def)
  have e: "Exec sim_env vm1 c st = None" for c
    unfolding Exec_never_returns by (rule sim_ssh_stalled(1)[OF w])
  have d: "filepath_Dir ''/tmp/a.sh'' = ''/tmp''" "filepath_Dir ''a.sh'' = ''.''"
    by (simp_all add: filepath_Dir_def Clean_def clean_step_def)
  have a: "WriteFile sim_env vm1 ''/tmp/a.sh'' ''echo hi'' st = None"
    unfolding WriteFile_def Let_def d e by simp
  have b: "WriteFile sim_env vm1 ''a.sh'' ''echo hi'' st = None"
    unfolding WriteFile_def WriteFile_write_def Let_def d e by simp
  have c: "ReadFile sim_env vm1 ''/tmp/a.sh'' st = None"
    unfolding ReadFile_def by (rule e)
  show ?thesis
    using e[of "''mkdir -p '' @ [squote] @ ''/tmp'' @ [squote]"] a b c unfolding st_def by (intro conjI)
qed


subsection \<open>Waiting for the VM\<close>

lemma clock_probe: "clock st \<le> clock (snd (probe env s st))"
  by (simp add: probe_def ExecWithTimeout_def Let_def emit_def split: option.splits)

lemma clock_next_round: "clock st < clock (next_round env s st)"
  using clock_probe[of st env s] by (simp add: next_round_def time_Sleep_def emit_def Second_def)

lemma clock_rounds_mono: "j \<le> k \<Longrightarrow> clock ((next_round env s ^^ j) st) \<le> clock ((next_round env s ^^ k) st)"
proof (induction k)
  case 0
  then show ?case by simp
next
  case (Suc k)
  show ?case
  proof (cases "j = Suc k")
    case True
    then show ?thesis by simp
  next
    case False
    with Suc have "clock ((next_round env s ^^ j) st) \<le> clock ((next_round env s ^^ k) st)"
      by simp
    with clock_next_round[of "(next_round env s ^^ k) st" env s] show ?thesis
      by simp
  qed
qed

lemma WaitReachable_loop_step:
  assumes "clock st < deadline" "\<not> probe_ok (fst (probe env s st))"
  shows "WaitReachable_loop env s deadline lastErr st
           = WaitReachable_loop env s deadline (snd (fst (probe env s st))) (next_round env s st)"
  using assms
  by (auto simp: WaitReachable_loop.simps[of env s deadline lastErr st] probe_def next_round_def
           split: prod.splits)

lemma WaitReachable_loop_success:
  assumes "clock st < deadline" "probe_ok (fst (probe env s st))"
  shows "WaitReachable_loop env s deadline lastErr st = ((True, None), snd (probe env s st))"
  using assms
  by (auto simp: WaitReachable_loop.simps[of env s deadline lastErr st] probe_def split: prod.splits)

lemma WaitReachable_loop_late:
  assumes "\<not> clock st < deadline"
  shows "WaitReachable_loop env s deadline lastErr st = ((False, lastErr), st)"
  using assms by (simp add: WaitReachable_loop.simps[of env s deadline lastErr st])

lemma WaitReachable_loop_first_success:
  assumes "\<forall>j<k. \<not> probe_ok (fst (probe env s ((next_round env s ^^ j) st)))"
    and "probe_ok (fst (probe env s ((next_round env s ^^ k) st)))"
    and "clock ((next_round env s ^^ k) st) < deadline"
  shows "WaitReachable_loop env s deadline lastErr st
           = ((True, None), snd (probe env s ((next_round env s ^^ k) st)))"
  using assms
proof (induction k arbitrary: st lastErr)
  case 0
  then show ?case by (simp add: WaitReachable_loop_success)
next
  case (Suc k)
  have c: "clock st < deadline"
    using clock_rounds_mono[of 0 "Suc k" env s st] Suc.prems(3) by simp
  have f: "\<not> probe_ok (fst (probe env s st))"
    using Suc.prems(1) by auto
  have "\<forall>j<k. \<not> probe_ok (fst (probe env s ((next_round env s ^^ j) (next_round env s st))))"
  proof (intro allI impI)
    fix j
    assume "j < k"
    then have "Suc j < Suc k" by simp
    from Suc.prems(1)[rule_format, OF this]
    show "\<not> probe_ok (fst (probe env s ((next_round env s ^^ j) (next_round env s st))))"
      by (simp add: funpow_swap1)
  qed
  moreover have "probe_ok (fst (probe env s ((next_round env s ^^ k) (next_round env s st))))"
    using Suc.prems(2) by (simp add: funpow_swap1)
  moreover have "clock ((next_round env s ^^ k) (next_round env s st)) < deadline"
    using Suc.prems(3) by (simp add: funpow_swap1)
  ultimately have "WaitReachable_loop env s deadline (snd (fst (probe env s st))) (next_round env s st)
      = ((True, None), snd (probe env s ((next_round env s ^^ k) (next_round env s st))))"
    by (rule Suc.IH)
  then show ?case
    unfolding WaitReachable_loop_step[OF c f] by (simp add: funpow_swap1)
qed

lemma WaitReachable_loop_no_success:
  assumes "\<forall>k. clock ((next_round env s ^^ k) st) < deadline
               \<longrightarrow> \<not> probe_ok (fst (probe env s ((next_round env s ^^ k) st)))"
  shows "\<exists>n. (\<forall>j<n. clock ((next_round env s ^^ j) st) < deadline)
           \<and> deadline \<le> clock ((next_round env s ^^ n) st)
           \<and> WaitReachable_loop env s deadline lastErr st
               = ((False, if n = 0 then lastErr
                          else snd (fst (probe env s ((next_round env s ^^ (n - 1)) st)))),
                  (next_round env s ^^ n) st)"
  using assms
proof (induction "nat (deadline - clock st)" arbitrary: st lastErr rule: less_induct)
  case less
  show ?case
  proof (cases "clock st < deadline")
    case False
    then have "WaitReachable_loop env s deadline lastErr st = ((False, lastErr), st)"
      by (rule WaitReachable_loop_late)
    with False show ?thesis
      by (intro exI[of _ 0]) simp
  next
    case True
    have f: "\<not> probe_ok (fst (probe env s st))"
      using less.prems[rule_format, of 0] True by simp
    have m: "nat (deadline - clock (next_round env s st)) < nat (deadline - clock st)"
      using clock_next_round[of st env s] True by simp
    have p: "\<forall>k. clock ((next_round env s ^^ k) (next_round env s st)) < deadline
               \<longrightarrow> \<not> probe_ok (fst (probe env s ((next_round env s ^^ k) (next_round env s st))))"
    proof (intro allI impI)
      fix k
      assume "clock ((next_round env s ^^ k) (next_round env s st)) < deadline"
      then have "clock ((next_round env s ^^ Suc k) st) < deadline"
        by (simp add: funpow_swap1)
      from less.prems[rule_format, OF this]
      show "\<not> probe_ok (fst (probe env s ((next_round env s ^^ k) (next_round env s st))))"
        by (simp add: funpow_swap1)
    qed
    from less.hyps[OF m p, of "snd (fst (probe env s st))"]
    obtain n where n: "\<forall>j<n. clock ((next_round env s ^^ j) (next_round env s st)) < deadline"
        "deadline \<le> clock ((next_round env s ^^ n) (next_round env s st))"
        "WaitReachable_loop env s deadline (snd (fst (probe env s st))) (next_round env s st)
           = ((False, if n = 0 then snd (fst (probe env s st))
                      else snd (fst (probe env s ((next_round env s ^^ (n - 1)) (next_round env s st))))),
              (next_round env s ^^ n) (next_round env s st))"
      by blast
    have a: "\<forall>j<Suc n. clock ((next_round env s ^^ j) st) < deadline"
    proof (intro allI impI)
      fix j assume j: "j < Suc n"
      show "clock ((next_round env s ^^ j) st) < deadline"
      proof (cases j)
        case 0
        then show ?thesis using True by simp
      next
        case (Suc i)
        then have "i < n" using j by simp
        with n(1) have "clock ((next_round env s ^^ i) (next_round env s st)) < deadline"
          by simp
        then show ?thesis
          unfolding Suc by (simp add: funpow_swap1)
      qed
    qed
    have b: "deadline \<le> clock ((next_round env s ^^ Suc n) st)"
      using n(2) by (simp add: funpow_swap1)
    have e: "(if n = 0 then snd (fst (probe env s st))
              else snd (fst (probe env s ((next_round env s ^^ (n - 1)) (next_round env s st)))))
           = snd (fst (probe env s ((next_round env s ^^ n) st)))"
    proof (cases n)
      case 0
      then show ?thesis by simp
    next
      case (Suc i)
      then show ?thesis by (simp add: funpow_swap1)
    qed
    have c: "WaitReachable_loop env s deadline lastErr st
               = ((False, if Suc n = 0 then lastErr
                          else snd (fst (probe env s ((next_round env s ^^ (Suc n - 1)) st)))),
                  (next_round env s ^^ Suc n) st)"
      unfolding WaitReachable_loop_step[OF True f] n(3) e by (simp add: funpow_swap1)
    from a b c show ?thesis
      by (intro exI[of _ "Suc n"] conjI)
  qed
qed

text \<open>
  C7.  \<open>WaitReachable\<close> probes in rounds: a probe, and after a failed one a sleep of three
  seconds.  When some probe of that sequence succeeds before the deadline, the call
  returns without error in the state in which the first successful probe ended, and that
  is before the deadline.  When no probe that begins before the deadline succeeds, the
  call returns the error \<open>not reachable via SSH after\<close> the timeout, followed by the error of
  the last probe when there was a probe and it had one, and it returns at the first round
  that begins at or after the deadline: not before the timeout has elapsed.
\<close>

theorem WaitReachable_success_before_and_failure_after_the_deadline:
  assumes "deadline = clock st + timeout"
  shows "(\<forall>k. probe_ok (fst (probe env s ((next_round env s ^^ k) st)))
             \<and> clock (snd (probe env s ((next_round env s ^^ k) st))) < deadline
           \<longrightarrow> (\<exists>k0\<le>k. (\<forall>j<k0. \<not> probe_ok (fst (probe env s ((next_round env s ^^ j) st))))
                  \<and> probe_ok (fst (probe env s ((next_round env s ^^ k0) st)))
                  \<and> WaitReachable env s timeout st = (None, snd (probe env s ((next_round env s ^^ k0) st)))
                  \<and> clock (snd (WaitReachable env s timeout st)) < deadline))
       \<and> ((\<forall>k. clock ((next_round env s ^^ k) st) < deadline
                \<longrightarrow> \<not> probe_ok (fst (probe env s ((next_round env s ^^ k) st))))
           \<longrightarrow> (\<exists>n. (\<forall>j<n. clock ((next_round env s ^^ j) st) < deadline)
                  \<and> WaitReachable env s timeout st
                      = (Some (''VM '' @ ssh_VMID s @ '' not reachable via SSH after '' @ Duration_String timeout
                               @ (if n = 0 then []
                                  else (case snd (fst (probe env s ((next_round env s ^^ (n - 1)) st))) of
                                          None \<Rightarrow> []
                                        | Some e \<Rightarrow> '': '' @ e))),
                         (next_round env s ^^ n) st)
                  \<and> clock st + timeout \<le> clock (snd (WaitReachable env s timeout st))))"
proof (intro conjI allI impI)
  fix k
  assume h: "probe_ok (fst (probe env s ((next_round env s ^^ k) st)))
             \<and> clock (snd (probe env s ((next_round env s ^^ k) st))) < deadline"
  define k0 where "k0 = (LEAST i. probe_ok (fst (probe env s ((next_round env s ^^ i) st))))"
  have ok: "probe_ok (fst (probe env s ((next_round env s ^^ k0) st)))"
    unfolding k0_def using h by (metis (mono_tags, lifting) LeastI)
  have le: "k0 \<le> k"
    unfolding k0_def using h by (simp add: Least_le)
  have first: "\<forall>j<k0. \<not> probe_ok (fst (probe env s ((next_round env s ^^ j) st)))"
    unfolding k0_def using not_less_Least by blast
  have "clock (snd (probe env s ((next_round env s ^^ k0) st))) \<le> clock (snd (probe env s ((next_round env s ^^ k) st)))"
  proof (cases "k0 = k")
    case True
    then show ?thesis by simp
  next
    case False
    with le have "Suc k0 \<le> k" by simp
    from clock_rounds_mono[OF this, of env s st]
    have "clock (next_round env s ((next_round env s ^^ k0) st)) \<le> clock ((next_round env s ^^ k) st)"
      by simp
    moreover have "clock (snd (probe env s ((next_round env s ^^ k0) st)))
                     \<le> clock (next_round env s ((next_round env s ^^ k0) st))"
      by (simp add: next_round_def time_Sleep_def emit_def Second_def)
    ultimately show ?thesis
      using clock_probe[of "(next_round env s ^^ k) st" env s] by simp
  qed
  with h have ended: "clock (snd (probe env s ((next_round env s ^^ k0) st))) < deadline"
    by simp
  then have begun: "clock ((next_round env s ^^ k0) st) < deadline"
    using clock_probe[of "(next_round env s ^^ k0) st" env s] by simp
  have "WaitReachable_loop env s deadline None st
          = ((True, None), snd (probe env s ((next_round env s ^^ k0) st)))"
    by (rule WaitReachable_loop_first_success[OF first ok begun])
  then have w: "WaitReachable env s timeout st = (None, snd (probe env s ((next_round env s ^^ k0) st)))"
    by (simp add: WaitReachable_def assms[symmetric])
  show "\<exists>k0\<le>k. (\<forall>j<k0. \<not> probe_ok (fst (probe env s ((next_round env s ^^ j) st))))
                  \<and> probe_ok (fst (probe env s ((next_round env s ^^ k0) st)))
                  \<and> WaitReachable env s timeout st = (None, snd (probe env s ((next_round env s ^^ k0) st)))
                  \<and> clock (snd (WaitReachable env s timeout st)) < deadline"
    using le first ok w ended by (intro exI[of _ k0]) simp
next
  assume h: "\<forall>k. clock ((next_round env s ^^ k) st) < deadline
                \<longrightarrow> \<not> probe_ok (fst (probe env s ((next_round env s ^^ k) st)))"
  from WaitReachable_loop_no_success[OF h, of None]
  obtain n where n: "\<forall>j<n. clock ((next_round env s ^^ j) st) < deadline"
      "deadline \<le> clock ((next_round env s ^^ n) st)"
      "WaitReachable_loop env s deadline None st
         = ((False, if n = 0 then None
                    else snd (fst (probe env s ((next_round env s ^^ (n - 1)) st)))),
            (next_round env s ^^ n) st)"
    by blast
  have w: "WaitReachable env s timeout st
      = (Some (''VM '' @ ssh_VMID s @ '' not reachable via SSH after '' @ Duration_String timeout
               @ (if n = 0 then []
                  else (case snd (fst (probe env s ((next_round env s ^^ (n - 1)) st))) of
                          None \<Rightarrow> []
                        | Some e \<Rightarrow> '': '' @ e))),
         (next_round env s ^^ n) st)"
    unfolding WaitReachable_def Let_def assms[symmetric] n(3)
    by (simp split: option.splits)
  show "\<exists>n. (\<forall>j<n. clock ((next_round env s ^^ j) st) < deadline)
                  \<and> WaitReachable env s timeout st
                      = (Some (''VM '' @ ssh_VMID s @ '' not reachable via SSH after '' @ Duration_String timeout
                               @ (if n = 0 then []
                                  else (case snd (fst (probe env s ((next_round env s ^^ (n - 1)) st))) of
                                          None \<Rightarrow> []
                                        | Some e \<Rightarrow> '': '' @ e))),
                         (next_round env s ^^ n) st)
                  \<and> clock st + timeout \<le> clock (snd (WaitReachable env s timeout st))"
    using n(1,2) w assms by (intro exI[of _ n]) simp
qed

lemma sim_probe:
  "0 < vm_refusals (world st) \<Longrightarrow>
     probe sim_env s st
       = (([], Some (''SSH exec failed: exit status 255'' @ [newline] @ ''stderr: ssh: connection refused'')),
          st\<lparr>world := (world st)\<lparr>vm_refusals := vm_refusals (world st) - 1\<rparr>,
             clock := clock st + Second,
             trace := trace st @ [ProcStart ''ssh'' (sshBaseArgs s @ [''echo ready''])]\<rparr>)"
  "vm_refusals (world st) = 0 \<Longrightarrow> \<not> vm_stalled (world st) \<Longrightarrow>
     probe sim_env s st
       = ((''ready'' @ [newline], None),
          st\<lparr>clock := clock st + Second,
             trace := trace st @ [ProcStart ''ssh'' (sshBaseArgs s @ [''echo ready''])]\<rparr>)"
  "vm_refusals (world st) = 0 \<Longrightarrow> vm_stalled (world st) \<Longrightarrow>
     probe sim_env s st
       = (([], Some (''SSH command timed out after '' @ Duration_String (15 * Second))),
          st\<lparr>clock := clock st + 15 * Second,
             trace := trace st @ [ProcStart ''ssh'' (sshBaseArgs s @ [''echo ready'']), ProcKill]\<rparr>)"
proof -
  have m: "Second < 15 * Second"
    by (simp add: Second_def)
  show "0 < vm_refusals (world st) \<Longrightarrow>
     probe sim_env s st
       = (([], Some (''SSH exec failed: exit status 255'' @ [newline] @ ''stderr: ssh: connection refused'')),
          st\<lparr>world := (world st)\<lparr>vm_refusals := vm_refusals (world st) - 1\<rparr>,
             clock := clock st + Second,
             trace := trace st @ [ProcStart ''ssh'' (sshBaseArgs s @ [''echo ready''])]\<rparr>)"
    unfolding probe_def by (rule sim_ExecWithTimeout_refused[OF _ m])
  show "vm_refusals (world st) = 0 \<Longrightarrow> \<not> vm_stalled (world st) \<Longrightarrow>
     probe sim_env s st
       = ((''ready'' @ [newline], None),
          st\<lparr>clock := clock st + Second,
             trace := trace st @ [ProcStart ''ssh'' (sshBaseArgs s @ [''echo ready''])]\<rparr>)"
    unfolding probe_def using sim_ExecWithTimeout[OF _ _ m, of st s "''echo ready''"]
    by (simp add: sh_simple)
  show "vm_refusals (world st) = 0 \<Longrightarrow> vm_stalled (world st) \<Longrightarrow>
     probe sim_env s st
       = (([], Some (''SSH command timed out after '' @ Duration_String (15 * Second))),
          st\<lparr>clock := clock st + 15 * Second,
             trace := trace st @ [ProcStart ''ssh'' (sshBaseArgs s @ [''echo ready'']), ProcKill]\<rparr>)"
    unfolding probe_def using sim_ExecWithTimeout_stalled[of st s "''echo ready''" "15 * Second"]
    by (simp add: Second_def)
qed

lemma sim_rounds_stalled:
  assumes "vm_refusals (world st) = 0" "vm_stalled (world st)"
  shows "world ((next_round sim_env s ^^ k) st) = world st"
proof (induction k)
  case 0
  show ?case by simp
next
  case (Suc k)
  have w: "vm_refusals (world ((next_round sim_env s ^^ k) st)) = 0"
      "vm_stalled (world ((next_round sim_env s ^^ k) st))"
    using Suc assms by simp_all
  have "world (next_round sim_env s ((next_round sim_env s ^^ k) st)) = world ((next_round sim_env s ^^ k) st)"
    unfolding next_round_def sim_probe(3)[OF w] by (simp add: time_Sleep_def emit_def)
  with Suc show ?case
    by simp
qed

lemma sim_probe_never_ok:
  assumes "vm_refusals (world st) = 0" "vm_stalled (world st)"
  shows "\<not> probe_ok (fst (probe sim_env s ((next_round sim_env s ^^ k) st)))"
proof -
  have w: "vm_refusals (world ((next_round sim_env s ^^ k) st)) = 0"
      "vm_stalled (world ((next_round sim_env s ^^ k) st))"
    using assms by (simp_all add: sim_rounds_stalled)
  show ?thesis
    unfolding sim_probe(3)[OF w] by (simp add: probe_ok_def)
qed

theorem WaitReachable_success_before_and_failure_after_the_deadline_witness:
  "probe_ok (fst (probe sim_env vm1 ((next_round sim_env vm1 ^^ 1) (start (sim0\<lparr>vm_refusals := 1\<rparr>)))))
   \<and> clock (snd (probe sim_env vm1 ((next_round sim_env vm1 ^^ 1) (start (sim0\<lparr>vm_refusals := 1\<rparr>)))))
       < clock (start (sim0\<lparr>vm_refusals := 1\<rparr>)) + 3 * Minute
   \<and> fst (WaitReachable sim_env vm1 (3 * Minute) (start (sim0\<lparr>vm_refusals := 1\<rparr>))) = None
   \<and> clock (snd (WaitReachable sim_env vm1 (3 * Minute) (start (sim0\<lparr>vm_refusals := 1\<rparr>)))) = 5 * Second
   \<and> (\<forall>k. \<not> probe_ok (fst (probe sim_env vm1
               ((next_round sim_env vm1 ^^ k) (start (sim0\<lparr>vm_stalled := True\<rparr>))))))
   \<and> fst (WaitReachable sim_env vm1 (30 * Second) (start (sim0\<lparr>vm_stalled := True\<rparr>))) \<noteq> None
   \<and> clock (start (sim0\<lparr>vm_stalled := True\<rparr>)) + 30 * Second
       \<le> clock (snd (WaitReachable sim_env vm1 (30 * Second) (start (sim0\<lparr>vm_stalled := True\<rparr>))))"
proof -
  define st where "st = start (sim0\<lparr>vm_refusals := 1\<rparr>)"
  define r1 where "r1 = \<lparr>world = sim0, clock = 4 * Second,
       trace = [ProcStart ''ssh'' (sshBaseArgs vm1 @ [''echo ready'']), Sleep (3 * Second)]\<rparr>"
  have w0: "0 < vm_refusals (world st)"
    by (simp add: st_def start_def)
  have n1: "next_round sim_env vm1 st = r1"
    unfolding next_round_def sim_probe(1)[OF w0]
    by (simp add: time_Sleep_def emit_def st_def r1_def start_def sim0_def Second_def)
  have f0: "\<not> probe_ok (fst (probe sim_env vm1 st))"
    unfolding sim_probe(1)[OF w0] by (simp add: probe_ok_def)
  have w1: "vm_refusals (world r1) = 0" "\<not> vm_stalled (world r1)"
    by (simp_all add: r1_def sim0_def)
  have r: "(next_round sim_env vm1 ^^ 1) st = r1"
    by (simp add: n1)
  have ok1: "probe_ok (fst (probe sim_env vm1 ((next_round sim_env vm1 ^^ 1) st)))"
    unfolding r sim_probe(2)[OF w1] using probe_ok_ready by simp
  have c1: "clock (snd (probe sim_env vm1 ((next_round sim_env vm1 ^^ 1) st))) = 5 * Second"
    unfolding r sim_probe(2)[OF w1] by (simp add: r1_def Second_def)
  have c0: "clock st = 0"
    by (simp add: st_def start_def)
  have before: "clock (snd (probe sim_env vm1 ((next_round sim_env vm1 ^^ 1) st))) < clock st + 3 * Minute"
    unfolding c1 c0 by (simp add: Minute_def Second_def)
  from WaitReachable_success_before_and_failure_after_the_deadline[OF refl, of sim_env vm1 st "3 * Minute",
         THEN conjunct1, rule_format, OF conjI[OF ok1 before]]
  obtain k0 where k0: "k0 \<le> 1"
      "\<forall>j<k0. \<not> probe_ok (fst (probe sim_env vm1 ((next_round sim_env vm1 ^^ j) st)))"
      "probe_ok (fst (probe sim_env vm1 ((next_round sim_env vm1 ^^ k0) st)))"
      "WaitReachable sim_env vm1 (3 * Minute) st
         = (None, snd (probe sim_env vm1 ((next_round sim_env vm1 ^^ k0) st)))"
    by blast
  have "k0 \<noteq> 0"
    using k0(3) f0 by (cases k0) auto
  with k0(1) have k: "k0 = 1" by simp
  have a: "fst (WaitReachable sim_env vm1 (3 * Minute) st) = None"
      "clock (snd (WaitReachable sim_env vm1 (3 * Minute) st)) = 5 * Second"
    using k0(4) c1 unfolding k by simp_all
  define sst where "sst = start (sim0\<lparr>vm_stalled := True\<rparr>)"
  have ws: "vm_refusals (world sst) = 0" "vm_stalled (world sst)"
    by (simp_all add: sst_def start_def sim0_def)
  have never: "\<forall>k. \<not> probe_ok (fst (probe sim_env vm1 ((next_round sim_env vm1 ^^ k) sst)))"
    using sim_probe_never_ok[OF ws] by blast
  then have h: "\<forall>k. clock ((next_round sim_env vm1 ^^ k) sst) < clock sst + 30 * Second
             \<longrightarrow> \<not> probe_ok (fst (probe sim_env vm1 ((next_round sim_env vm1 ^^ k) sst)))"
    by blast
  from WaitReachable_success_before_and_failure_after_the_deadline[OF refl, of sim_env vm1 sst "30 * Second",
         THEN conjunct2, THEN mp, OF h]
  obtain n e where n: "WaitReachable sim_env vm1 (30 * Second) sst = (Some e, (next_round sim_env vm1 ^^ n) sst)"
      "clock sst + 30 * Second \<le> clock (snd (WaitReachable sim_env vm1 (30 * Second) sst))"
    by blast
  have b: "fst (WaitReachable sim_env vm1 (30 * Second) sst) \<noteq> None"
    using n(1) by simp
  show ?thesis
    using ok1 before a never b n(2) unfolding st_def sst_def by (intro conjI)
qed


subsection \<open>The fingerprint of a provisioning declaration\<close>

lemma file_hash_input_content:
  "file_hash_input env w f = ValueString (Destination f) @ file_content env w f"
  by (simp add: file_hash_input_def file_content_def)

lemma hash_input_parts:
  "hash_input env w plan
     = ValueString (VMID plan)
       @ concat (map (file_hash_input env w) (list_elements (Files plan)))
       @ concat (list_elements (Commands plan))
       @ trigger_hash_input (map_entries (Triggers plan))"
  by (simp add: hash_input_def list_elements_def map_entries_def trigger_hash_input_def
           split: tf_list.splits tf_map.splits)

lemma map_insort_key: "map f (insort_key f x xs) = insort (f x) (map f xs)"
  by (induction xs) simp_all

lemma map_sort_key: "map f (sort_key f xs) = sort (map f xs)"
  by (induction xs) (simp_all add: map_insort_key)

lemma trigger_hash_input_sorted:
  assumes "distinct (map fst ts)" and "sort_key fst ts = sort_key fst ts'"
  shows "trigger_hash_input ts = trigger_hash_input ts'"
proof -
  have keys: "sort (map fst ts) = sort (map fst ts')"
    using assms(2) by (metis map_sort_key)
  have s: "set ts = set ts'"
    using assms(2) by (metis set_sort)
  have "distinct (sort (map fst ts'))"
    using assms(1) keys by (metis distinct_sort)
  then have d: "distinct (map fst ts')"
    by simp
  have "map_of ts = map_of ts'"
    using assms(1) d s by (simp add: map_of_inject_set)
  with keys show ?thesis
    by (simp add: trigger_hash_input_def)
qed

lemma concat_one_changed:
  assumes "xs = a @ k # b" "k \<notin> set a" "k \<notin> set b"
    and "\<forall>x. x \<noteq> k \<longrightarrow> g x = g' x" and "g k \<noteq> g' k"
  shows "concat (map g xs) \<noteq> concat (map g' xs)"
proof -
  have e: "map g a = map g' a" "map g b = map g' b"
    using assms(2,3,4) by (auto intro!: map_cong)
  show ?thesis
    unfolding assms(1) using assms(5) by (simp add: e)
qed

lemma trigger_hash_input_value:
  assumes "distinct (map fst (a @ (k, v) # b))" and "ValueString v \<noteq> ValueString v'"
  shows "trigger_hash_input (a @ (k, v') # b) \<noteq> trigger_hash_input (a @ (k, v) # b)"
proof -
  let ?ts = "a @ (k, v) # b" and ?ts' = "a @ (k, v') # b"
  let ?g = "\<lambda>ts x. x @ (case map_of ts x of Some v \<Rightarrow> ValueString v | None \<Rightarrow> [])"
  have keys: "map fst ?ts' = map fst ?ts"
    by simp
  have k: "k \<notin> fst ` set a" "k \<notin> fst ` set b"
    using assms(1) by auto
  have at_k: "map_of ?ts k = Some v" "map_of ?ts' k = Some v'"
    using k by (simp_all add: map_add_Some_iff map_of_eq_None_iff)
  have other: "map_of ?ts' x = map_of ?ts x" if "x \<noteq> k" for x
    using that by (simp add: map_add_def split: option.splits)
  have "k \<in> set (sort (map fst ?ts))"
    by simp
  then obtain A B where AB: "sort (map fst ?ts) = A @ k # B"
    by (meson split_list)
  have "distinct (sort (map fst ?ts))"
    using assms(1) by (metis distinct_sort)
  then have nk: "k \<notin> set A" "k \<notin> set B"
    unfolding AB by simp_all
  have "concat (map (?g ?ts') (sort (map fst ?ts))) \<noteq> concat (map (?g ?ts) (sort (map fst ?ts)))"
  proof (rule concat_one_changed[OF AB nk])
    show "\<forall>x. x \<noteq> k \<longrightarrow> ?g ?ts' x = ?g ?ts x"
      using other by simp
    show "?g ?ts' k \<noteq> ?g ?ts k"
      unfolding at_k using assms(2) by simp
  qed
  then show ?thesis
    unfolding trigger_hash_input_def keys .
qed

lemma hexdigit_inj:
  assumes "a < 16" "b < 16" "hexdigit a = hexdigit b"
  shows "a = b"
proof -
  have "of_char (hexdigit n) = (if n < 10 then 48 + n else 87 + n)" if "n < 16" for n :: nat
    using that by (simp add: hexdigit_def)
  with assms have "(if a < 10 then 48 + a else 87 + a) = (if b < 10 then 48 + b else 87 + b)"
    by metis
  with assms(1,2) show ?thesis
    by (simp split: if_splits)
qed

lemma hex_byte_inj:
  assumes "hexdigit ((of_char x :: nat) div 16) = hexdigit ((of_char y :: nat) div 16)"
    and "hexdigit ((of_char x :: nat) mod 16) = hexdigit ((of_char y :: nat) mod 16)"
  shows "x = y"
proof -
  have b: "(of_char x :: nat) < 256" "(of_char y :: nat) < 256"
    by (simp_all add: byte_bound)
  then have "(of_char x :: nat) div 16 < 16" "(of_char y :: nat) div 16 < 16"
    by (simp_all add: div_less_iff_less_mult)
  from hexdigit_inj[OF this assms(1)] have d: "(of_char x :: nat) div 16 = of_char y div 16" .
  have "(of_char x :: nat) mod 16 = of_char y mod 16"
    by (rule hexdigit_inj[OF _ _ assms(2)]) simp_all
  with d have "(of_char x :: nat) = of_char y"
    by (metis div_mult_mod_eq)
  then show ?thesis
    by simp
qed

lemma hex_EncodeToString_inj: "hex_EncodeToString a = hex_EncodeToString b \<Longrightarrow> a = b"
proof (induction a arbitrary: b)
  case Nil
  then show ?case by (cases b) (simp_all add: hex_EncodeToString_def)
next
  case (Cons x a)
  then show ?case
    by (cases b) (auto simp: hex_EncodeToString_def dest: hex_byte_inj)
qed

lemma hex_EncodeToString_take: "take (2 * n) (hex_EncodeToString bs) = hex_EncodeToString (take n bs)"
proof (induction bs arbitrary: n)
  case Nil
  show ?case by (simp add: hex_EncodeToString_def)
next
  case (Cons b bs)
  show ?case
  proof (cases n)
    case 0
    then show ?thesis by (simp add: hex_EncodeToString_def)
  next
    case (Suc m)
    with Cons[of m] show ?thesis by (simp add: hex_EncodeToString_def)
  qed
qed

lemma computeID_digest:
  "(computeID env w p = computeID env' w' q)
     = (take 8 (sha256_Sum (hash_input env w p)) = take 8 (sha256_Sum (hash_input env' w' q)))"
  using hex_EncodeToString_take[of 8] hex_EncodeToString_inj
  by (auto simp: computeID_def)

lemma hash_input_same_parts:
  assumes "ValueString (VMID p) = ValueString (VMID q)"
    and "map (\<lambda>f. (ValueString (Destination f), file_content env w f)) (list_elements (Files p))
           = map (\<lambda>f. (ValueString (Destination f), file_content env' w' f)) (list_elements (Files q))"
    and "list_elements (Commands p) = list_elements (Commands q)"
    and "distinct (map fst (map_entries (Triggers p)))"
    and "sort_key fst (map_entries (Triggers p)) = sort_key fst (map_entries (Triggers q))"
  shows "hash_input env w p = hash_input env' w' q"
proof -
  have "map (\<lambda>(d, c). d @ c) (map (\<lambda>f. (ValueString (Destination f), file_content env w f)) (list_elements (Files p)))
          = map (\<lambda>(d, c). d @ c) (map (\<lambda>f. (ValueString (Destination f), file_content env' w' f)) (list_elements (Files q)))"
    using assms(2) by simp
  moreover have "file_hash_input e x = (\<lambda>f. ValueString (Destination f) @ file_content e x f)" for e :: "'a env" and x
    by (rule ext) (rule file_hash_input_content)
  moreover have "file_hash_input e x = (\<lambda>f. ValueString (Destination f) @ file_content e x f)" for e :: "'b env" and x
    by (rule ext) (rule file_hash_input_content)
  ultimately have f: "map (file_hash_input env w) (list_elements (Files p))
                  = map (file_hash_input env' w') (list_elements (Files q))"
    by (simp add: o_def case_prod_beta)
  show ?thesis
    unfolding hash_input_parts f assms(1,3) trigger_hash_input_sorted[OF assms(4,5)] ..
qed

lemma hash_input_command:
  assumes "c \<noteq> c'" and "Commands p = ListValue (pre @ c # post)"
  shows "hash_input env w (p\<lparr>Commands := ListValue (pre @ c' # post)\<rparr>) \<noteq> hash_input env w p"
  using assms by (simp add: hash_input_parts list_elements_def)

lemma hash_input_file:
  assumes "file_content env w' f' \<noteq> file_content env w f"
    and "ValueString (Destination f') = ValueString (Destination f)"
    and "map (file_hash_input env w') pre = map (file_hash_input env w) pre"
    and "map (file_hash_input env w') post = map (file_hash_input env w) post"
    and "Files p = ListValue (pre @ f # post)"
  shows "hash_input env w' (p\<lparr>Files := ListValue (pre @ f' # post)\<rparr>) \<noteq> hash_input env w p"
  using assms(1,2,5)
  by (simp add: hash_input_parts list_elements_def assms(3,4)
        file_hash_input_content[of _ _ f] file_hash_input_content[of _ _ f'])

lemma hash_input_trigger:
  assumes "ValueString v' \<noteq> ValueString v" and "distinct (map fst (a @ (k, v) # b))"
    and "Triggers p = MapValue (a @ (k, v) # b)"
  shows "hash_input env w (p\<lparr>Triggers := MapValue (a @ (k, v') # b)\<rparr>) \<noteq> hash_input env w p"
  using trigger_hash_input_value[OF assms(2), of v'] assms(1,3)
  by (simp add: hash_input_parts map_entries_def)

text \<open>
  Only so many fingerprints exist, and more declarations: whatever the rest of a
  declaration, two different commands give it the same fingerprint.
\<close>

lemma fingerprints_collide:
  "\<exists>c c'. c \<noteq> c' \<and> computeID env w (p\<lparr>Commands := ListValue [c]\<rparr>)
                      = computeID env w (p\<lparr>Commands := ListValue [c']\<rparr>)"
proof -
  let ?f = "\<lambda>c. computeID env w (p\<lparr>Commands := ListValue [c]\<rparr>)"
  have "finite {s :: string. length s \<le> 16}"
    using finite_lists_length_le[of "UNIV :: char set" 16] by simp
  moreover have "range ?f \<subseteq> {s. length s \<le> 16}"
    by (auto simp: computeID_def)
  ultimately have "finite (range ?f)"
    by (rule rev_finite_subset)
  moreover have "infinite (UNIV :: string set)"
    by (rule infinite_UNIV_listI)
  ultimately have "\<not> inj ?f"
    using finite_imageD by blast
  then show ?thesis
    by (auto simp: inj_on_def)
qed

text \<open>
  C1, as the code has it.  The fingerprint is the first 16 hexadecimal digits of the
  SHA-256 digest of the bytes \<open>computeID\<close> writes to the hash, so two declarations have the
  same fingerprint exactly when those digests agree in their first eight bytes.
  \<^item> Declarations with the same VM identifier, the same file list (each destination
    with the content hashed for it), the same commands and the same sorted trigger entries
    are hashed to the same bytes and so have the same fingerprint.
  \<^item> Another string for one command, another hashed content for one file block, or
    another value for one trigger, read the way \<open>ValueString\<close> reads it, changes the bytes
    that are hashed.
  \<^item> The content hashed for a block without a source is its inline content, and for a
    block with a readable source and no inline content the content of the source file.
\<close>

theorem computeID_follows_the_hashed_bytes:
  "(ValueString (VMID p) = ValueString (VMID q)
      \<and> map (\<lambda>f. (ValueString (Destination f), file_content env w f)) (list_elements (Files p))
          = map (\<lambda>f. (ValueString (Destination f), file_content env' w' f)) (list_elements (Files q))
      \<and> list_elements (Commands p) = list_elements (Commands q)
      \<and> distinct (map fst (map_entries (Triggers p)))
      \<and> sort_key fst (map_entries (Triggers p)) = sort_key fst (map_entries (Triggers q))
    \<longrightarrow> computeID env w p = computeID env' w' q)
   \<and> (c \<noteq> c' \<and> Commands p = ListValue (pre @ c # post)
    \<longrightarrow> hash_input env w (p\<lparr>Commands := ListValue (pre @ c' # post)\<rparr>) \<noteq> hash_input env w p)
   \<and> (file_content env w' f' \<noteq> file_content env w f
      \<and> ValueString (Destination f') = ValueString (Destination f)
      \<and> map (file_hash_input env w') fpre = map (file_hash_input env w) fpre
      \<and> map (file_hash_input env w') fpost = map (file_hash_input env w) fpost
      \<and> Files p = ListValue (fpre @ f # fpost)
    \<longrightarrow> hash_input env w' (p\<lparr>Files := ListValue (fpre @ f' # fpost)\<rparr>) \<noteq> hash_input env w p)
   \<and> (ValueString v' \<noteq> ValueString v \<and> distinct (map fst (a @ (k, v) # b))
      \<and> Triggers p = MapValue (a @ (k, v) # b)
    \<longrightarrow> hash_input env w (p\<lparr>Triggers := MapValue (a @ (k, v') # b)\<rparr>) \<noteq> hash_input env w p)
   \<and> (computeID env w p = computeID env' w' q)
       = (take 8 (sha256_Sum (hash_input env w p)) = take 8 (sha256_Sum (hash_input env' w' q)))
   \<and> (String_IsNull (Source f) \<longrightarrow> file_content env w f = ValueString (Content f))
   \<and> (\<not> String_IsNull (Source f) \<and> String_IsNull (Content f)
      \<and> os_ReadFile env (ValueString (Source f)) w = Inr content
    \<longrightarrow> file_content env w f = content)"
proof (intro conjI impI)
  assume "ValueString (VMID p) = ValueString (VMID q)
      \<and> map (\<lambda>f. (ValueString (Destination f), file_content env w f)) (list_elements (Files p))
          = map (\<lambda>f. (ValueString (Destination f), file_content env' w' f)) (list_elements (Files q))
      \<and> list_elements (Commands p) = list_elements (Commands q)
      \<and> distinct (map fst (map_entries (Triggers p)))
      \<and> sort_key fst (map_entries (Triggers p)) = sort_key fst (map_entries (Triggers q))"
  then have "hash_input env w p = hash_input env' w' q"
    by (intro hash_input_same_parts) simp_all
  then show "computeID env w p = computeID env' w' q"
    by (simp add: computeID_def)
next
  assume "c \<noteq> c' \<and> Commands p = ListValue (pre @ c # post)"
  then show "hash_input env w (p\<lparr>Commands := ListValue (pre @ c' # post)\<rparr>) \<noteq> hash_input env w p"
    by (intro hash_input_command) simp_all
next
  assume "file_content env w' f' \<noteq> file_content env w f
      \<and> ValueString (Destination f') = ValueString (Destination f)
      \<and> map (file_hash_input env w') fpre = map (file_hash_input env w) fpre
      \<and> map (file_hash_input env w') fpost = map (file_hash_input env w) fpost
      \<and> Files p = ListValue (fpre @ f # fpost)"
  then show "hash_input env w' (p\<lparr>Files := ListValue (fpre @ f' # fpost)\<rparr>) \<noteq> hash_input env w p"
    by (intro hash_input_file) simp_all
next
  assume "ValueString v' \<noteq> ValueString v \<and> distinct (map fst (a @ (k, v) # b))
      \<and> Triggers p = MapValue (a @ (k, v) # b)"
  then show "hash_input env w (p\<lparr>Triggers := MapValue (a @ (k, v') # b)\<rparr>) \<noteq> hash_input env w p"
    by (intro hash_input_trigger) simp_all
next
  show "(computeID env w p = computeID env' w' q)
       = (take 8 (sha256_Sum (hash_input env w p)) = take 8 (sha256_Sum (hash_input env' w' q)))"
    by (rule computeID_digest)
next
  assume "String_IsNull (Source f)"
  then show "file_content env w f = ValueString (Content f)"
    by (cases "Content f") (simp_all add: file_content_def)
next
  assume "\<not> String_IsNull (Source f) \<and> String_IsNull (Content f)
      \<and> os_ReadFile env (ValueString (Source f)) w = Inr content"
  then show "file_content env w f = content"
    by (simp add: file_content_def)
qed

text \<open>
  C1 as stated fails.  A trigger whose value goes from null to the empty string has
  changed, and the fingerprint has not: \<open>ValueString\<close> reads both as no bytes at all.
\<close>

theorem null_and_empty_trigger_share_fingerprint:
  "computeID sim_env sim0 ((provision_plan ListNull ListNull)\<lparr>Triggers := MapValue [(''rev'', StringNull)]\<rparr>)
     = computeID sim_env sim0
         ((provision_plan ListNull ListNull)\<lparr>Triggers := MapValue [(''rev'', StringValue [])]\<rparr>)
   \<and> StringNull \<noteq> StringValue []"
  by (simp add: computeID_def hash_input_parts list_elements_def map_entries_def trigger_hash_input_def
        provision_plan_def)

theorem computeID_follows_the_hashed_bytes_witness:
  "ValueString (VMID (declared inline_block [(''b'', StringValue ''1''), (''a'', StringValue ''2'')]))
     = ValueString (VMID (declared source_block [(''a'', StringValue ''2''), (''b'', StringValue ''1'')]))
   \<and> map (\<lambda>f. (ValueString (Destination f), file_content sim_env sim0 f))
         (list_elements (Files (declared inline_block [(''b'', StringValue ''1''), (''a'', StringValue ''2'')])))
       = map (\<lambda>f. (ValueString (Destination f), file_content sim_env sim_with_copy f))
           (list_elements (Files (declared source_block [(''a'', StringValue ''2''), (''b'', StringValue ''1'')])))
   \<and> list_elements (Commands (declared inline_block [(''b'', StringValue ''1''), (''a'', StringValue ''2'')]))
       = list_elements (Commands (declared source_block [(''a'', StringValue ''2''), (''b'', StringValue ''1'')]))
   \<and> distinct (map fst (map_entries (Triggers (declared inline_block [(''b'', StringValue ''1''), (''a'', StringValue ''2'')]))))
   \<and> sort_key fst (map_entries (Triggers (declared inline_block [(''b'', StringValue ''1''), (''a'', StringValue ''2'')])))
       = sort_key fst (map_entries (Triggers (declared source_block [(''a'', StringValue ''2''), (''b'', StringValue ''1'')])))
   \<and> computeID sim_env sim0 (declared inline_block [(''b'', StringValue ''1''), (''a'', StringValue ''2'')])
       = computeID sim_env sim_with_copy (declared source_block [(''a'', StringValue ''2''), (''b'', StringValue ''1'')])
   \<and> ValueString (StringValue ''3'') \<noteq> ValueString (StringValue ''2'')
   \<and> distinct (map fst ([(''b'', StringValue ''1'')] @ (''a'', StringValue ''2'') # []))
   \<and> Triggers (declared inline_block [(''b'', StringValue ''1''), (''a'', StringValue ''2'')])
       = MapValue ([(''b'', StringValue ''1'')] @ (''a'', StringValue ''2'') # [])
   \<and> hash_input sim_env sim0
         ((declared inline_block [(''b'', StringValue ''1''), (''a'', StringValue ''2'')])
            \<lparr>Triggers := MapValue ([(''b'', StringValue ''1'')] @ (''a'', StringValue ''3'') # [])\<rparr>)
       \<noteq> hash_input sim_env sim0 (declared inline_block [(''b'', StringValue ''1''), (''a'', StringValue ''2'')])
   \<and> ''true'' \<noteq> ''false''
   \<and> Commands (declared inline_block [(''b'', StringValue ''1''), (''a'', StringValue ''2'')]) = ListValue ([] @ ''true'' # [])
   \<and> hash_input sim_env sim0 ((declared inline_block [(''b'', StringValue ''1''), (''a'', StringValue ''2'')])\<lparr>Commands := ListValue ([] @ ''false'' # [])\<rparr>) \<noteq> hash_input sim_env sim0 (declared inline_block [(''b'', StringValue ''1''), (''a'', StringValue ''2'')])
   \<and> file_content sim_env sim0 (inline_block\<lparr>Content := StringValue ''echo ho''\<rparr>)
       \<noteq> file_content sim_env sim0 inline_block
   \<and> ValueString (Destination (inline_block\<lparr>Content := StringValue ''echo ho''\<rparr>))
       = ValueString (Destination inline_block)
   \<and> Files (declared inline_block [(''b'', StringValue ''1''), (''a'', StringValue ''2'')]) = ListValue ([] @ inline_block # [])
   \<and> hash_input sim_env sim0 ((declared inline_block [(''b'', StringValue ''1''), (''a'', StringValue ''2'')])\<lparr>Files := ListValue ([] @ inline_block\<lparr>Content := StringValue ''echo ho''\<rparr> # [])\<rparr>)
       \<noteq> hash_input sim_env sim0 (declared inline_block [(''b'', StringValue ''1''), (''a'', StringValue ''2'')])
   \<and> String_IsNull (Source inline_block)
   \<and> file_content sim_env sim0 inline_block = ValueString (Content inline_block)
   \<and> \<not> String_IsNull (Source source_block) \<and> String_IsNull (Content source_block)
   \<and> os_ReadFile sim_env (ValueString (Source source_block)) sim_with_copy = Inr ''echo hi''
   \<and> file_content sim_env sim_with_copy source_block = ''echo hi''"
proof -
  define p where "p = declared inline_block [(''b'', StringValue ''1''), (''a'', StringValue ''2'')]"
  define q where "q = declared source_block [(''a'', StringValue ''2''), (''b'', StringValue ''1'')]"
  have h1: "ValueString (VMID p) = ValueString (VMID q)"
    by (simp add: p_def q_def declared_def provision_plan_def)
  have h2: "map (\<lambda>f. (ValueString (Destination f), file_content sim_env sim0 f)) (list_elements (Files p))
       = map (\<lambda>f. (ValueString (Destination f), file_content sim_env sim_with_copy f)) (list_elements (Files q))"
    by (simp add: p_def q_def declared_def provision_plan_def list_elements_def file_content_def
          inline_block_def source_block_def sim_os sim_with_copy_def)
  have h3: "list_elements (Commands p) = list_elements (Commands q)"
    by (simp add: p_def q_def declared_def provision_plan_def)
  have h4: "distinct (map fst (map_entries (Triggers p)))"
    by (simp add: p_def declared_def map_entries_def)
  have h5: "sort_key fst (map_entries (Triggers p)) = sort_key fst (map_entries (Triggers q))"
    by (simp add: p_def q_def declared_def map_entries_def less_eq_char_def less_char_def)
  note t = computeID_follows_the_hashed_bytes[of p q sim_env sim0 sim_env sim_with_copy
              "''true''" "''false''" "[]" "[]" "inline_block\<lparr>Content := StringValue ''echo ho''\<rparr>" inline_block
              "[]" "[]" "StringValue ''3''" "StringValue ''2''" "[(''b'', StringValue ''1'')]" "''a''" "[]"]
  note t3 = computeID_follows_the_hashed_bytes[of p q sim_env sim0 sim_env sim0
              "''true''" "''false''" "[]" "[]" "inline_block\<lparr>Content := StringValue ''echo ho''\<rparr>" inline_block
              "[]" "[]"]
  note t2 = computeID_follows_the_hashed_bytes[of p q sim_env sim_with_copy sim_env sim_with_copy
              "''true''" "''false''" "[]" "[]" source_block source_block
              "[]" "[]" "StringValue ''3''" "StringValue ''2''" "[(''b'', StringValue ''1'')]" "''a''" "[]"
              "''echo hi''"]
  have a: "computeID sim_env sim0 p = computeID sim_env sim_with_copy q"
    using t[THEN conjunct1] h1 h2 h3 h4 h5 by blast
  have g1: "ValueString (StringValue ''3'') \<noteq> ValueString (StringValue ''2'')"
    by simp
  have g2: "distinct (map fst ([(''b'', StringValue ''1'')] @ (''a'', StringValue ''2'') # []))"
    by simp
  have g3: "Triggers p = MapValue ([(''b'', StringValue ''1'')] @ (''a'', StringValue ''2'') # [])"
    by (simp add: p_def declared_def)
  have b: "hash_input sim_env sim0 (p\<lparr>Triggers := MapValue ([(''b'', StringValue ''1'')] @ (''a'', StringValue ''3'') # [])\<rparr>)
             \<noteq> hash_input sim_env sim0 p"
    using t[THEN conjunct2, THEN conjunct2, THEN conjunct2, THEN conjunct1] g1 g2 g3 by blast
  have c1: "''true'' \<noteq> ''false''"
    by simp
  have c2: "Commands p = ListValue ([] @ ''true'' # [])"
    by (simp add: p_def declared_def provision_plan_def)
  have c: "hash_input sim_env sim0 (p\<lparr>Commands := ListValue ([] @ ''false'' # [])\<rparr>) \<noteq> hash_input sim_env sim0 p"
    using t[THEN conjunct2, THEN conjunct1] c1 c2 by blast
  have f1: "file_content sim_env sim0 (inline_block\<lparr>Content := StringValue ''echo ho''\<rparr>)
       \<noteq> file_content sim_env sim0 inline_block"
    by (simp add: file_content_def inline_block_def)
  have f2: "ValueString (Destination (inline_block\<lparr>Content := StringValue ''echo ho''\<rparr>))
       = ValueString (Destination inline_block)"
    by simp
  have f3: "Files p = ListValue ([] @ inline_block # [])"
    by (simp add: p_def declared_def provision_plan_def)
  have f: "hash_input sim_env sim0 (p\<lparr>Files := ListValue ([] @ inline_block\<lparr>Content := StringValue ''echo ho''\<rparr> # [])\<rparr>)
       \<noteq> hash_input sim_env sim0 p"
    using t3[THEN conjunct2, THEN conjunct2, THEN conjunct1] f1 f2 f3 by simp
  have i1: "String_IsNull (Source inline_block)"
    by (simp add: inline_block_def)
  have i: "file_content sim_env sim0 inline_block = ValueString (Content inline_block)"
    using t[THEN conjunct2, THEN conjunct2, THEN conjunct2, THEN conjunct2, THEN conjunct2, THEN conjunct1] i1
    by blast
  have s1: "\<not> String_IsNull (Source source_block)" "String_IsNull (Content source_block)"
    by (simp_all add: source_block_def)
  have s2: "os_ReadFile sim_env (ValueString (Source source_block)) sim_with_copy = Inr ''echo hi''"
    by (simp add: sim_os source_block_def sim_with_copy_def)
  have s: "file_content sim_env sim_with_copy source_block = ''echo hi''"
    using t2[THEN conjunct2, THEN conjunct2, THEN conjunct2, THEN conjunct2, THEN conjunct2, THEN conjunct2]
      s1 s2
    by blast
  show ?thesis
    using h1 h2 h3 h4 h5 a g1 g2 g3 b c1 c2 c f1 f2 f3 f i1 i s1 s2 s unfolding p_def q_def by (intro conjI)
qed

end
